(* ===== verification/Prelude.thy ===== *)
theory Prelude
  imports Main "HOL-Library.Word"
begin

text \<open>
  The shared vocabulary of the development: bytes and byte strings, the Go slice and
  \<^verbatim>\<open>encoding/binary\<close> operations the sources use, and the generic lemmas that the
  component theories rely on.

  A Go \<^verbatim>\<open>byte\<close> is an \<open>8 word\<close>, a \<^verbatim>\<open>[]byte\<close> a list of them, a fallible call a
  value of a sum type whose left summand is the error. Two collections carry the automation:
  \<open>be_simps\<close> (big-endian codecs) and \<open>slice_simps\<close> (index search and slicing).
\<close>

unbundle bit_operations_syntax

named_theorems be_simps
named_theorems slice_simps

section \<open>Bytes and slices\<close>

type_synonym byte = "8 word"
type_synonym bytes = "8 word list"
type_synonym uint16 = "16 word"
type_synonym uint32 = "32 word"
type_synonym uint64 = "64 word"

text \<open>\<^verbatim>\<open>bytes.IndexByte\<close>: the position of the first occurrence, or none (Go's -1).\<close>

fun index_byte :: "bytes \<Rightarrow> byte \<Rightarrow> nat option" where
  "index_byte [] c = None"
| "index_byte (b # bs) c = (if b = c then Some 0 else map_option Suc (index_byte bs c))"

text \<open>The Go slice expression \<^verbatim>\<open>s[lo:hi]\<close> for \<open>lo \<le> hi \<le> len s\<close>.\<close>

definition go_slice :: "nat \<Rightarrow> nat \<Rightarrow> 'a list \<Rightarrow> 'a list" where
  "go_slice lo hi xs = take (hi - lo) (drop lo xs)"

section \<open>Big-endian integers\<close>

text \<open>
  \<^verbatim>\<open>binary.BigEndian.PutUintN\<close>, \<^verbatim>\<open>binary.Write\<close> and their readers: \<open>be_enc n v\<close> is
  the low \<open>n\<close> bytes of \<open>v\<close>, most significant first, and \<open>be_dec\<close> reads them back.
\<close>

fun be_enc :: "nat \<Rightarrow> nat \<Rightarrow> bytes" where
  "be_enc 0 v = []"
| "be_enc (Suc n) v = be_enc n (v div 256) @ [word_of_nat v]"

definition be_dec :: "bytes \<Rightarrow> nat" where
  "be_dec bs = foldl (\<lambda>a b. a * 256 + unat b) 0 bs"

lemma index_byte_None_iff [slice_simps]: "index_byte bs c = None \<longleftrightarrow> c \<notin> set bs"
  by (induction bs) auto

lemma index_byte_SomeD:
  "index_byte bs c = Some i \<Longrightarrow>
     i < length bs \<and> bs ! i = c \<and> c \<notin> set (take i bs) \<and>
     bs = take i bs @ c # drop (Suc i) bs"
proof (induction bs arbitrary: i)
  case Nil
  then show ?case by simp
next
  case (Cons b bs)
  show ?case
  proof (cases "b = c")
    case True
    with Cons.prems show ?thesis by simp
  next
    case False
    with Cons.prems obtain j where j: "index_byte bs c = Some j" and i: "i = Suc j"
      by auto
    from Cons.IH [OF j] i False show ?thesis by auto
  qed
qed

lemma index_byte_append [slice_simps]:
  "c \<notin> set xs \<Longrightarrow> index_byte (xs @ c # ys) c = Some (length xs)"
  by (induction xs) auto

lemma length_be_enc [simp, be_simps]: "length (be_enc n v) = n"
  by (induction n arbitrary: v) auto

lemma be_dec_Nil [simp, be_simps]: "be_dec [] = 0"
  by (simp add: be_dec_def)

lemma be_dec_snoc [be_simps]: "be_dec (bs @ [b]) = be_dec bs * 256 + unat b"
  by (simp add: be_dec_def)

lemma be_dec_be_enc [be_simps]: "be_dec (be_enc n v) = v mod 256 ^ n"
proof (induction n arbitrary: v)
  case 0
  then show ?case by simp
next
  case (Suc n)
  have "v mod (256 * 256 ^ n) = 256 * (v div 256 mod 256 ^ n) + v mod 256"
    by (rule mod_mult2_eq)
  with Suc.IH show ?case by (simp add: be_dec_snoc unat_of_nat mult.commute)
qed

lemma unat_word_less:
  "unat (w8 :: byte) < 256" "unat (w16 :: uint16) < 65536"
  "unat (w32 :: uint32) < 4294967296" "unat (w64 :: uint64) < 18446744073709551616"
  using unsigned_less [of w8, where 'a = nat] unsigned_less [of w16, where 'a = nat]
    unsigned_less [of w32, where 'a = nat] unsigned_less [of w64, where 'a = nat]
  by simp_all

lemma word_of_nat_low_byte: "(word_of_nat (n * 256 + unat b) :: byte) = b"
  by (rule word_unat_eq_iff [THEN iffD2]) (simp only: unat_of_nat, simp add: unat_word_less)

lemma be_enc_be_dec [be_simps]: "be_enc (length bs) (be_dec bs) = bs"
proof (induction bs rule: rev_induct)
  case Nil
  then show ?case by simp
next
  case (snoc b bs)
  have "(be_dec bs * 256 + unat b) div 256 = be_dec bs"
    using unat_word_less(1) [of b] by simp
  with snoc show ?case by (simp add: be_dec_snoc word_of_nat_low_byte del: of_nat_add of_nat_mult)
qed

lemma be_dec_less: "be_dec bs < 256 ^ length bs"
  by (metis be_dec_be_enc be_enc_be_dec mod_less_divisor zero_less_numeral zero_less_power)

lemma be_dec_unat [be_simps]:
  "be_dec (be_enc 2 (unat (w16 :: uint16))) = unat w16"
  "be_dec (be_enc 4 (unat (w32 :: uint32))) = unat w32"
  "be_dec (be_enc 8 (unat (w64 :: uint64))) = unat w64"
  by (simp_all add: be_dec_be_enc unat_word_less)

lemma go_slice_append_mid [slice_simps]:
  "length xs = lo \<Longrightarrow> lo + length ys = hi \<Longrightarrow> go_slice lo hi (xs @ ys @ zs) = ys"
  by (auto simp: go_slice_def)

lemma length_go_slice [slice_simps]:
  "hi \<le> length xs \<Longrightarrow> length (go_slice lo hi xs) = hi - lo"
  by (simp add: go_slice_def)

text \<open>A property of all bytes is checked on the 256 of them.\<close>

lemma byte_table:
  fixes b :: byte
  assumes "list_all (\<lambda>i. P (word_of_nat i :: byte)) [0..<256]"
  shows "P b"
proof -
  have "unat b \<in> set [0..<256]" using unat_word_less(1) [of b] by simp
  with assms have "P (word_of_nat (unat b))" unfolding list_all_iff by blast
  then show ?thesis by simp
qed

end
