(* ===== verification/Deframe.thy ===== *)
theory Deframe
  imports Prelude
begin

text \<open>
  Flag-delimited framing. Every stream interface of \<^verbatim>\<open>rns/interfaces\<close> cuts its input at a
  flag byte with the same inner loop (\<open>frame_scan\<close> below): find a flag, find the next flag,
  dispatch what lies between, continue at the second flag, keep an unfinished frame for the
  next read. \<open>deframe\<close> is the byte-at-a-time specification of that cutting, and the locale
  \<open>byte_stuffing\<close> is what a framing layer needs of its escape functions. The main results
  are that the loop refines the specification, that how the stream was chopped into reads
  does not matter, and that framed payloads come back unchanged.
\<close>

section \<open>The specification: one byte at a time\<close>

text \<open>
  The state is \<open>None\<close> before the first flag and \<open>Some p\<close> after a flag followed by the bytes
  \<open>p\<close>. Each flag after the first closes a frame and opens the next one.
\<close>

fun deframe :: "byte \<Rightarrow> bytes option \<Rightarrow> bytes \<Rightarrow> bytes option \<times> bytes list" where
  "deframe f st [] = (st, [])"
| "deframe f None (b # bs) = deframe f (if b = f then Some [] else None) bs"
| "deframe f (Some p) (b # bs) =
     (if b = f then (case deframe f (Some []) bs of (st, fs) \<Rightarrow> (st, p # fs))
      else deframe f (Some (p @ [b])) bs)"

text \<open>The buffer an interface keeps between two reads, for a specification state.\<close>

fun pending :: "byte \<Rightarrow> bytes option \<Rightarrow> bytes" where
  "pending f None = []"
| "pending f (Some p) = f # p"

fun partial_ok :: "byte \<Rightarrow> bytes option \<Rightarrow> bool" where
  "partial_ok f None \<longleftrightarrow> True"
| "partial_ok f (Some p) \<longleftrightarrow> f \<notin> set p"

section \<open>The loop of the interfaces\<close>

text \<open>
  The inner loop of the read loops (\<^verbatim>\<open>tcp.go\<close> lines 340-367, \<^verbatim>\<open>kiss-unix.go\<close> 221-249,
  \<^verbatim>\<open>local.go\<close> 195-217, \<^verbatim>\<open>ax25-kiss-unix.go\<close> 365-397). \<open>d\<close> is what the interface does with
  the bytes between two flags: the payloads it hands to its inbound handler.
\<close>

function frame_scan :: "byte \<Rightarrow> (bytes \<Rightarrow> bytes list) \<Rightarrow> bytes \<Rightarrow> bytes \<times> bytes list" where
  "frame_scan f d frameBuffer =
     (case index_byte frameBuffer f of
        None \<Rightarrow> ([], [])
      | Some start \<Rightarrow>
          (case index_byte (drop (start + 1) frameBuffer) f of
             None \<Rightarrow> (drop start frameBuffer, [])
           | Some e \<Rightarrow>
               let endd = e + start + 1;
                   frame = go_slice (start + 1) endd frameBuffer
               in case frame_scan f d (drop endd frameBuffer) of
                    (tail, out) \<Rightarrow> (tail, d frame @ out)))"
  by pat_completeness auto
termination
  by (relation "measure (\<lambda>(f, d, buf). length buf)")
    (auto dest!: index_byte_SomeD)

declare frame_scan.simps [simp del]

text \<open>A read appends what it got to the buffer and runs the loop; a run does so per read.\<close>

definition scan_read :: "byte \<Rightarrow> (bytes \<Rightarrow> bytes list) \<Rightarrow> bytes \<Rightarrow> bytes \<Rightarrow> bytes \<times> bytes list" where
  "scan_read f d frameBuffer chunk = frame_scan f d (frameBuffer @ chunk)"

fun scan_run :: "byte \<Rightarrow> (bytes \<Rightarrow> bytes list) \<Rightarrow> bytes \<Rightarrow> bytes list \<Rightarrow> bytes \<times> bytes list" where
  "scan_run f d buf [] = (buf, [])"
| "scan_run f d buf (c # cs) =
     (case scan_read f d buf c of (buf', out) \<Rightarrow>
        (case scan_run f d buf' cs of (buf'', out') \<Rightarrow> (buf'', out @ out')))"

section \<open>Facts about the specification\<close>

lemma deframe_append:
  "deframe f st (xs @ ys) =
     (case deframe f st xs of (st1, a) \<Rightarrow>
        (case deframe f st1 ys of (st2, b) \<Rightarrow> (st2, a @ b)))"
  by (induction f st xs rule: deframe.induct) (auto split: prod.splits)

lemma deframe_None_no_flag [simp]: "f \<notin> set xs \<Longrightarrow> deframe f None xs = (None, [])"
  by (induction xs) auto

lemma deframe_Some_no_flag [simp]: "f \<notin> set xs \<Longrightarrow> deframe f (Some p) xs = (Some (p @ xs), [])"
  by (induction xs arbitrary: p) auto

lemma deframe_partial_ok:
  "partial_ok f st \<Longrightarrow> deframe f st xs = (st', fs) \<Longrightarrow> partial_ok f st'"
  by (induction f st xs arbitrary: fs rule: deframe.induct)
    (auto split: prod.splits if_splits)

lemma deframe_to_None: "deframe f st xs = (None, fs) \<Longrightarrow> st = None \<and> f \<notin> set xs"
  by (induction f st xs arbitrary: fs rule: deframe.induct) (auto split: prod.splits if_splits)

lemma deframe_pending:
  "partial_ok f st \<Longrightarrow> deframe f None (pending f st @ xs) = deframe f st xs"
  by (cases st) (auto simp: deframe_append split: prod.splits)

section \<open>The loop refines the specification\<close>

lemma frame_scan_deframe:
  "frame_scan f d buf =
     (case deframe f None buf of (st, fs) \<Rightarrow> (pending f st, concat (map d fs)))"
proof (induction f d buf rule: frame_scan.induct)
  case (1 f d buf)
  show ?case
  proof (cases "index_byte buf f")
    case None
    then have "f \<notin> set buf" by (simp add: slice_simps)
    with None show ?thesis by (simp add: frame_scan.simps [of f d buf])
  next
    case start: (Some start)
    from index_byte_SomeD [OF start] have s: "f \<notin> set (take start buf)"
      and buf: "buf = take start buf @ f # drop (Suc start) buf" by auto
    let ?rest = "drop (Suc start) buf"
    have df: "deframe f None buf = deframe f (Some []) ?rest"
      using s by (subst buf) (simp add: deframe_append split: prod.splits)
    show ?thesis
    proof (cases "index_byte ?rest f")
      case None
      then have "f \<notin> set ?rest" by (simp add: slice_simps)
      moreover have "drop start buf = f # ?rest"
        using index_byte_SomeD [OF start] by (metis Cons_nth_drop_Suc)
      ultimately show ?thesis
        using start None df by (simp add: frame_scan.simps [of f d buf])
    next
      case e: (Some e)
      from index_byte_SomeD [OF e] have fe: "f \<notin> set (take e ?rest)"
        and rest: "?rest = take e ?rest @ f # drop (Suc e) ?rest"
        and el: "e < length ?rest" and ef: "?rest ! e = f" by auto
      have dr: "drop (e + start + 1) buf = f # drop (Suc e) ?rest"
        using el ef Cons_nth_drop_Suc [OF el] by (simp add: add.commute)
      have fr: "go_slice (start + 1) (e + start + 1) buf = take e ?rest"
        by (simp add: go_slice_def)
      have IH: "frame_scan f d (drop (e + start + 1) buf) =
          (case deframe f None (drop (e + start + 1) buf) of (st, fs) \<Rightarrow>
             (pending f st, concat (map d fs)))"
        using "1.IH" [OF start, of e "e + start + 1" "take e ?rest"] e fr by simp
      have "deframe f (Some []) ?rest =
          (case deframe f (Some []) (drop (Suc e) ?rest) of (st, fs) \<Rightarrow> (st, take e ?rest # fs))"
        using fe by (subst rest) (simp add: deframe_append split: prod.splits)
      with IH show ?thesis
        using start e df dr fr
        by (simp add: frame_scan.simps [of f d buf] Let_def split: prod.splits)
    qed
  qed
qed

lemma scan_run_deframe:
  "partial_ok f st \<Longrightarrow>
     scan_run f d (pending f st) cs =
       (case deframe f st (concat cs) of (st', fs) \<Rightarrow> (pending f st', concat (map d fs)))"
proof (induction cs arbitrary: st)
  case Nil
  then show ?case by simp
next
  case (Cons c cs)
  obtain st1 fs1 where d1: "deframe f st c = (st1, fs1)" by force
  obtain st2 fs2 where d2: "deframe f st1 (concat cs) = (st2, fs2)" by force
  have ok: "partial_ok f st1" by (rule deframe_partial_ok [OF Cons.prems d1])
  have "scan_read f d (pending f st) c = (pending f st1, concat (map d fs1))"
    using Cons.prems d1 by (simp add: scan_read_def frame_scan_deframe deframe_pending)
  with Cons.IH [OF ok] d1 d2 show ?case by (simp add: deframe_append)
qed

text \<open>How the stream was chopped into reads is irrelevant to the result.\<close>

lemma scan_run_chunking:
  "scan_run f d [] cs = frame_scan f d (concat cs)"
  using scan_run_deframe [of f None d cs] by (simp add: frame_scan_deframe)

section \<open>What a framing layer needs of its escape functions\<close>

locale byte_stuffing =
  fixes flag :: byte
    and esc :: "bytes \<Rightarrow> bytes"
    and unesc :: "bytes \<Rightarrow> bytes"
  assumes esc_flag_free: "flag \<notin> set (esc p)"
    and unesc_esc: "unesc (esc p) = p"
begin

lemma deframe_one_frame:
  "deframe flag st (flag # hdr @ esc p @ [flag]) =
     (Some [], (case st of None \<Rightarrow> [] | Some q \<Rightarrow> [q]) @ [hdr @ esc p])"
  if "flag \<notin> set hdr"
  using that esc_flag_free [of p]
  by (cases st) (auto simp: deframe_append)

text \<open>
  A sender emits one flag, a header, the escaped payload and one flag per packet. Between two
  packets the receiver sees an empty frame.
\<close>

lemma deframe_frames:
  assumes "flag \<notin> set hdr"
  shows "deframe flag (Some []) (concat (map (\<lambda>p. flag # hdr @ esc p @ [flag]) ps)) =
           (Some [], concat (map (\<lambda>p. [[], hdr @ esc p]) ps))"
  using assms by (induction ps) (simp_all add: deframe_append esc_flag_free)

lemma deframe_stream:
  assumes "flag \<notin> set hdr"
  shows "deframe flag None (concat (map (\<lambda>p. flag # hdr @ esc p @ [flag]) ps)) =
           (if ps = [] then (None, [])
            else (Some [], tl (concat (map (\<lambda>p. [[], hdr @ esc p]) ps))))"
proof (cases ps)
  case Nil
  then show ?thesis by simp
next
  case (Cons p ps')
  with assms show ?thesis
    by (simp add: deframe_append esc_flag_free deframe_frames)
qed

text \<open>
  Any interface loop whose dispatch ignores empty frames and delivers the payload of a good
  frame receives exactly the packets that were sent, however the stream was chopped up.
\<close>

lemma scan_run_frames:
  assumes hdr: "flag \<notin> set hdr" and empty: "d [] = []"
    and good: "\<And>p. p \<in> set ps \<Longrightarrow> d (hdr @ esc p) = [p]"
    and stream: "concat cs = concat (map (\<lambda>p. flag # hdr @ esc p @ [flag]) ps)"
  shows "snd (scan_run flag d [] cs) = ps"
proof -
  have all: "concat (map d (concat (map (\<lambda>p. [[], hdr @ esc p]) qs))) = qs"
    if "set qs \<subseteq> set ps" for qs
    using that by (induction qs) (auto simp: empty good)
  show ?thesis
  proof (cases ps)
    case Nil
    with stream have "concat cs = []" by (simp only: list.map concat.simps)
    then show ?thesis using Nil by (simp only: scan_run_chunking frame_scan_deframe) simp
  next
    case (Cons p ps')
    with all [of ps'] good have "concat (map d (tl (concat (map (\<lambda>p. [[], hdr @ esc p]) ps)))) = ps"
      by auto
    then show ?thesis
      using Cons by (simp only: scan_run_chunking stream frame_scan_deframe deframe_stream [OF hdr]) simp
  qed
qed

end

end
