(* ===== verification/Hdlc.thy ===== *)
theory Hdlc
  imports Deframe
begin

text \<open>
  HDLC framing (\<^verbatim>\<open>rns/interfaces/hdlc.go\<close>): byte stuffing, frame-length validation and the
  reassembler with its overflow guard. Beside the model stands the reference behaviour the
  source documents for \<^verbatim>\<open>HDLCUnescape\<close>, two sequential replacements, as \<open>py_replace2\<close>.
\<close>

section \<open>Constants and frame-length check\<close>

abbreviation (input) HDLCHeaderMinSize :: int where
  "HDLCHeaderMinSize \<equiv> 2 + 1 + 128 div 8"

definition CheckFrameLen :: "int \<Rightarrow> int \<Rightarrow> int \<Rightarrow> bool" where
  "CheckFrameLen frameLen hwmtu ifacSize =
     (if frameLen \<le> HDLCHeaderMinSize then False
      else if frameLen > hwmtu + ifacSize then False
      else True)"

abbreviation (input) HDLCFlag :: byte where "HDLCFlag \<equiv> 0x7E"
abbreviation (input) HDLCEsc :: byte where "HDLCEsc \<equiv> 0x7D"
abbreviation (input) HDLCEscMask :: byte where "HDLCEscMask \<equiv> 0x20"

section \<open>Byte stuffing\<close>

fun HDLCEscape :: "bytes \<Rightarrow> bytes" where
  "HDLCEscape [] = []"
| "HDLCEscape (b # data) =
     (if b = HDLCEsc then [HDLCEsc, HDLCEsc XOR HDLCEscMask]
      else if b = HDLCFlag then [HDLCEsc, HDLCFlag XOR HDLCEscMask]
      else [b]) @ HDLCEscape data"

fun HDLCUnescape :: "bytes \<Rightarrow> bytes" where
  "HDLCUnescape [] = []"
| "HDLCUnescape [b] = [b]"
| "HDLCUnescape (b # c # data) =
     (if b = HDLCEsc then
        if c = HDLCEsc XOR HDLCEscMask then HDLCEsc # HDLCUnescape data
        else if c = HDLCFlag XOR HDLCEscMask then HDLCFlag # HDLCUnescape data
        else b # HDLCUnescape (c # data)
      else b # HDLCUnescape (c # data))"

text \<open>Python's \<^verbatim>\<open>bytes.replace\<close> of a two-byte pattern by one byte, left to right.\<close>

fun py_replace2 :: "byte \<Rightarrow> byte \<Rightarrow> byte \<Rightarrow> bytes \<Rightarrow> bytes" where
  "py_replace2 x y r [] = []"
| "py_replace2 x y r [b] = [b]"
| "py_replace2 x y r (b # c # bs) =
     (if b = x \<and> c = y then r # py_replace2 x y r bs else b # py_replace2 x y r (c # bs))"

section \<open>The reassembler\<close>

function hdlcReassemble :: "bytes \<Rightarrow> int \<Rightarrow> bytes \<times> bytes list" where
  "hdlcReassemble frameBuffer hwmtu =
     (case index_byte frameBuffer HDLCFlag of
        None \<Rightarrow> ([], [])
      | Some start \<Rightarrow>
          (case index_byte (drop (start + 1) frameBuffer) HDLCFlag of
             None \<Rightarrow>
               if int (length frameBuffer) > hwmtu * 2 then ([], [])
               else (drop start frameBuffer, [])
           | Some e \<Rightarrow>
               let endd = e + start + 1;
                   frame = go_slice (start + 1) endd frameBuffer;
                   unescaped = HDLCUnescape frame
               in case hdlcReassemble (drop endd frameBuffer) hwmtu of
                    (tail, frames) \<Rightarrow>
                      (tail, if unescaped \<noteq> [] then unescaped # frames else frames)))"
  by pat_completeness auto
termination
  by (relation "measure (\<lambda>(buf, hwmtu). length buf)") (auto dest!: index_byte_SomeD)

declare hdlcReassemble.simps [simp del]

text \<open>What a read loop does with one frame of a stream without the overflow guard.\<close>

definition hdlcDispatch :: "bytes \<Rightarrow> bytes list" where
  "hdlcDispatch frame = (let unescaped = HDLCUnescape frame in if unescaped \<noteq> [] then [unescaped] else [])"

text \<open>The frame the senders write: one flag, the escaped packet, one flag.\<close>

definition hdlcFrame :: "bytes \<Rightarrow> bytes" where
  "hdlcFrame data = HDLCFlag # HDLCEscape data @ [HDLCFlag]"

text \<open>A run of reads: each appends a chunk to the kept buffer and reassembles.\<close>

fun hdlc_run :: "int \<Rightarrow> bytes \<Rightarrow> bytes list \<Rightarrow> bytes \<times> bytes list" where
  "hdlc_run hwmtu buf [] = (buf, [])"
| "hdlc_run hwmtu buf (c # cs) =
     (case hdlcReassemble (buf @ c) hwmtu of (buf', out) \<Rightarrow>
        (case hdlc_run hwmtu buf' cs of (buf'', out') \<Rightarrow> (buf'', out @ out')))"

section \<open>Byte stuffing is lossless\<close>

lemma hdlc_values [simp]:
  "HDLCEsc XOR HDLCEscMask = 0x5D" "HDLCFlag XOR HDLCEscMask = 0x5E"
  "HDLCEsc \<noteq> 0x5D" "HDLCFlag \<noteq> 0x5D" "HDLCEsc \<noteq> 0x5E" "HDLCFlag \<noteq> 0x5E" "HDLCEsc \<noteq> HDLCFlag"
  "(0x5D :: byte) \<noteq> HDLCEsc" "(0x5D :: byte) \<noteq> HDLCFlag"
  "(0x5E :: byte) \<noteq> HDLCEsc" "(0x5E :: byte) \<noteq> HDLCFlag" "HDLCFlag \<noteq> HDLCEsc"
  by simp_all

lemma HDLCEscape_flag_free: "HDLCFlag \<notin> set (HDLCEscape p)"
  by (induction p) auto

lemma HDLCUnescape_plain: "b \<noteq> HDLCEsc \<Longrightarrow> HDLCUnescape (b # bs) = b # HDLCUnescape bs"
  by (cases bs) auto

lemma HDLCUnescape_HDLCEscape: "HDLCUnescape (HDLCEscape p) = p"
  by (induction p) (auto simp: HDLCUnescape_plain)

interpretation hdlc: byte_stuffing HDLCFlag HDLCEscape HDLCUnescape
  by unfold_locales (rule HDLCEscape_flag_free, rule HDLCUnescape_HDLCEscape)

lemma length_HDLCEscape: "length (HDLCEscape p) \<le> 2 * length p"
  by (induction p) auto

lemma HDLCEscape_eq_Nil [simp]: "HDLCEscape p = [] \<longleftrightarrow> p = []"
  by (cases p) auto

lemma py_replace2_plain: "b \<noteq> x \<Longrightarrow> py_replace2 x y r (b # bs) = b # py_replace2 x y r bs"
  by (cases bs) auto

lemma py_replace2_Cons_nonempty: "py_replace2 x y r (c # bs) \<noteq> []"
  by (cases bs) auto

lemma py_replace2_hd_5D:
  "(case py_replace2 HDLCEsc 0x5E HDLCFlag (c # bs) of [] \<Rightarrow> False | h # _ \<Rightarrow> h = 0x5D) \<longleftrightarrow> c = 0x5D"
  by (cases bs) auto

lemma HDLCUnescape_replace:
  "py_replace2 HDLCEsc 0x5D HDLCEsc (py_replace2 HDLCEsc 0x5E HDLCFlag data) = HDLCUnescape data"
proof (induction data rule: HDLCUnescape.induct)
  case 1
  then show ?case by simp
next
  case (2 b)
  then show ?case by simp
next
  case (3 b c data)
  show ?case
  proof (cases "b = HDLCEsc")
    case False
    with "3.IH"(4) show ?thesis by (simp add: py_replace2_plain)
  next
    case b: True
    consider "c = 0x5D" | "c = 0x5E" | "c \<noteq> 0x5D" "c \<noteq> 0x5E" by blast
    then show ?thesis
    proof cases
      case 1
      with b "3.IH"(1) show ?thesis by (simp add: py_replace2_plain)
    next
      case 2
      with b "3.IH"(2) show ?thesis by (simp add: py_replace2_plain)
    next
      case 3
      with b have "HDLCUnescape (b # c # data) = b # HDLCUnescape (c # data)" by simp
      moreover obtain h t where ht: "py_replace2 HDLCEsc 0x5E HDLCFlag (c # data) = h # t"
        using py_replace2_Cons_nonempty neq_Nil_conv by metis
      moreover have "h \<noteq> 0x5D" using py_replace2_hd_5D [of c data] ht 3 by simp
      ultimately show ?thesis
        using b 3 "3.IH"(3) by simp
    qed
  qed
qed

section \<open>The reassembler against the plain loop\<close>

lemma hdlcReassemble_frames:
  "snd (hdlcReassemble buf m) = snd (frame_scan HDLCFlag hdlcDispatch buf)"
proof (induction buf m rule: hdlcReassemble.induct)
  case (1 buf m)
  show ?case
  proof (cases "index_byte buf HDLCFlag")
    case None
    then show ?thesis by (simp add: hdlcReassemble.simps frame_scan.simps)
  next
    case start: (Some start)
    show ?thesis
    proof (cases "index_byte (drop (start + 1) buf) HDLCFlag")
      case None
      with start show ?thesis
        by (simp add: hdlcReassemble.simps [of buf] frame_scan.simps [of _ _ buf])
    next
      case (Some e)
      with start "1.IH" [OF start Some refl refl refl] show ?thesis
        by (simp add: hdlcReassemble.simps [of buf] frame_scan.simps [of _ _ buf]
            hdlcDispatch_def [of "go_slice _ _ _"] Let_def case_prod_beta)
    qed
  qed
qed

lemma hdlcReassemble_tail:
  "buf = [] \<or> hd buf = HDLCFlag \<Longrightarrow>
     fst (hdlcReassemble buf m) =
       (let t = fst (frame_scan HDLCFlag hdlcDispatch buf) in if int (length t) > m * 2 then [] else t)"
proof (induction buf m rule: hdlcReassemble.induct)
  case (1 buf m)
  show ?case
  proof (cases buf)
    case Nil
    then show ?thesis by (simp add: hdlcReassemble.simps frame_scan.simps)
  next
    case (Cons b bs)
    with "1.prems" have start: "index_byte buf HDLCFlag = Some 0" by simp
    show ?thesis
    proof (cases "index_byte (drop (0 + 1) buf) HDLCFlag")
      case None
      with start show ?thesis
        by (simp add: hdlcReassemble.simps [of buf] frame_scan.simps [of _ _ buf] Let_def)
    next
      case (Some e)
      let ?rest = "drop (e + 0 + 1) buf"
      have "?rest = [] \<or> hd ?rest = HDLCFlag"
        using index_byte_SomeD [OF Some] Cons by (simp add: hd_drop_conv_nth)
      from "1.IH" [OF start Some refl refl refl this] show ?thesis
        using start Some
        by (simp add: hdlcReassemble.simps [of buf] frame_scan.simps [of _ _ buf] Let_def
            case_prod_beta)
    qed
  qed
qed

lemma hdlcReassemble_tail_bounded:
  "0 \<le> m \<Longrightarrow> int (length (fst (hdlcReassemble buf m))) \<le> m * 2"
proof (induction buf m rule: hdlcReassemble.induct)
  case (1 buf m)
  show ?case
  proof (cases "index_byte buf HDLCFlag")
    case None
    with "1.prems" show ?thesis by (simp add: hdlcReassemble.simps)
  next
    case start: (Some start)
    show ?thesis
    proof (cases "index_byte (drop (start + 1) buf) HDLCFlag")
      case None
      with start "1.prems" show ?thesis by (auto simp: hdlcReassemble.simps [of buf])
    next
      case (Some e)
      with start "1.IH" [OF start Some refl refl refl "1.prems"] show ?thesis
        by (simp add: hdlcReassemble.simps [of buf] Let_def case_prod_beta)
    qed
  qed
qed

section \<open>Streams of frames through the reassembler\<close>

lemma deframe_partial_prefix:
  "deframe f (Some q) ys = (Some [], fs) \<Longrightarrow> q = [] \<or> (\<exists>r\<in>set fs. length q \<le> length r)"
proof (induction ys arbitrary: q fs)
  case Nil
  then show ?case by simp
next
  case (Cons y ys)
  show ?case
  proof (cases "y = f")
    case True
    with Cons.prems show ?thesis by (auto split: prod.splits)
  next
    case False
    with Cons.prems have "deframe f (Some (q @ [y])) ys = (Some [], fs)" by simp
    from Cons.IH [OF this] show ?thesis by (auto intro: Suc_leD)
  qed
qed

text \<open>
  While the reads follow a stream that ends on a flag and whose frames leave room for one flag
  within twice the hardware MTU, the guard never fires and the run behaves as the plain loop.
\<close>

lemma hdlc_run_scan:
  assumes "partial_ok HDLCFlag st"
    and "st = None \<longrightarrow> concat cs = [] \<or> hd (concat cs) = HDLCFlag"
    and "deframe HDLCFlag st (concat cs) = (Some [], fs)"
    and "\<forall>r\<in>set fs. int (length r) + 1 \<le> m * 2" and "1 \<le> m"
  shows "hdlc_run m (pending HDLCFlag st) cs = scan_run HDLCFlag hdlcDispatch (pending HDLCFlag st) cs"
  using assms(1-4)
proof (induction cs arbitrary: st fs)
  case Nil
  then show ?case by simp
next
  case (Cons c cs)
  let ?buf = "pending HDLCFlag st @ c"
  obtain st1 fs1 where d1: "deframe HDLCFlag st c = (st1, fs1)" by force
  obtain st2 fs2 where d2: "deframe HDLCFlag st1 (concat cs) = (st2, fs2)" by force
  have st2: "st2 = Some []" and fs: "fs = fs1 @ fs2"
    using Cons.prems(3) d1 d2 by (auto simp: deframe_append)
  have ok: "partial_ok HDLCFlag st1" by (rule deframe_partial_ok [OF Cons.prems(1) d1])
  have sc: "frame_scan HDLCFlag hdlcDispatch ?buf =
      (pending HDLCFlag st1, concat (map hdlcDispatch fs1))"
    using Cons.prems(1) d1 by (simp add: frame_scan_deframe deframe_pending)
  have len: "int (length (pending HDLCFlag st1)) \<le> m * 2"
  proof (cases st1)
    case None
    with \<open>1 \<le> m\<close> show ?thesis by simp
  next
    case (Some q)
    from deframe_partial_prefix [of HDLCFlag q "concat cs" fs2] d2 st2 Some
    have "q = [] \<or> (\<exists>r\<in>set fs2. length q \<le> length r)" by simp
    then show ?thesis
    proof
      assume "\<exists>r\<in>set fs2. length q \<le> length r"
      then obtain r where "r \<in> set fs" and "length q \<le> length r" using fs by auto
      with Cons.prems(4) have "int (length q) + 1 \<le> m * 2" by fastforce
      with Some show ?thesis by simp
    qed (use Some \<open>1 \<le> m\<close> in simp)
  qed
  have head: "?buf = [] \<or> hd ?buf = HDLCFlag"
    using Cons.prems(2) by (cases st; cases c) auto
  have re: "hdlcReassemble ?buf m = (pending HDLCFlag st1, concat (map hdlcDispatch fs1))"
    using hdlcReassemble_tail [OF head, of m] hdlcReassemble_frames [of ?buf m] sc len
    by (simp add: prod_eq_iff Let_def)
  have cont: "st1 = None \<longrightarrow> concat cs = [] \<or> hd (concat cs) = HDLCFlag"
  proof
    assume st1: "st1 = None"
    with d1 have "st = None" and "HDLCFlag \<notin> set c" by (auto dest: deframe_to_None)
    with Cons.prems(2) show "concat cs = [] \<or> hd (concat cs) = HDLCFlag"
      by (cases c) auto
  qed
  have "hdlc_run m (pending HDLCFlag st1) cs = scan_run HDLCFlag hdlcDispatch (pending HDLCFlag st1) cs"
    using Cons.IH [OF ok cont] d2 st2 Cons.prems(4) fs by auto
  with re sc show ?case by (simp add: scan_read_def)
qed

end
