(* ===== verification/Kiss.thy ===== *)
theory Kiss
  imports Deframe
begin

text \<open>
  KISS framing (\<^verbatim>\<open>rns/interfaces/kiss.go\<close>) and the dispatch of received KISS frames that the
  TCP and serial interfaces share. \<open>KISSEscape\<close> and \<open>KISSUnescape\<close> are the second instance of
  the \<open>byte_stuffing\<close> interface.
\<close>

section \<open>Constants\<close>

definition KISSFend :: byte where "KISSFend = 0xC0"
abbreviation (input) KISSFesc :: byte where "KISSFesc \<equiv> 0xDB"
abbreviation (input) KISSTfend :: byte where "KISSTfend \<equiv> 0xDC"
abbreviation (input) KISSTfesc :: byte where "KISSTfesc \<equiv> 0xDD"
abbreviation (input) KISSCmdData :: byte where "KISSCmdData \<equiv> 0x00"
abbreviation (input) KISSCmdSelInt :: byte where "KISSCmdSelInt \<equiv> 0x1F"

lemmas kiss_consts = KISSFend_def
 

section \<open>Byte stuffing\<close>

fun KISSEscape :: "bytes \<Rightarrow> bytes" where
  "KISSEscape [] = []"
| "KISSEscape (b # data) =
     (if b = KISSFesc then [KISSFesc, KISSTfesc]
      else if b = KISSFend then [KISSFesc, KISSTfend]
      else [b]) @ KISSEscape data"

text \<open>The loop of \<^verbatim>\<open>KISSUnescape\<close>; the boolean is its variable \<^verbatim>\<open>escape\<close>.\<close>

fun kiss_unescape_loop :: "bool \<Rightarrow> bytes \<Rightarrow> bytes" where
  "kiss_unescape_loop escape [] = []"
| "kiss_unescape_loop escape (b # data) =
     (if escape then
        (if b = KISSTfend then [KISSFend] else if b = KISSTfesc then [KISSFesc] else [])
          @ kiss_unescape_loop False data
      else if b = KISSFesc then kiss_unescape_loop True data
      else b # kiss_unescape_loop False data)"

definition KISSUnescape :: "bytes \<Rightarrow> bytes" where
  "KISSUnescape data = kiss_unescape_loop False data"

section \<open>Command frames\<close>

definition KISSFrame :: "byte \<Rightarrow> bytes \<Rightarrow> bytes" where
  "KISSFrame cmd data = (let escaped = KISSEscape data in [KISSFend] @ [cmd] @ escaped @ [KISSFend])"

definition KISSFrameUint32 :: "byte \<Rightarrow> uint32 \<Rightarrow> bytes" where
  "KISSFrameUint32 cmd v =
     KISSFrame cmd [ucast (drop_bit 24 v), ucast (drop_bit 16 v), ucast (drop_bit 8 v), ucast v]"

definition KISSFrameUint8 :: "byte \<Rightarrow> byte \<Rightarrow> bytes" where
  "KISSFrameUint8 cmd v = KISSFrame cmd [v]"

definition KISSFrameUint16 :: "byte \<Rightarrow> uint16 \<Rightarrow> bytes" where
  "KISSFrameUint16 cmd v = KISSFrame cmd [ucast (drop_bit 8 v), ucast v]"

definition KISSFrameSelectInt :: "byte \<Rightarrow> byte \<Rightarrow> bytes \<Rightarrow> bytes" where
  "KISSFrameSelectInt cmd index data =
     [KISSFend, KISSCmdSelInt, index, KISSFend] @ [KISSFend, cmd] @ KISSEscape data @ [KISSFend]"

section \<open>Dispatch of a received frame\<close>

text \<open>
  The body of the KISS read loops: the low nibble of the first byte is the command; a data
  frame's remaining bytes are unescaped and delivered when something is left.
\<close>

definition kissDispatch :: "bytes \<Rightarrow> bytes list" where
  "kissDispatch frame =
     (case frame of
        [] \<Rightarrow> []
      | c # rest \<Rightarrow>
          if c AND 0x0F = KISSCmdData then
            (let payload = KISSUnescape rest in if payload \<noteq> [] then [payload] else [])
          else [])"

section \<open>Byte stuffing is lossless\<close>

lemma kiss_values [simp]:
  "KISSFend \<noteq> KISSFesc" "KISSFesc \<noteq> KISSFend" "KISSTfend \<noteq> KISSFend" "KISSTfesc \<noteq> KISSFend"
  "KISSFend \<noteq> KISSTfend" "KISSFend \<noteq> KISSTfesc" "KISSTfesc \<noteq> KISSTfend" "KISSTfend \<noteq> KISSTfesc"
  "KISSCmdData \<noteq> KISSFend" "KISSFend \<noteq> KISSCmdData" "KISSCmdData AND 0x0F = KISSCmdData"
  by (simp_all add: kiss_consts)

lemma KISSEscape_flag_free: "KISSFend \<notin> set (KISSEscape p)"
  by (induction p) auto

lemma KISSUnescape_KISSEscape: "KISSUnescape (KISSEscape p) = p"
  unfolding KISSUnescape_def by (induction p) auto

interpretation kiss: byte_stuffing KISSFend KISSEscape KISSUnescape
  by unfold_locales (rule KISSEscape_flag_free, rule KISSUnescape_KISSEscape)

lemma kissDispatch_data [simp]: "p \<noteq> [] \<Longrightarrow> kissDispatch (KISSCmdData # KISSEscape p) = [p]"
  by (simp add: kissDispatch_def KISSUnescape_KISSEscape)

lemma kissDispatch_Nil [simp]: "kissDispatch [] = []"
  by (simp add: kissDispatch_def)

text \<open>
  A command frame cut out of the stream gives back its command and its data, for every command
  byte but the flag itself.
\<close>

lemma deframe_KISSFrame:
  "cmd \<noteq> KISSFend \<Longrightarrow>
     deframe KISSFend (Some []) (KISSFrame cmd data) = (Some [], [[], cmd # KISSEscape data])"
  using kiss.deframe_one_frame [of "[cmd]" "Some []" data] by (simp add: KISSFrame_def)

end
