(* ===== verification/StreamIfaces.thy ===== *)
theory StreamIfaces
  imports Hdlc Kiss
begin

text \<open>
  The receive paths of the stream interfaces: the TCP client (\<^verbatim>\<open>rns/interfaces/tcp.go\<close>, HDLC
  or KISS framing), the local shared-instance client (\<^verbatim>\<open>local.go\<close>) and the byte-at-a-time
  HDLC machine of the serial and pipe interfaces (\<^verbatim>\<open>serial_linux.go\<close>,
  \<^verbatim>\<open>pipe-subprocess.go\<close>). Reading from the descriptor is the environment: a read is a chunk
  of bytes, and the inbound handler is the list of payloads handed to it, in order.
\<close>

section \<open>The TCP client\<close>

record tcp_rx =
  kissFraming :: bool
  hwmtu :: int
  ifacSize :: int
  frameBuffer :: bytes
  rxBytes :: uint64

text \<open>\<^verbatim>\<open>atomic.AddUint64(&rxBytes, uint64(len(payload)))\<close>, once per delivered payload.\<close>

definition count_rx :: "uint64 \<Rightarrow> bytes list \<Rightarrow> uint64" where
  "count_rx rx out = foldl (\<lambda>r p. r + word_of_nat (length p)) rx out"

text \<open>One iteration of the read loop, for a read that returned the bytes \<open>chunk\<close>.\<close>

definition tcp_read :: "tcp_rx \<Rightarrow> bytes \<Rightarrow> tcp_rx \<times> bytes list" where
  "tcp_read s chunk =
     (if chunk = [] then (s, [])
      else if kissFraming s then
        (case scan_read KISSFend kissDispatch (frameBuffer s) chunk of
           (buf, out) \<Rightarrow> (s\<lparr>frameBuffer := buf, rxBytes := count_rx (rxBytes s) out\<rparr>, out))
      else
        (case hdlcReassemble (frameBuffer s @ chunk) (hwmtu s) of
           (buf, reassembled) \<Rightarrow>
             let out = filter (\<lambda>u. CheckFrameLen (int (length u)) (hwmtu s) (ifacSize s)) reassembled
             in (s\<lparr>frameBuffer := buf, rxBytes := count_rx (rxBytes s) out\<rparr>, out)))"

fun tcp_run :: "tcp_rx \<Rightarrow> bytes list \<Rightarrow> tcp_rx \<times> bytes list" where
  "tcp_run s [] = (s, [])"
| "tcp_run s (c # cs) =
     (case tcp_read s c of (s1, out1) \<Rightarrow>
        (case tcp_run s1 cs of (s2, out2) \<Rightarrow> (s2, out1 @ out2)))"

text \<open>The frame \<^verbatim>\<open>TCPClientInterface.Send\<close> writes for one packet.\<close>

definition tcp_frame :: "bool \<Rightarrow> bytes \<Rightarrow> bytes" where
  "tcp_frame kissFr data =
     (if kissFr then [KISSFend, KISSCmdData] @ KISSEscape data @ [KISSFend]
      else [HDLCFlag] @ HDLCEscape data @ [HDLCFlag])"

section \<open>The local client and the serial KISS port\<close>

text \<open>The state of these loops is the kept buffer and the received-bytes counter.\<close>

definition local_read :: "bytes \<times> uint64 \<Rightarrow> bytes \<Rightarrow> (bytes \<times> uint64) \<times> bytes list" where
  "local_read s chunk =
     (if chunk = [] then (s, [])
      else case scan_read HDLCFlag hdlcDispatch (fst s) chunk of
        (buf, out) \<Rightarrow> ((buf, count_rx (snd s) out), out))"

definition kiss_port_read :: "bytes \<times> uint64 \<Rightarrow> bytes \<Rightarrow> (bytes \<times> uint64) \<times> bytes list" where
  "kiss_port_read s chunk =
     (if chunk = [] then (s, [])
      else case scan_read KISSFend kissDispatch (fst s) chunk of
        (buf, out) \<Rightarrow> ((buf, count_rx (snd s) out), out))"

section \<open>The byte-at-a-time machine of the serial and pipe interfaces\<close>

record serial_rx =
  inFrame :: bool
  escape :: bool
  dataBuffer :: bytes
  serial_rxBytes :: uint64

definition serial_init :: serial_rx where
  "serial_init = \<lparr>inFrame = False, escape = False, dataBuffer = [], serial_rxBytes = 0\<rparr>"

definition serial_step :: "nat \<Rightarrow> serial_rx \<Rightarrow> byte \<Rightarrow> serial_rx \<times> bytes list" where
  "serial_step mtu s b =
     (if inFrame s \<and> b = HDLCFlag then
        (let payloads = (if dataBuffer s \<noteq> [] then [dataBuffer s] else [])
         in (s\<lparr>inFrame := False, dataBuffer := [], serial_rxBytes := count_rx (serial_rxBytes s) payloads\<rparr>, payloads))
      else if b = HDLCFlag then
        (s\<lparr>inFrame := True, escape := False, dataBuffer := []\<rparr>, [])
      else if \<not> inFrame s \<or> length (dataBuffer s) \<ge> mtu then (s, [])
      else if b = HDLCEsc then (s\<lparr>escape := True\<rparr>, [])
      else if escape s then
        (s\<lparr>escape := False, dataBuffer := dataBuffer s @ [b XOR HDLCEscMask]\<rparr>, [])
      else (s\<lparr>dataBuffer := dataBuffer s @ [b]\<rparr>, []))"

fun serial_run :: "nat \<Rightarrow> serial_rx \<Rightarrow> bytes \<Rightarrow> serial_rx \<times> bytes list" where
  "serial_run mtu s [] = (s, [])"
| "serial_run mtu s (b # bs) =
     (case serial_step mtu s b of (s1, out1) \<Rightarrow>
        (case serial_run mtu s1 bs of (s2, out2) \<Rightarrow> (s2, out1 @ out2)))"

text \<open>An empty read of the serial loop drops a partly received frame once its timeout has expired.\<close>

definition serial_idle :: "bool \<Rightarrow> serial_rx \<Rightarrow> serial_rx" where
  "serial_idle expired s =
     (if dataBuffer s \<noteq> [] \<and> expired then s\<lparr>dataBuffer := [], inFrame := False, escape := False\<rparr> else s)"

text \<open>The pipe interface runs the same machine, one byte per read, with its own MTU.\<close>

abbreviation (input) SerialHWMTU :: nat where "SerialHWMTU \<equiv> 564"
abbreviation (input) PipeHWMTU :: nat where "PipeHWMTU \<equiv> 1064"

definition pipe_readFrames :: "serial_rx \<Rightarrow> bytes \<Rightarrow> serial_rx \<times> bytes list" where
  "pipe_readFrames s bs = serial_run PipeHWMTU s bs"

section \<open>TCP: counting and the two framings\<close>

lemma count_rx_sum: "count_rx rx out = rx + word_of_nat (sum_list (map length out))"
  unfolding count_rx_def by (induction out arbitrary: rx) (auto simp: algebra_simps)

lemma count_rx_append: "count_rx (count_rx rx a) b = count_rx rx (a @ b)"
  by (simp add: count_rx_def)

lemma frame_scan_pending:
  "partial_ok f st \<Longrightarrow> frame_scan f d (pending f st) = (pending f st, [])"
  by (cases st) (auto simp: frame_scan_deframe)

lemma scan_read_empty:
  "partial_ok f st \<Longrightarrow> scan_read f d (pending f st) [] = (pending f st, [])"
  by (simp add: scan_read_def frame_scan_pending)

lemma tcp_run_kiss:
  assumes "kissFraming s" and "frameBuffer s = pending KISSFend st" and "partial_ok KISSFend st"
  shows "tcp_run s cs =
    (case scan_run KISSFend kissDispatch (frameBuffer s) cs of
       (buf, out) \<Rightarrow> (s\<lparr>frameBuffer := buf, rxBytes := count_rx (rxBytes s) out\<rparr>, out))"
  using assms
proof (induction cs arbitrary: s st)
  case Nil
  then show ?case by (simp add: count_rx_def)
next
  case (Cons c cs)
  obtain st1 fs1 where d1: "deframe KISSFend st c = (st1, fs1)" by force
  have ok: "partial_ok KISSFend st1" by (rule deframe_partial_ok [OF Cons.prems(3) d1])
  have sr: "scan_read KISSFend kissDispatch (frameBuffer s) c =
      (pending KISSFend st1, concat (map kissDispatch fs1))"
    using Cons.prems d1 by (simp add: scan_read_def frame_scan_deframe deframe_pending)
  let ?s1 = "s\<lparr>frameBuffer := pending KISSFend st1,
               rxBytes := count_rx (rxBytes s) (concat (map kissDispatch fs1))\<rparr>"
  have read: "tcp_read s c = (?s1, concat (map kissDispatch fs1))"
  proof (cases "c = []")
    case True
    with d1 Cons.prems show ?thesis by (simp add: tcp_read_def count_rx_def)
  next
    case False
    with sr Cons.prems show ?thesis by (simp add: tcp_read_def)
  qed
  from Cons.IH [of ?s1 st1] ok Cons.prems(1) sr read show ?case
    by (simp add: count_rx_append case_prod_beta)
qed

text \<open>
  In HDLC mode the run is that of the reassembler with the frame-length check applied to what it
  returns, as long as an empty read leaves the kept buffer alone.
\<close>

lemma tcp_run_hdlc:
  assumes "\<not> kissFraming s" and "[] \<notin> set cs"
  shows "tcp_run s cs =
    (case hdlc_run (hwmtu s) (frameBuffer s) cs of
       (buf, frames) \<Rightarrow>
         let out = filter (\<lambda>u. CheckFrameLen (int (length u)) (hwmtu s) (ifacSize s)) frames
         in (s\<lparr>frameBuffer := buf, rxBytes := count_rx (rxBytes s) out\<rparr>, out))"
  using assms
proof (induction cs arbitrary: s)
  case Nil
  then show ?case by (simp add: count_rx_def)
next
  case (Cons c cs)
  obtain buf fs where re: "hdlcReassemble (frameBuffer s @ c) (hwmtu s) = (buf, fs)" by force
  let ?out = "filter (\<lambda>u. CheckFrameLen (int (length u)) (hwmtu s) (ifacSize s)) fs"
  let ?s1 = "s\<lparr>frameBuffer := buf, rxBytes := count_rx (rxBytes s) ?out\<rparr>"
  have "tcp_read s c = (?s1, ?out)" using re Cons.prems by (auto simp: tcp_read_def Let_def)
  with Cons.IH [of ?s1] Cons.prems re show ?case
    by (simp add: Let_def count_rx_append case_prod_beta)
qed

lemma hdlcDispatch_simps [simp]:
  "hdlcDispatch [] = []" "p \<noteq> [] \<Longrightarrow> hdlcDispatch (HDLCEscape p) = [p]"
  by (simp_all add: hdlcDispatch_def HDLCUnescape_HDLCEscape)

lemma hdlc_run_frames:
  assumes stream: "concat cs = concat (map hdlcFrame ps)"
    and ne: "\<And>p. p \<in> set ps \<Longrightarrow> p \<noteq> []"
    and room: "\<And>p. p \<in> set ps \<Longrightarrow> int (length (HDLCEscape p)) + 1 \<le> m * 2"
  shows "snd (hdlc_run m [] cs) = ps"
proof (cases ps)
  case Nil
  with stream have cs: "\<forall>c\<in>set cs. c = []" by simp
  then have "hdlc_run m [] cs = ([], [])"
    by (induction cs) (auto simp: hdlcReassemble.simps)
  with Nil show ?thesis by simp
next
  case (Cons p ps')
  have S: "concat cs = concat (map (\<lambda>p. HDLCFlag # [] @ HDLCEscape p @ [HDLCFlag]) ps)"
    using stream by (simp add: hdlcFrame_def [abs_def])
  have df: "deframe HDLCFlag None (concat cs) =
      (Some [], tl (concat (map (\<lambda>p. [[], [] @ HDLCEscape p]) ps)))"
    unfolding S using Cons by (subst hdlc.deframe_stream) auto
  have m1: "1 \<le> m" using room [of p] ne [of p] Cons by auto
  have small: "\<forall>r\<in>set (tl (concat (map (\<lambda>p. [[], [] @ HDLCEscape p]) ps))). int (length r) + 1 \<le> m * 2"
  proof
    fix r
    assume "r \<in> set (tl (concat (map (\<lambda>p. [[], [] @ HDLCEscape p]) ps)))"
    then have "r = [] \<or> (\<exists>p\<in>set ps. r = HDLCEscape p)"
      using Cons by (auto split: if_splits)
    with room m1 show "int (length r) + 1 \<le> m * 2" by auto
  qed
  have hd: "concat cs = [] \<or> hd (concat cs) = HDLCFlag" using S Cons by simp
  have "hdlc_run m [] cs = scan_run HDLCFlag hdlcDispatch [] cs"
    using hdlc_run_scan [of None cs, OF _ _ df small m1] hd by simp
  moreover have "snd (scan_run HDLCFlag hdlcDispatch [] cs) = ps"
    by (rule hdlc.scan_run_frames [of "[]", OF _ _ _ S]) (auto simp: ne)
  ultimately show ?thesis by simp
qed

section \<open>The serial machine\<close>

lemma serial_run_append:
  "serial_run mtu s (xs @ ys) =
     (case serial_run mtu s xs of (s1, a) \<Rightarrow> (case serial_run mtu s1 ys of (s2, b) \<Rightarrow> (s2, a @ b)))"
  by (induction mtu s xs rule: serial_run.induct) (auto split: prod.splits)

lemma escape_off: "\<not> escape s \<Longrightarrow> s\<lparr>escape := False, dataBuffer := x\<rparr> = s\<lparr>dataBuffer := x\<rparr>"
  by (cases s) simp

lemma serial_run_escaped:
  "inFrame s \<Longrightarrow> \<not> escape s \<Longrightarrow> length (dataBuffer s) \<le> mtu \<Longrightarrow>
     serial_run mtu s (HDLCEscape p) =
       (s\<lparr>dataBuffer := dataBuffer s @ take (mtu - length (dataBuffer s)) p\<rparr>, [])"
proof (induction p arbitrary: s)
  case Nil
  then show ?case by simp
next
  case (Cons b p)
  show ?case
  proof (cases "length (dataBuffer s) = mtu")
    case True
    with Cons show ?thesis by (auto simp: serial_step_def)
  next
    case False
    then obtain k where k: "mtu - length (dataBuffer s) = Suc k"
      using Cons.prems(3) by (metis Suc_diff_Suc le_neq_implies_less)
    let ?s1 = "s\<lparr>dataBuffer := dataBuffer s @ [b]\<rparr>"
    have k': "mtu - length (dataBuffer ?s1) = k" and le: "length (dataBuffer ?s1) \<le> mtu"
      using k by simp_all
    have "serial_run mtu ?s1 (HDLCEscape p) =
        (s\<lparr>dataBuffer := dataBuffer s @ b # take k p\<rparr>, [])"
      using Cons.IH [of ?s1] Cons.prems k' le by simp
    moreover have "HDLCEsc XOR 0x20 = 0x5D" "HDLCFlag XOR 0x20 = 0x5E"
      by simp_all
    ultimately show ?thesis
      using Cons.prems False k
      by (auto simp: serial_step_def escape_off)
  qed
qed

lemma serial_run_frame:
  assumes "\<not> inFrame s" and "0 < mtu" and "p \<noteq> []"
  shows "\<exists>s'. \<not> inFrame s' \<and> serial_run mtu s (hdlcFrame p) = (s', [take mtu p])"
proof -
  let ?s1 = "s\<lparr>inFrame := True, escape := False, dataBuffer := []\<rparr>"
  have "serial_run mtu ?s1 (HDLCEscape p) = (?s1\<lparr>dataBuffer := take mtu p\<rparr>, [])"
    using serial_run_escaped [of ?s1 mtu p] by simp
  with assms show ?thesis
    by (auto simp: hdlcFrame_def serial_run_append serial_step_def Let_def)
qed

lemma serial_run_frames:
  assumes "0 < mtu" and "\<And>p. p \<in> set ps \<Longrightarrow> p \<noteq> []" and "\<not> inFrame s"
  shows "snd (serial_run mtu s (concat (map hdlcFrame ps))) = map (take mtu) ps"
  using assms
proof (induction ps arbitrary: s)
  case Nil
  then show ?case by simp
next
  case (Cons p ps)
  obtain s' where s': "\<not> inFrame s'" and run: "serial_run mtu s (hdlcFrame p) = (s', [take mtu p])"
    using serial_run_frame [of s mtu p] Cons.prems by auto
  from Cons.IH [of s'] Cons.prems s' run show ?case
    by (simp add: serial_run_append case_prod_beta)
qed

section \<open>Properties\<close>

lemma tcp_read_empty [simp]: "tcp_read s [] = (s, [])"
  by (simp add: tcp_read_def)

lemma tcp_run_filter: "tcp_run s (filter (\<lambda>c. c \<noteq> []) cs) = tcp_run s cs"
  by (induction cs arbitrary: s) (auto simp: case_prod_beta)

lemma concat_filter_nonempty: "concat (filter (\<lambda>c. c \<noteq> []) cs) = concat cs"
  by (induction cs) auto

lemma kiss_stream_run:
  assumes "concat cs = concat (map (tcp_frame True) ps)" and "\<And>p. p \<in> set ps \<Longrightarrow> p \<noteq> []"
  shows "snd (scan_run KISSFend kissDispatch [] cs) = ps"
proof (rule kiss.scan_run_frames [of "[KISSCmdData]"])
  show "concat cs = concat (map (\<lambda>p. KISSFend # [KISSCmdData] @ KISSEscape p @ [KISSFend]) ps)"
    using assms(1) by (simp add: tcp_frame_def [abs_def])
qed (auto simp: assms(2))



text \<open>
  The reassembly buffer of an HDLC connection is bounded: whatever a peer sends, what is kept
  between reads never exceeds twice the hardware MTU.
\<close>

theorem tcp_buffer_bounded:
  assumes "\<not> kissFraming s" and "0 \<le> hwmtu s" and "int (length (frameBuffer s)) \<le> hwmtu s * 2"
  shows "int (length (frameBuffer (fst (tcp_run s cs)))) \<le> hwmtu s * 2"
  using assms
proof (induction cs arbitrary: s)
  case Nil
  then show ?case by simp
next
  case (Cons c cs)
  obtain s1 out where r: "tcp_read s c = (s1, out)" by force
  have "\<not> kissFraming s1 \<and> hwmtu s1 = hwmtu s \<and> int (length (frameBuffer s1)) \<le> hwmtu s * 2"
    using r Cons.prems hdlcReassemble_tail_bounded [of "hwmtu s" "frameBuffer s @ c"]
    by (auto simp: tcp_read_def Let_def case_prod_beta split: if_splits)
  with Cons.IH [of s1] Cons.prems r show ?case by (simp add: case_prod_beta)
qed

theorem tcp_buffer_bounded_witness:
  "int (length (frameBuffer (fst (tcp_run \<lparr>kissFraming = False, hwmtu = 3, ifacSize = 0, frameBuffer = [], rxBytes = 0\<rparr>
     [[0x7E, 1, 2], [3, 4, 5, 6, 7]])))) \<le> 6"
  using tcp_buffer_bounded [of "\<lparr>kissFraming = False, hwmtu = 3, ifacSize = 0, frameBuffer = [], rxBytes = 0\<rparr>"
      "[[0x7E, 1, 2], [3, 4, 5, 6, 7]]"] by simp

lemma length_HDLCEscape_flags: "length (HDLCEscape (replicate n HDLCFlag)) = 2 * n"
  by (induction n) auto

text \<open>
  The overflow guard also drops a legitimate frame. A packet of exactly the hardware MTU made of
  flag bytes passes the frame-length check and is delivered when its frame arrives in one read; when
  a read ends just before the closing flag, the guard discards it and it is lost.
\<close>

theorem maximal_frame_lost_when_split:
  assumes "HDLCHeaderMinSize < int n" and "\<not> kissFraming s" and "hwmtu s = int n" and "ifacSize s = 0"
    and "frameBuffer s = []"
  shows "snd (tcp_run s [hdlcFrame (replicate n HDLCFlag)]) = [replicate n HDLCFlag]
    \<and> snd (tcp_run s [HDLCFlag # HDLCEscape (replicate n HDLCFlag), [HDLCFlag]]) = []"
proof
  have n: "0 < n" using assms(1) by simp
  have ck: "CheckFrameLen (int n) (int n) 0" using assms(1) by (simp add: CheckFrameLen_def)
  have "snd (hdlcReassemble (hdlcFrame (replicate n HDLCFlag)) (int n)) =
      snd (scan_run HDLCFlag hdlcDispatch [] [hdlcFrame (replicate n HDLCFlag)])"
    by (simp add: hdlcReassemble_frames scan_read_def case_prod_beta)
  also have "\<dots> = [replicate n HDLCFlag]"
    by (rule hdlc.scan_run_frames [of "[]"]) (use n in \<open>auto simp: hdlcFrame_def\<close>)
  finally show "snd (tcp_run s [hdlcFrame (replicate n HDLCFlag)]) = [replicate n HDLCFlag]"
    using assms ck by (simp add: tcp_read_def case_prod_beta Let_def hdlcFrame_def)
next
  have "index_byte (HDLCEscape (replicate n HDLCFlag)) HDLCFlag = None"
    by (simp add: index_byte_None_iff HDLCEscape_flag_free)
  then have "hdlcReassemble (HDLCFlag # HDLCEscape (replicate n HDLCFlag)) (int n) = ([], [])"
    by (subst hdlcReassemble.simps) (simp add: length_HDLCEscape_flags)
  moreover have "snd (hdlcReassemble [HDLCFlag] (int n)) = []"
    by (subst hdlcReassemble.simps) simp
  ultimately show "snd (tcp_run s [HDLCFlag # HDLCEscape (replicate n HDLCFlag), [HDLCFlag]]) = []"
    using assms by (simp add: tcp_read_def case_prod_beta Let_def)
qed

theorem maximal_frame_lost_when_split_witness:
  "snd (tcp_run \<lparr>kissFraming = False, hwmtu = 20, ifacSize = 0, frameBuffer = [], rxBytes = 0\<rparr>
     [HDLCFlag # HDLCEscape (replicate 20 HDLCFlag), [HDLCFlag]]) = []"
  using maximal_frame_lost_when_split [of 20 "\<lparr>kissFraming = False, hwmtu = 20, ifacSize = 0, frameBuffer = [], rxBytes = 0\<rparr>"]
  by simp

text \<open>
  The byte-at-a-time receiver of the serial and pipe interfaces delivers every framed packet in
  order, cut to the interface MTU; packets within the MTU arrive whole.
\<close>

theorem serial_receives_frames:
  assumes "0 < mtu" and "\<And>p. p \<in> set ps \<Longrightarrow> p \<noteq> []"
  shows "snd (serial_run mtu serial_init (concat (map hdlcFrame ps))) = map (take mtu) ps
    \<and> snd (pipe_readFrames serial_init (concat (map hdlcFrame ps))) = map (take PipeHWMTU) ps"
  using serial_run_frames [of mtu ps serial_init] serial_run_frames [of PipeHWMTU ps serial_init] assms
  by (simp add: serial_init_def pipe_readFrames_def)

theorem serial_receives_frames_witness:
  "snd (serial_run 3 serial_init (concat (map hdlcFrame [[0x7E, 1], [1, 2, 3, 4]]))) = [[0x7E, 1], [1, 2, 3]]"
  using serial_receives_frames [of 3 "[[0x7E, 1], [1, 2, 3, 4]]"] by (force simp: numeral_eq_Suc)

text \<open>
  C27: \<^verbatim>\<open>HDLCUnescape\<close> is the two sequential replacements of the reference implementation, first
  \<open>7D 5E\<close> by \<open>7E\<close>, then \<open>7D 5D\<close> by \<open>7D\<close>, on every byte sequence, malformed ones included.
\<close>

theorem hdlc_unescape_is_two_replacements:
  "HDLCUnescape data = py_replace2 HDLCEsc 0x5D HDLCEsc (py_replace2 HDLCEsc 0x5E HDLCFlag data)"
  by (simp add: HDLCUnescape_replace)

end
