(* ===== verification/Ax25.thy ===== *)
theory Ax25
  imports StreamIfaces
begin

text \<open>
  The AX.25 KISS interface (\<^verbatim>\<open>rns/interfaces/ax25-kiss-unix.go\<close>): the AX.25 UI header, the
  flow-controlled transmit queue, the dispatch of received frames and the configuration of the
  TNC. The serial port is the environment: a write returns what the operating system reports
  (an error, or the number of bytes written) and the clock is a number.
\<close>

section \<open>Encoding\<close>

abbreviation (input) AX25KISSHeaderSize :: nat where "AX25KISSHeaderSize \<equiv> 16"
abbreviation (input) ax25KISSFlowControlTimeout :: nat where "ax25KISSFlowControlTimeout \<equiv> 5"

definition ax25_call :: "bytes \<Rightarrow> bytes" where
  "ax25_call call = map (\<lambda>i. if i < length call then push_bit 1 (call ! i) else 0x20) [0..<6]"

definition encodeAX25 :: "bytes \<Rightarrow> int \<Rightarrow> bytes \<Rightarrow> int \<Rightarrow> bytes \<Rightarrow> bytes" where
  "encodeAX25 dstCall dstSSID srcCall srcSSID payload =
     ax25_call dstCall @ [word_of_int (0x60 OR push_bit 1 dstSSID)]
     @ ax25_call srcCall @ [word_of_int ((0x60 OR push_bit 1 srcSSID) OR 0x01)]
     @ [0x03, 0xF0] @ payload"

definition clampByte :: "int \<Rightarrow> byte" where
  "clampByte v = (if v < 0 then 0 else if v > 255 then 255 else word_of_int v)"

text \<open>Go's division truncates; it is applied to a non-negative number.\<close>

definition toTenthsClamped :: "int \<Rightarrow> byte" where
  "toTenthsClamped ms = (let ms = (if ms < 0 then 0 else ms) in clampByte (ms div 10))"

section \<open>The interface\<close>

datatype ax25_error = AxNotRunning | AxNoPort | AxWrite | AxShortWrite nat nat

datatype write_result = WriteErr | Written nat

record ax25 =
  ax_running :: bool
  ax_file :: bool
  ax_srcCall :: bytes
  ax_srcSSID :: int
  ax_dstCall :: bytes
  ax_dstSSID :: int
  ax_flowControl :: bool
  ax_interfaceReady :: bool
  ax_flowControlUntil :: "nat option"
  ax_packetQueue :: "bytes list"
  ax_txBytes :: uint64
  ax_rxBytes :: uint64

definition ax25_frame :: "ax25 \<Rightarrow> bytes \<Rightarrow> bytes" where
  "ax25_frame s payload =
     [KISSFend, KISSCmdData]
     @ KISSEscape (encodeAX25 (ax_dstCall s) (ax_dstSSID s) (ax_srcCall s) (ax_srcSSID s) payload)
     @ [KISSFend]"

text \<open>
  The result of a transmission is the new state, the frames offered to the port in order, and
  the error returned, if any. The write outcome \<open>wr\<close> is a function of the frame.
\<close>

definition sendAX25Payload ::
  "(bytes \<Rightarrow> write_result) \<Rightarrow> bytes \<Rightarrow> ax25 \<Rightarrow> ax25 \<times> bytes list \<times> ax25_error option" where
  "sendAX25Payload wr payload s =
     (let frame = ax25_frame s payload in
      if \<not> ax_file s then (s, [], Some AxNoPort)
      else case wr frame of
        WriteErr \<Rightarrow> (s, [frame], Some AxWrite)
      | Written n \<Rightarrow>
          if n \<noteq> length frame then
            ((if ax_flowControl s then s\<lparr>ax_interfaceReady := True\<rparr> else s),
             [frame], Some (AxShortWrite n (length frame)))
          else (s\<lparr>ax_txBytes := ax_txBytes s + word_of_nat (length payload)\<rparr>, [frame], None))"

definition ax25_Send ::
  "(bytes \<Rightarrow> write_result) \<Rightarrow> nat \<Rightarrow> bytes \<Rightarrow> ax25 \<Rightarrow> ax25 \<times> bytes list \<times> ax25_error option" where
  "ax25_Send wr now data s =
     (if \<not> ax_running s then (s, [], Some AxNotRunning)
      else if ax_flowControl s \<and> \<not> ax_interfaceReady s then
        (s\<lparr>ax_packetQueue := ax_packetQueue s @ [data]\<rparr>, [], None)
      else
        sendAX25Payload wr data
          (if ax_flowControl s
           then s\<lparr>ax_interfaceReady := False,
                  ax_flowControlUntil := Some (now + ax25KISSFlowControlTimeout)\<rparr>
           else s))"

text \<open>A failure of the dequeued packet's transmission is only logged.\<close>

definition processQueue :: "(bytes \<Rightarrow> write_result) \<Rightarrow> nat \<Rightarrow> ax25 \<Rightarrow> ax25 \<times> bytes list" where
  "processQueue wr now s =
     (case ax_packetQueue s of
        [] \<Rightarrow> (s\<lparr>ax_interfaceReady := True\<rparr>, [])
      | next_pkt # rest \<Rightarrow>
          (case ax25_Send wr now next_pkt (s\<lparr>ax_packetQueue := rest, ax_interfaceReady := True\<rparr>) of
             (s', sent, err) \<Rightarrow> (s', sent)))"

text \<open>The check at the head of each iteration of the read loop.\<close>

definition ax25_flow_timeout :: "nat \<Rightarrow> ax25 \<Rightarrow> ax25" where
  "ax25_flow_timeout now s =
     (if ax_flowControl s \<and> \<not> ax_interfaceReady s
         \<and> (case ax_flowControlUntil s of None \<Rightarrow> False | Some t \<Rightarrow> now > t)
      then s\<lparr>ax_interfaceReady := True\<rparr> else s)"

text \<open>One received frame: new state, payloads for the inbound handler, frames transmitted.\<close>

definition ax25_dispatch ::
  "(bytes \<Rightarrow> write_result) \<Rightarrow> nat \<Rightarrow> bytes \<Rightarrow> ax25 \<Rightarrow> ax25 \<times> bytes list \<times> bytes list" where
  "ax25_dispatch wr now frame s =
     (case frame of
        [] \<Rightarrow> (s, [], [])
      | c # rest \<Rightarrow>
          let command = c AND 0x0F in
          if command = KISSCmdData then
            (let payload = KISSUnescape rest in
             if length payload > AX25KISSHeaderSize then
               (let userPayload = drop AX25KISSHeaderSize payload in
                (s\<lparr>ax_rxBytes := ax_rxBytes s + word_of_nat (length userPayload)\<rparr>, [userPayload], []))
             else (s, [], []))
          else if command = 0x0F then
            (case processQueue wr now s of (s', sent) \<Rightarrow> (s', [], sent))
          else (s, [], []))"

text \<open>
  The frames of one read, handled in order; \<open>buf\<close> is the kept buffer. The third component is what
  the inbound handler gets.
\<close>

fun ax25_handle ::
  "(bytes \<Rightarrow> write_result) \<Rightarrow> nat \<Rightarrow> bytes list \<Rightarrow> ax25 \<Rightarrow> ax25 \<times> bytes list" where
  "ax25_handle wr now [] s = (s, [])"
| "ax25_handle wr now (f # fs) s =
     (case ax25_dispatch wr now f s of (s1, out1, sent) \<Rightarrow>
        (case ax25_handle wr now fs s1 of (s2, out2) \<Rightarrow> (s2, out1 @ out2)))"

definition ax25_read ::
  "(bytes \<Rightarrow> write_result) \<Rightarrow> nat \<Rightarrow> bytes \<Rightarrow> ax25 \<Rightarrow> bytes \<Rightarrow> ax25 \<times> bytes \<times> bytes list" where
  "ax25_read wr now chunk s buf =
     (if chunk = [] then (s, buf, [])
      else
        (case scan_read KISSFend (\<lambda>f. [f]) buf chunk of
           (buf', frames) \<Rightarrow> (case ax25_handle wr now frames s of (s', out) \<Rightarrow> (s', buf', out))))"

section \<open>Configuration of the TNC\<close>

abbreviation (input) writeKISSParam :: "byte \<Rightarrow> byte \<Rightarrow> bytes" where
  "writeKISSParam command param \<equiv> [KISSFend, command, param, KISSFend]"

definition configureDevice :: "int \<Rightarrow> int \<Rightarrow> int \<Rightarrow> int \<Rightarrow> bytes list" where
  "configureDevice preambleMS txTailMS persistence slotTimeMS =
     [writeKISSParam 0x01 (toTenthsClamped preambleMS),
      writeKISSParam 0x04 (toTenthsClamped txTailMS),
      writeKISSParam 0x02 (clampByte persistence),
      writeKISSParam 0x03 (toTenthsClamped slotTimeMS),
      writeKISSParam 0x0F 0x01]"

section \<open>Header and payload\<close>

lemma length_ax25_call [simp]: "length (ax25_call c) = 6"
  by (simp add: ax25_call_def)

lemma length_encodeAX25: "length (encodeAX25 d ds c cs p) = AX25KISSHeaderSize + length p"
  by (simp add: encodeAX25_def)

lemma drop_encodeAX25: "drop AX25KISSHeaderSize (encodeAX25 d ds c cs p) = p"
  by (simp add: encodeAX25_def)

lemma ax25_dispatch_data:
  assumes "p \<noteq> []"
  shows "ax25_dispatch wr now (KISSCmdData # KISSEscape (encodeAX25 d ds c cs p)) s
    = (s\<lparr>ax_rxBytes := ax_rxBytes s + word_of_nat (length p)\<rparr>, [p], [])"
  using assms
  by (simp add: ax25_dispatch_def KISSUnescape_KISSEscape length_encodeAX25 drop_encodeAX25)

lemma toTenthsClamped_bound: "int (unat (toTenthsClamped ms)) = min 255 (max 0 ms div 10)"
proof (cases "max 0 ms div 10 > 255")
  case True
  then show ?thesis by (auto simp: toTenthsClamped_def clampByte_def Let_def max_def)
next
  case False
  then have "0 \<le> max 0 ms div 10" "max 0 ms div 10 < 256" by auto
  then show ?thesis
    by (auto simp: toTenthsClamped_def clampByte_def Let_def max_def unsigned_of_int take_bit_eq_mod
        split: if_splits)
qed

section \<open>The transmit queue is first in, first out\<close>

text \<open>
  The environment's events: a packet is sent, the TNC reports that it is ready. The trace
  predicate follows the packets accepted by \<open>ax25_Send\<close> and the frames put on the wire.
\<close>

datatype ax25_event = EvSend bytes | EvReady

fun ax25_event_step ::
  "(bytes \<Rightarrow> write_result) \<Rightarrow> nat \<Rightarrow> ax25_event \<Rightarrow> ax25 \<Rightarrow> ax25 \<times> bytes list" where
  "ax25_event_step wr now (EvSend p) s = (case ax25_Send wr now p s of (s', sent, err) \<Rightarrow> (s', sent))"
| "ax25_event_step wr now EvReady s = processQueue wr now s"

fun ax25_events ::
  "(bytes \<Rightarrow> write_result) \<Rightarrow> (nat \<times> ax25_event) list \<Rightarrow> ax25 \<Rightarrow> ax25 \<times> bytes list" where
  "ax25_events wr [] s = (s, [])"
| "ax25_events wr ((now, e) # es) s =
     (case ax25_event_step wr now e s of (s1, sent1) \<Rightarrow>
        (case ax25_events wr es s1 of (s2, sent2) \<Rightarrow> (s2, sent1 @ sent2)))"

fun offered :: "(nat \<times> ax25_event) list \<Rightarrow> bytes list" where
  "offered [] = []"
| "offered ((now, EvSend p) # es) = p # offered es"
| "offered ((now, EvReady) # es) = offered es"

definition ax25_queue_ok :: "ax25 \<Rightarrow> bool" where
  "ax25_queue_ok s \<longleftrightarrow> ax_running s \<and> ax_file s \<and> (ax_interfaceReady s \<longrightarrow> ax_packetQueue s = [])
     \<and> (\<not> ax_flowControl s \<longrightarrow> ax_packetQueue s = [])"

text \<open>The frame of a packet depends on the addresses only.\<close>

definition same_addr :: "ax25 \<Rightarrow> ax25 \<Rightarrow> bool" where
  "same_addr s s' \<longleftrightarrow> ax_srcCall s' = ax_srcCall s \<and> ax_srcSSID s' = ax_srcSSID s
     \<and> ax_dstCall s' = ax_dstCall s \<and> ax_dstSSID s' = ax_dstSSID s"

lemma same_addr_frame: "same_addr s s' \<Longrightarrow> ax25_frame s' = ax25_frame s"
  by (rule ext) (simp add: same_addr_def ax25_frame_def)

lemma same_addr_trans: "same_addr a b \<Longrightarrow> same_addr b c \<Longrightarrow> same_addr a c"
  by (simp add: same_addr_def)

lemma ax25_event_step_fifo:
  assumes "ax25_queue_ok s" and "\<And>f. wr f = Written (length f)"
    and "ax25_event_step wr now e s = (s', sent)"
  shows "ax25_queue_ok s' \<and> same_addr s s' \<and>
    sent @ map (ax25_frame s) (ax_packetQueue s') =
    map (ax25_frame s) (ax_packetQueue s @ offered [(now, e)])"
  using assms
  by (cases e; cases "ax_packetQueue s")
    (auto simp: ax25_Send_def sendAX25Payload_def processQueue_def ax25_queue_ok_def same_addr_def
       ax25_frame_def Let_def split: if_splits)

lemma offered_Cons: "offered (e # es) = offered [e] @ offered es"
  by (cases e; cases "snd e") auto

lemma ax25_events_fifo:
  assumes "ax25_queue_ok s" and wr: "\<And>f. wr f = Written (length f)"
    and "ax25_events wr es s = (s', sent)"
  shows "ax25_queue_ok s' \<and> same_addr s s' \<and>
    sent @ map (ax25_frame s) (ax_packetQueue s') = map (ax25_frame s) (ax_packetQueue s @ offered es)"
  using assms(1,3)
proof (induction es arbitrary: s s' sent)
  case Nil
  then show ?case by (simp add: same_addr_def)
next
  case (Cons ev es)
  obtain now e where ev: "ev = (now, e)" by force
  obtain s1 sent1 where step: "ax25_event_step wr now e s = (s1, sent1)" by force
  obtain s2 sent2 where run: "ax25_events wr es s1 = (s2, sent2)" by force
  note one = ax25_event_step_fifo [OF Cons.prems(1) wr step]
  note rest = Cons.IH [OF conjunct1 [OF one] run]
  have eqs: "s' = s2" "sent = sent1 @ sent2" using Cons.prems(2) ev step run by auto
  have fr: "ax25_frame s1 = ax25_frame s" using one same_addr_frame by blast
  have "sent1 @ (sent2 @ map (ax25_frame s) (ax_packetQueue s2)) =
      (sent1 @ map (ax25_frame s) (ax_packetQueue s1)) @ map (ax25_frame s) (offered es)"
    using rest fr by simp
  also have "\<dots> = map (ax25_frame s) (ax_packetQueue s @ offered (ev # es))"
    using one by (subst offered_Cons) (simp add: ev)
  finally show ?case using one rest eqs same_addr_trans by auto
qed

section \<open>Properties\<close>

text \<open>The frames a peer writes, as the scan cuts them out: an empty one between two packets.\<close>

lemma ax25_handle_frames:
  assumes "\<And>p. p \<in> set ps \<Longrightarrow> p \<noteq> []"
  shows "ax25_handle wr now (concat (map (\<lambda>p. [[], KISSCmdData # KISSEscape (encodeAX25 d ds c cs p)]) ps)) s
    = (s\<lparr>ax_rxBytes := ax_rxBytes s + word_of_nat (sum_list (map length ps))\<rparr>, ps)"
  using assms
proof (induction ps arbitrary: s)
  case (Cons p ps)
  have "ax25_dispatch wr now [] s = (s, [], [])" by (simp add: ax25_dispatch_def)
  with Cons ax25_dispatch_data [of p wr now d ds c cs s] show ?case by (simp add: algebra_simps)
qed simp

lemma ax25_handle_drop_first: "ax25_handle wr now ([] # fs) s = ax25_handle wr now fs s"
  by (simp add: ax25_dispatch_def)

text \<open>
  What one AX.25 station sends, another receives: the bytes written for a sequence of packets,
  read at once, give the inbound handler those packets in order, with the sixteen-byte header
  removed, whatever the two stations' call signs are.
\<close>

theorem ax25_transmission_received:
  assumes "\<And>p. p \<in> set ps \<Longrightarrow> p \<noteq> []" and "ps \<noteq> []"
  shows "case ax25_read wr now (concat (map (ax25_frame sender) ps)) receiver [] of
    (receiver', buf, out) \<Rightarrow> out = ps
      \<and> receiver' = receiver\<lparr>ax_rxBytes := ax_rxBytes receiver + word_of_nat (sum_list (map length ps))\<rparr>"
proof -
  let ?e = "encodeAX25 (ax_dstCall sender) (ax_dstSSID sender) (ax_srcCall sender) (ax_srcSSID sender)"
  have S: "concat (map (ax25_frame sender) ps) =
      concat (map (\<lambda>p. KISSFend # [KISSCmdData] @ KISSEscape p @ [KISSFend]) (map ?e ps))"
    by (simp add: ax25_frame_def [abs_def] comp_def)
  have ne: "concat (map (ax25_frame sender) ps) \<noteq> []" using assms(2) by (cases ps) (auto simp: ax25_frame_def)
  have "deframe KISSFend None (concat (map (ax25_frame sender) ps)) =
      (Some [], tl (concat (map (\<lambda>p. [[], [KISSCmdData] @ KISSEscape p]) (map ?e ps))))"
    unfolding S using assms(2) by (subst kiss.deframe_stream) auto
  then have "snd (scan_read KISSFend (\<lambda>f. [f]) [] (concat (map (ax25_frame sender) ps))) =
      tl (concat (map (\<lambda>p. [[], KISSCmdData # KISSEscape (?e p)]) ps))"
    by (simp add: scan_read_def frame_scan_deframe comp_def)
  moreover have "[] # tl (concat (map (\<lambda>p. [[], KISSCmdData # KISSEscape (?e p)]) ps)) =
      concat (map (\<lambda>p. [[], KISSCmdData # KISSEscape (?e p)]) ps)"
    using assms(2) by (cases ps) auto
  ultimately have "ax25_handle wr now (snd (scan_read KISSFend (\<lambda>f. [f]) [] (concat (map (ax25_frame sender) ps)))) receiver
      = (receiver\<lparr>ax_rxBytes := ax_rxBytes receiver + word_of_nat (sum_list (map length ps))\<rparr>, ps)"
    using ax25_handle_frames [OF assms(1), where ps = ps] ax25_handle_drop_first by metis
  then show ?thesis using ne by (auto simp: ax25_read_def case_prod_beta)
qed

definition demo_ax25 :: ax25 where
  "demo_ax25 = \<lparr>ax_running = True, ax_file = True, ax_srcCall = [0x4E, 0x30, 0x43], ax_srcSSID = 1,
     ax_dstCall = [0x41, 0x50, 0x5A, 0x52, 0x4E, 0x53], ax_dstSSID = 0, ax_flowControl = True,
     ax_interfaceReady = True, ax_flowControlUntil = None, ax_packetQueue = [], ax_txBytes = 0, ax_rxBytes = 0\<rparr>"

theorem ax25_transmission_received_witness:
  "snd (snd (ax25_read (\<lambda>f. Written (length f)) 0 (concat (map (ax25_frame demo_ax25) [[1, 0xC0], [0xDB]])) demo_ax25 []))
     = [[1, 0xC0], [0xDB]]"
  using ax25_transmission_received [where ps = "[[1, 0xC0], [0xDB]]" and wr = "\<lambda>f. Written (length f)"
      and now = 0 and sender = demo_ax25 and receiver = demo_ax25]
  by (auto simp: case_prod_beta)

text \<open>
  With flow control, and as long as the port accepts every write, packets leave in the order
  they were sent: what has been written and what still waits in the queue is, in order, what was
  queued before plus what was offered, and a station that is ready has nothing waiting.
\<close>

theorem ax25_queue_is_fifo:
  assumes "ax25_queue_ok s" and "ax25_events (\<lambda>f. Written (length f)) es s = (s', sent)"
  shows "sent @ map (ax25_frame s) (ax_packetQueue s') = map (ax25_frame s) (ax_packetQueue s @ offered es)
    \<and> (ax_interfaceReady s' \<longrightarrow> ax_packetQueue s' = [])"
  using ax25_events_fifo [OF assms(1) _ assms(2)] by (simp add: ax25_queue_ok_def)

theorem ax25_queue_is_fifo_witness:
  "fst (ax25_events (\<lambda>f. Written (length f)) [(0, EvSend [1]), (1, EvSend [2])] demo_ax25) =
     demo_ax25\<lparr>ax_interfaceReady := False, ax_flowControlUntil := Some 5, ax_packetQueue := [[2]], ax_txBytes := 1\<rparr>
   \<and> snd (ax25_events (\<lambda>f. Written (length f)) [(0, EvSend [1]), (1, EvSend [2])] demo_ax25) @ [ax25_frame demo_ax25 [2]]
     = map (ax25_frame demo_ax25) [[1], [2]]"
proof -
  let ?r = "ax25_events (\<lambda>f. Written (length f)) [(0, EvSend [1]), (1, EvSend [2])] demo_ax25"
  have q: "fst ?r = demo_ax25\<lparr>ax_interfaceReady := False, ax_flowControlUntil := Some 5, ax_packetQueue := [[2]], ax_txBytes := 1\<rparr>"
    by (simp add: ax25_Send_def sendAX25Payload_def demo_ax25_def Let_def
        ax25_frame_def)
  have "ax25_queue_ok demo_ax25" by (simp add: ax25_queue_ok_def demo_ax25_def)
  from ax25_queue_is_fifo [OF this, of "[(0, EvSend [1]), (1, EvSend [2])]" "fst ?r" "snd ?r"] q
  show ?thesis by (simp add: demo_ax25_def)
qed

text \<open>
  The flow-control timeout breaks that order. It marks the station ready without sending what
  waits, so the next packet offered is transmitted at once and the older ones stay in the queue.
\<close>

theorem ax25_timeout_reorders:
  assumes "ax_running s" "ax_file s" "ax_flowControl s" "\<not> ax_interfaceReady s"
    and "ax_flowControlUntil s = Some t" "t < now" and "ax_packetQueue s = waiting"
  shows "case ax25_Send (\<lambda>f. Written (length f)) now p (ax25_flow_timeout now s) of
    (s', sent, err) \<Rightarrow> sent = [ax25_frame s p] \<and> ax_packetQueue s' = waiting \<and> err = None"
  using assms
  by (simp add: ax25_flow_timeout_def ax25_Send_def sendAX25Payload_def Let_def ax25_frame_def)

theorem ax25_timeout_reorders_witness:
  "fst (snd (ax25_Send (\<lambda>f. Written (length f)) 9 [3]
     (ax25_flow_timeout 9 (demo_ax25\<lparr>ax_interfaceReady := False, ax_flowControlUntil := Some 5, ax_packetQueue := [[2]]\<rparr>))))
   = [ax25_frame demo_ax25 [3]]"
  using ax25_timeout_reorders [of
      "demo_ax25\<lparr>ax_interfaceReady := False, ax_flowControlUntil := Some 5, ax_packetQueue := [[2]]\<rparr>" 5 9 "[[2]]" "[3]"]
  by (simp add: demo_ax25_def case_prod_beta ax25_frame_def)

text \<open>
  A TNC parameter reaches the TNC as one command frame exactly when its value is not the frame
  delimiter: the code does not escape it, so the value \<open>0xC0\<close> (a persistence of 192, a preamble of
  1920 ms) arrives as a command without a value.
\<close>

theorem kiss_parameter_frame:
  assumes "command \<noteq> KISSFend"
  shows "(deframe KISSFend (Some []) (writeKISSParam command param) = (Some [], [[], [command, param]]))
    \<longleftrightarrow> param \<noteq> KISSFend"
  using assms by simp

theorem kiss_parameter_frame_witness:
  "clampByte 192 = KISSFend
   \<and> deframe KISSFend (Some []) (writeKISSParam 0x02 (clampByte 192)) \<noteq> (Some [], [[], [0x02, clampByte 192]])"
proof -
  have c: "clampByte 192 = KISSFend" by (simp add: clampByte_def KISSFend_def)
  have "(0x02 :: byte) \<noteq> KISSFend" by (simp add: KISSFend_def)
  from kiss_parameter_frame [OF this, of "clampByte 192"] c show ?thesis by simp
qed

end
