(* ===== verification/Sha256.thy ===== *)
theory Sha256
  imports Prelude
begin

text \<open>
  The hash functions of the standard library that the program uses: SHA-256 (FIPS 180-4) and
  HMAC-SHA-256 (RFC 2104), behind \<^verbatim>\<open>rns/crypto/hashes.go\<close> and \<^verbatim>\<open>hmac.go\<close>. The definitions
  compute; the other components use them concretely, and rely on their output length only.
\<close>

section \<open>SHA-256\<close>

definition sha256_K :: "uint32 list" where
  "sha256_K = [
    0x428A2F98, 0x71374491, 0xB5C0FBCF, 0xE9B5DBA5, 0x3956C25B, 0x59F111F1, 0x923F82A4, 0xAB1C5ED5,
    0xD807AA98, 0x12835B01, 0x243185BE, 0x550C7DC3, 0x72BE5D74, 0x80DEB1FE, 0x9BDC06A7, 0xC19BF174,
    0xE49B69C1, 0xEFBE4786, 0x0FC19DC6, 0x240CA1CC, 0x2DE92C6F, 0x4A7484AA, 0x5CB0A9DC, 0x76F988DA,
    0x983E5152, 0xA831C66D, 0xB00327C8, 0xBF597FC7, 0xC6E00BF3, 0xD5A79147, 0x06CA6351, 0x14292967,
    0x27B70A85, 0x2E1B2138, 0x4D2C6DFC, 0x53380D13, 0x650A7354, 0x766A0ABB, 0x81C2C92E, 0x92722C85,
    0xA2BFE8A1, 0xA81A664B, 0xC24B8B70, 0xC76C51A3, 0xD192E819, 0xD6990624, 0xF40E3585, 0x106AA070,
    0x19A4C116, 0x1E376C08, 0x2748774C, 0x34B0BCB5, 0x391C0CB3, 0x4ED8AA4A, 0x5B9CCA4F, 0x682E6FF3,
    0x748F82EE, 0x78A5636F, 0x84C87814, 0x8CC70208, 0x90BEFFFA, 0xA4506CEB, 0xBEF9A3F7, 0xC67178F2]"

definition sha256_H0 :: "uint32 list" where
  "sha256_H0 = [
    0x6A09E667, 0xBB67AE85, 0x3C6EF372, 0xA54FF53A, 0x510E527F, 0x9B05688C, 0x1F83D9AB, 0x5BE0CD19]"

definition rotr :: "nat \<Rightarrow> uint32 \<Rightarrow> uint32" where
  "rotr n x = drop_bit n x OR push_bit (32 - n) x"

definition sha256_pad :: "bytes \<Rightarrow> bytes" where
  "sha256_pad msg =
     msg @ [0x80] @ replicate ((119 - length msg mod 64) mod 64) 0 @ be_enc 8 (8 * length msg)"

fun be_words :: "bytes \<Rightarrow> uint32 list" where
  "be_words (a # b # c # d # rest) =
     (push_bit 24 (ucast a) OR push_bit 16 (ucast b) OR push_bit 8 (ucast c) OR ucast d) # be_words rest"
| "be_words _ = []"

text \<open>The message schedule, latest word first: \<open>W!0\<close> is \<open>w(t-1)\<close>, \<open>W!15\<close> is \<open>w(t-16)\<close>.\<close>

fun sha256_extend :: "nat \<Rightarrow> uint32 list \<Rightarrow> uint32 list" where
  "sha256_extend 0 W = W"
| "sha256_extend (Suc n) W =
     (let w15 = W ! 14; w2 = W ! 1;
          s0 = rotr 7 w15 XOR rotr 18 w15 XOR drop_bit 3 w15;
          s1 = rotr 17 w2 XOR rotr 19 w2 XOR drop_bit 10 w2
      in sha256_extend n ((W ! 15 + s0 + W ! 6 + s1) # W))"

fun sha256_round :: "uint32 \<times> uint32 \<Rightarrow> uint32 list \<Rightarrow> uint32 list" where
  "sha256_round (k, w) [a, b, c, d, e, f, g, h] =
     (let S1 = rotr 6 e XOR rotr 11 e XOR rotr 25 e;
          ch = (e AND f) XOR (NOT e AND g);
          t1 = h + S1 + ch + k + w;
          S0 = rotr 2 a XOR rotr 13 a XOR rotr 22 a;
          maj = (a AND b) XOR (a AND c) XOR (b AND c)
      in [t1 + (S0 + maj), a, b, c, d + t1, e, f, g])"
| "sha256_round _ s = s"

definition sha256_block :: "uint32 list \<Rightarrow> bytes \<Rightarrow> uint32 list" where
  "sha256_block H blk =
     (let W = rev (sha256_extend 48 (rev (be_words blk)))
      in map2 (+) H (fold sha256_round (zip sha256_K W) H))"

fun sha256_blocks :: "nat \<Rightarrow> uint32 list \<Rightarrow> bytes \<Rightarrow> uint32 list" where
  "sha256_blocks 0 H bs = H"
| "sha256_blocks (Suc n) H bs = sha256_blocks n (sha256_block H (take 64 bs)) (drop 64 bs)"

definition word_bytes :: "uint32 \<Rightarrow> bytes" where
  "word_bytes w = [ucast (drop_bit 24 w), ucast (drop_bit 16 w), ucast (drop_bit 8 w), ucast w]"

definition sha256 :: "bytes \<Rightarrow> bytes" where
  "sha256 msg =
     (let p = sha256_pad msg
      in concat (map word_bytes (sha256_blocks (length p div 64) sha256_H0 p)))"

section \<open>HMAC\<close>

definition hmac_block_key :: "bytes \<Rightarrow> bytes" where
  "hmac_block_key key =
     (let k = (if length key > 64 then sha256 key else key) in k @ replicate (64 - length k) 0)"

definition HMAC :: "bytes \<Rightarrow> bytes \<Rightarrow> bytes" where
  "HMAC key data =
     (let k = hmac_block_key key
      in sha256 (map (\<lambda>b. b XOR 0x5C) k @ sha256 (map (\<lambda>b. b XOR 0x36) k @ data)))"

section \<open>Lengths\<close>

lemma length_sha256_round [simp]: "length (sha256_round kw s) = length s"
  by (cases "(kw, s)" rule: sha256_round.cases) (auto simp: Let_def)

lemma length_fold_sha256_round [simp]: "length (fold sha256_round kws s) = length s"
  by (induction kws arbitrary: s) simp_all

lemma length_sha256_block [simp]: "length (sha256_block H blk) = length H"
  by (simp add: sha256_block_def Let_def)

lemma length_sha256_blocks [simp]: "length (sha256_blocks n H bs) = length H"
  by (induction n arbitrary: H bs) simp_all

lemma length_concat_word_bytes: "length (concat (map word_bytes ws)) = 4 * length ws"
  by (induction ws) (simp_all add: word_bytes_def)

lemma length_sha256 [simp]: "length (sha256 msg) = 32"
  by (simp add: sha256_def Let_def length_concat_word_bytes sha256_H0_def)

lemma length_HMAC [simp]: "length (HMAC key data) = 32"
  by (simp add: HMAC_def Let_def)

text \<open>The padded message is a whole number of 64-byte blocks, and no bit of the input is lost.\<close>

lemma sha256_pad_aligned: "length (sha256_pad msg) mod 64 = 0"
proof -
  let ?r = "length msg mod 64"
  have shift: "(64 * q + r) + 9 + (119 - r) = 64 * (q + 2)" if "r < 64" for q r :: nat
    using that by simp
  have "length msg + 9 + (119 - ?r) = 64 * (length msg div 64 + 2)"
    using shift [of ?r "length msg div 64"] by simp
  then have "(length msg + 9 + (119 - ?r) mod 64) mod 64 = 0"
    by (metis mod_add_right_eq mod_mult_self1_is_0)
  then show ?thesis by (simp add: sha256_pad_def length_be_enc ac_simps)
qed

end
