(* ===== verification/Aes.thy ===== *)
theory Aes
  imports Prelude
begin

text \<open>
  The block cipher and mode of the standard library behind \<^verbatim>\<open>rns/crypto/aes.go\<close>: AES-128 and
  AES-256 (FIPS 197) and cipher block chaining. A block is a list of 16 bytes in the column
  order of the standard. The chaining mode is developed over the interface \<open>block_cipher\<close>,
  which AES with any key implements.
\<close>

section \<open>The cipher\<close>

definition aes_sbox :: "bytes list" where
  "aes_sbox = [
    [0x63, 0x7C, 0x77, 0x7B, 0xF2, 0x6B, 0x6F, 0xC5, 0x30, 0x01, 0x67, 0x2B, 0xFE, 0xD7, 0xAB, 0x76],
    [0xCA, 0x82, 0xC9, 0x7D, 0xFA, 0x59, 0x47, 0xF0, 0xAD, 0xD4, 0xA2, 0xAF, 0x9C, 0xA4, 0x72, 0xC0],
    [0xB7, 0xFD, 0x93, 0x26, 0x36, 0x3F, 0xF7, 0xCC, 0x34, 0xA5, 0xE5, 0xF1, 0x71, 0xD8, 0x31, 0x15],
    [0x04, 0xC7, 0x23, 0xC3, 0x18, 0x96, 0x05, 0x9A, 0x07, 0x12, 0x80, 0xE2, 0xEB, 0x27, 0xB2, 0x75],
    [0x09, 0x83, 0x2C, 0x1A, 0x1B, 0x6E, 0x5A, 0xA0, 0x52, 0x3B, 0xD6, 0xB3, 0x29, 0xE3, 0x2F, 0x84],
    [0x53, 0xD1, 0x00, 0xED, 0x20, 0xFC, 0xB1, 0x5B, 0x6A, 0xCB, 0xBE, 0x39, 0x4A, 0x4C, 0x58, 0xCF],
    [0xD0, 0xEF, 0xAA, 0xFB, 0x43, 0x4D, 0x33, 0x85, 0x45, 0xF9, 0x02, 0x7F, 0x50, 0x3C, 0x9F, 0xA8],
    [0x51, 0xA3, 0x40, 0x8F, 0x92, 0x9D, 0x38, 0xF5, 0xBC, 0xB6, 0xDA, 0x21, 0x10, 0xFF, 0xF3, 0xD2],
    [0xCD, 0x0C, 0x13, 0xEC, 0x5F, 0x97, 0x44, 0x17, 0xC4, 0xA7, 0x7E, 0x3D, 0x64, 0x5D, 0x19, 0x73],
    [0x60, 0x81, 0x4F, 0xDC, 0x22, 0x2A, 0x90, 0x88, 0x46, 0xEE, 0xB8, 0x14, 0xDE, 0x5E, 0x0B, 0xDB],
    [0xE0, 0x32, 0x3A, 0x0A, 0x49, 0x06, 0x24, 0x5C, 0xC2, 0xD3, 0xAC, 0x62, 0x91, 0x95, 0xE4, 0x79],
    [0xE7, 0xC8, 0x37, 0x6D, 0x8D, 0xD5, 0x4E, 0xA9, 0x6C, 0x56, 0xF4, 0xEA, 0x65, 0x7A, 0xAE, 0x08],
    [0xBA, 0x78, 0x25, 0x2E, 0x1C, 0xA6, 0xB4, 0xC6, 0xE8, 0xDD, 0x74, 0x1F, 0x4B, 0xBD, 0x8B, 0x8A],
    [0x70, 0x3E, 0xB5, 0x66, 0x48, 0x03, 0xF6, 0x0E, 0x61, 0x35, 0x57, 0xB9, 0x86, 0xC1, 0x1D, 0x9E],
    [0xE1, 0xF8, 0x98, 0x11, 0x69, 0xD9, 0x8E, 0x94, 0x9B, 0x1E, 0x87, 0xE9, 0xCE, 0x55, 0x28, 0xDF],
    [0x8C, 0xA1, 0x89, 0x0D, 0xBF, 0xE6, 0x42, 0x68, 0x41, 0x99, 0x2D, 0x0F, 0xB0, 0x54, 0xBB, 0x16]]"

definition aes_inv_sbox :: "bytes list" where
  "aes_inv_sbox = [
    [0x52, 0x09, 0x6A, 0xD5, 0x30, 0x36, 0xA5, 0x38, 0xBF, 0x40, 0xA3, 0x9E, 0x81, 0xF3, 0xD7, 0xFB],
    [0x7C, 0xE3, 0x39, 0x82, 0x9B, 0x2F, 0xFF, 0x87, 0x34, 0x8E, 0x43, 0x44, 0xC4, 0xDE, 0xE9, 0xCB],
    [0x54, 0x7B, 0x94, 0x32, 0xA6, 0xC2, 0x23, 0x3D, 0xEE, 0x4C, 0x95, 0x0B, 0x42, 0xFA, 0xC3, 0x4E],
    [0x08, 0x2E, 0xA1, 0x66, 0x28, 0xD9, 0x24, 0xB2, 0x76, 0x5B, 0xA2, 0x49, 0x6D, 0x8B, 0xD1, 0x25],
    [0x72, 0xF8, 0xF6, 0x64, 0x86, 0x68, 0x98, 0x16, 0xD4, 0xA4, 0x5C, 0xCC, 0x5D, 0x65, 0xB6, 0x92],
    [0x6C, 0x70, 0x48, 0x50, 0xFD, 0xED, 0xB9, 0xDA, 0x5E, 0x15, 0x46, 0x57, 0xA7, 0x8D, 0x9D, 0x84],
    [0x90, 0xD8, 0xAB, 0x00, 0x8C, 0xBC, 0xD3, 0x0A, 0xF7, 0xE4, 0x58, 0x05, 0xB8, 0xB3, 0x45, 0x06],
    [0xD0, 0x2C, 0x1E, 0x8F, 0xCA, 0x3F, 0x0F, 0x02, 0xC1, 0xAF, 0xBD, 0x03, 0x01, 0x13, 0x8A, 0x6B],
    [0x3A, 0x91, 0x11, 0x41, 0x4F, 0x67, 0xDC, 0xEA, 0x97, 0xF2, 0xCF, 0xCE, 0xF0, 0xB4, 0xE6, 0x73],
    [0x96, 0xAC, 0x74, 0x22, 0xE7, 0xAD, 0x35, 0x85, 0xE2, 0xF9, 0x37, 0xE8, 0x1C, 0x75, 0xDF, 0x6E],
    [0x47, 0xF1, 0x1A, 0x71, 0x1D, 0x29, 0xC5, 0x89, 0x6F, 0xB7, 0x62, 0x0E, 0xAA, 0x18, 0xBE, 0x1B],
    [0xFC, 0x56, 0x3E, 0x4B, 0xC6, 0xD2, 0x79, 0x20, 0x9A, 0xDB, 0xC0, 0xFE, 0x78, 0xCD, 0x5A, 0xF4],
    [0x1F, 0xDD, 0xA8, 0x33, 0x88, 0x07, 0xC7, 0x31, 0xB1, 0x12, 0x10, 0x59, 0x27, 0x80, 0xEC, 0x5F],
    [0x60, 0x51, 0x7F, 0xA9, 0x19, 0xB5, 0x4A, 0x0D, 0x2D, 0xE5, 0x7A, 0x9F, 0x93, 0xC9, 0x9C, 0xEF],
    [0xA0, 0xE0, 0x3B, 0x4D, 0xAE, 0x2A, 0xF5, 0xB0, 0xC8, 0xEB, 0xBB, 0x3C, 0x83, 0x53, 0x99, 0x61],
    [0x17, 0x2B, 0x04, 0x7E, 0xBA, 0x77, 0xD6, 0x26, 0xE1, 0x69, 0x14, 0x63, 0x55, 0x21, 0x0C, 0x7D]]"

definition sbox_lookup :: "bytes list \<Rightarrow> byte \<Rightarrow> byte" where
  "sbox_lookup table b = table ! unat (drop_bit 4 b) ! unat (b AND 0x0F)"

definition sub_bytes :: "bytes \<Rightarrow> bytes" where
  "sub_bytes s = map (sbox_lookup aes_sbox) s"

definition inv_sub_bytes :: "bytes \<Rightarrow> bytes" where
  "inv_sub_bytes s = map (sbox_lookup aes_inv_sbox) s"

definition shift_rows :: "bytes \<Rightarrow> bytes" where
  "shift_rows s = map (\<lambda>i. s ! i) [0, 5, 10, 15, 4, 9, 14, 3, 8, 13, 2, 7, 12, 1, 6, 11]"

definition inv_shift_rows :: "bytes \<Rightarrow> bytes" where
  "inv_shift_rows s = map (\<lambda>i. s ! i) [0, 13, 10, 7, 4, 1, 14, 11, 8, 5, 2, 15, 12, 9, 6, 3]"

text \<open>Multiplication by \<open>x\<close> in \<open>GF(2\<^sup>8)\<close>, and by the constants of the two column mixes.\<close>

definition xtime :: "byte \<Rightarrow> byte" where
  "xtime b = push_bit 1 b XOR (if bit b 7 then 0x1B else 0)"

definition mul3 :: "byte \<Rightarrow> byte" where "mul3 b = xtime b XOR b"
definition mul9 :: "byte \<Rightarrow> byte" where "mul9 b = xtime (xtime (xtime b)) XOR b"
definition mul11 :: "byte \<Rightarrow> byte" where "mul11 b = xtime (xtime (xtime b)) XOR xtime b XOR b"
definition mul13 :: "byte \<Rightarrow> byte" where
  "mul13 b = xtime (xtime (xtime b)) XOR xtime (xtime b) XOR b"
definition mul14 :: "byte \<Rightarrow> byte" where
  "mul14 b = xtime (xtime (xtime b)) XOR xtime (xtime b) XOR xtime b"

fun mix_columns :: "bytes \<Rightarrow> bytes" where
  "mix_columns (a # b # c # d # rest) =
     (xtime a XOR mul3 b XOR c XOR d) # (a XOR xtime b XOR mul3 c XOR d)
     # (a XOR b XOR xtime c XOR mul3 d) # (mul3 a XOR b XOR c XOR xtime d) # mix_columns rest"
| "mix_columns s = s"

fun inv_mix_columns :: "bytes \<Rightarrow> bytes" where
  "inv_mix_columns (a # b # c # d # rest) =
     (mul14 a XOR mul11 b XOR mul13 c XOR mul9 d) # (mul9 a XOR mul14 b XOR mul11 c XOR mul13 d)
     # (mul13 a XOR mul9 b XOR mul14 c XOR mul11 d) # (mul11 a XOR mul13 b XOR mul9 c XOR mul14 d)
     # inv_mix_columns rest"
| "inv_mix_columns s = s"

definition xor_bytes :: "bytes \<Rightarrow> bytes \<Rightarrow> bytes" where
  "xor_bytes a b = map2 (XOR) a b"

text \<open>The key schedule; words are lists of four bytes and \<open>w\<close> holds the words made so far.\<close>

definition aes_rcon :: "bytes" where
  "aes_rcon = [0x00, 0x01, 0x02, 0x04, 0x08, 0x10, 0x20, 0x40, 0x80, 0x1B, 0x36]"

definition key_word :: "nat \<Rightarrow> nat \<Rightarrow> bytes list \<Rightarrow> bytes" where
  "key_word nk i w =
     (let t = w ! (i - 1);
          t' = (if i mod nk = 0 then xor_bytes (sub_bytes (rotate1 t)) [aes_rcon ! (i div nk), 0, 0, 0]
                else if nk > 6 \<and> i mod nk = 4 then sub_bytes t else t)
      in xor_bytes (w ! (i - nk)) t')"

fun expand_key :: "nat \<Rightarrow> nat \<Rightarrow> bytes list \<Rightarrow> bytes list" where
  "expand_key nk 0 w = w"
| "expand_key nk (Suc n) w = expand_key nk n (w @ [key_word nk (length w) w])"

definition round_key :: "bytes list \<Rightarrow> nat \<Rightarrow> bytes" where
  "round_key w r = take 16 (w ! (4 * r) @ w ! (4 * r + 1) @ w ! (4 * r + 2) @ w ! (4 * r + 3) @ replicate 16 0)"

definition round_keys :: "bytes \<Rightarrow> bytes list" where
  "round_keys key =
     (let nk = length key div 4; nr = nk + 6;
          w = expand_key nk (4 * (nr + 1) - nk) (map (\<lambda>i. take 4 (drop (4 * i) key)) [0..<nk])
      in map (round_key w) [0..<nr + 1])"

fun aes_rounds :: "bytes list \<Rightarrow> bytes \<Rightarrow> bytes" where
  "aes_rounds [] s = s"
| "aes_rounds [k] s = xor_bytes (shift_rows (sub_bytes s)) k"
| "aes_rounds (k # ks) s = aes_rounds ks (xor_bytes (mix_columns (shift_rows (sub_bytes s))) k)"

fun aes_inv_rounds :: "bytes list \<Rightarrow> bytes \<Rightarrow> bytes" where
  "aes_inv_rounds [] s = s"
| "aes_inv_rounds [k] s = inv_sub_bytes (inv_shift_rows (xor_bytes s k))"
| "aes_inv_rounds (k # ks) s =
     inv_sub_bytes (inv_shift_rows (inv_mix_columns (xor_bytes (aes_inv_rounds ks s) k)))"

definition aes_encrypt :: "bytes \<Rightarrow> bytes \<Rightarrow> bytes" where
  "aes_encrypt key blk = (let ks = round_keys key in aes_rounds (tl ks) (xor_bytes blk (hd ks)))"

definition aes_decrypt :: "bytes \<Rightarrow> bytes \<Rightarrow> bytes" where
  "aes_decrypt key blk = (let ks = round_keys key in xor_bytes (aes_inv_rounds (tl ks) blk) (hd ks))"

section \<open>Decryption inverts encryption\<close>

lemma length_sub_bytes [simp]: "length (sub_bytes s) = length s"
  by (simp add: sub_bytes_def)

lemma length_shift_rows [simp]: "length (shift_rows s) = 16"
  by (simp add: shift_rows_def)

lemma length_mix_columns [simp]: "length (mix_columns s) = length s"
  by (induction s rule: mix_columns.induct) auto

lemma length_xor_bytes [simp]: "length (xor_bytes a b) = min (length a) (length b)"
  by (simp add: xor_bytes_def)

lemma xor_bytes_cancel: "length a \<le> length k \<Longrightarrow> xor_bytes (xor_bytes a k) k = a"
  unfolding xor_bytes_def
  by (induction a k rule: list_induct2') (auto simp: xor.assoc)

lemma sbox_inverse_table:
  "list_all (\<lambda>i. sbox_lookup aes_inv_sbox (sbox_lookup aes_sbox (word_of_nat i)) = word_of_nat i) [0..<256]"
  by code_simp

lemma sbox_inverse: "sbox_lookup aes_inv_sbox (sbox_lookup aes_sbox b) = b"
  by (rule byte_table [OF sbox_inverse_table])

lemma inv_sub_bytes_sub_bytes: "inv_sub_bytes (sub_bytes s) = s"
  by (simp add: inv_sub_bytes_def sub_bytes_def sbox_inverse comp_def)

lemma inv_shift_rows_shift_rows:
  assumes "length s = 16"
  shows "inv_shift_rows (shift_rows s) = s"
proof -
  have "[0..<16] = [0, 1, 2, 3, 4, 5, 6, 7, 8, 9, 10, 11, 12, 13, 14, 15]" by code_simp
  then have "s = [s!0, s!1, s!2, s!3, s!4, s!5, s!6, s!7, s!8, s!9, s!10, s!11, s!12, s!13, s!14, s!15]"
    using map_nth [of s] assms by simp
  then show ?thesis by (simp add: inv_shift_rows_def shift_rows_def)
qed

lemma xtime_xor: "xtime (a XOR b) = xtime a XOR xtime b"
  by (simp add: xtime_def push_bit_xor bit_xor_iff ac_simps)

lemma xor_left_self: "a XOR (a XOR b) = (b :: byte)"
  by (simp flip: xor.assoc)

lemma inv_mix_columns_mix_columns: "inv_mix_columns (mix_columns s) = s"
proof (induction s rule: mix_columns.induct)
  case (1 a b c d rest)
  then show ?case
    by (simp add: mul3_def mul9_def mul11_def mul13_def mul14_def xtime_xor xor_left_self
        xor.assoc xor.commute xor.left_commute)
qed auto

lemma length_round_key [simp]: "length (round_key w r) = 16"
  by (simp add: round_key_def)

lemma round_keys_shape:
  "round_keys key \<noteq> []" "k \<in> set (round_keys key) \<Longrightarrow> length k = 16"
  by (auto simp: round_keys_def Let_def)

lemma length_aes_rounds:
  "(\<And>k. k \<in> set ks \<Longrightarrow> length k = 16) \<Longrightarrow> length s = 16 \<Longrightarrow> length (aes_rounds ks s) = 16"
  by (induction ks s rule: aes_rounds.induct) auto

lemma aes_inv_rounds_aes_rounds:
  assumes "\<And>k. k \<in> set ks \<Longrightarrow> length k = 16" and "length s = 16"
  shows "aes_inv_rounds ks (aes_rounds ks s) = s"
  using assms
  by (induction ks s rule: aes_rounds.induct)
    (simp_all add: xor_bytes_cancel inv_shift_rows_shift_rows inv_sub_bytes_sub_bytes
      inv_mix_columns_mix_columns)

lemma round_keys_hd: "length (hd (round_keys key)) = 16"
  by (rule round_keys_shape(2), rule hd_in_set, rule round_keys_shape(1))

lemma round_keys_tl: "k \<in> set (tl (round_keys key)) \<Longrightarrow> length k = 16"
  by (rule round_keys_shape(2), rule list.set_sel(2) [OF round_keys_shape(1)])

lemmas round_keys_parts = round_keys_hd round_keys_tl

section \<open>Cipher block chaining\<close>

fun cbc_encrypt :: "(bytes \<Rightarrow> bytes) \<Rightarrow> nat \<Rightarrow> bytes \<Rightarrow> bytes \<Rightarrow> bytes" where
  "cbc_encrypt E 0 iv bs = []"
| "cbc_encrypt E (Suc n) iv bs =
     (let c = E (xor_bytes (take 16 bs) iv) in c @ cbc_encrypt E n c (drop 16 bs))"

fun cbc_decrypt :: "(bytes \<Rightarrow> bytes) \<Rightarrow> nat \<Rightarrow> bytes \<Rightarrow> bytes \<Rightarrow> bytes" where
  "cbc_decrypt D 0 iv bs = []"
| "cbc_decrypt D (Suc n) iv bs =
     (let c = take 16 bs in xor_bytes (D c) iv @ cbc_decrypt D n c (drop 16 bs))"

locale block_cipher =
  fixes E D :: "bytes \<Rightarrow> bytes"
  assumes enc_length: "length b = 16 \<Longrightarrow> length (E b) = 16"
    and dec_enc: "length b = 16 \<Longrightarrow> D (E b) = b"
begin

lemma length_cbc_encrypt:
  "length bs = 16 * n \<Longrightarrow> length iv = 16 \<Longrightarrow> length (cbc_encrypt E n iv bs) = 16 * n"
  by (induction n arbitrary: iv bs) (simp_all add: Let_def enc_length)

lemma cbc_decrypt_cbc_encrypt:
  "length bs = 16 * n \<Longrightarrow> length iv = 16 \<Longrightarrow> cbc_decrypt D n iv (cbc_encrypt E n iv bs) = bs"
proof (induction n arbitrary: iv bs)
  case 0
  then show ?case by simp
next
  case (Suc n)
  let ?c = "E (xor_bytes (take 16 bs) iv)"
  have c: "length ?c = 16" using Suc.prems by (intro enc_length) simp
  have "D ?c = xor_bytes (take 16 bs) iv" using Suc.prems by (intro dec_enc) simp
  then have "xor_bytes (D ?c) iv = take 16 bs" using Suc.prems by (simp add: xor_bytes_cancel)
  with c Suc.IH [of "drop 16 bs" ?c] Suc.prems show ?case by (simp add: Let_def)
qed

end

interpretation aes: block_cipher "aes_encrypt key" "aes_decrypt key" for key
proof
  fix b :: bytes
  assume "length b = 16"
  then have len: "length (xor_bytes b (hd (round_keys key))) = 16"
    by (simp add: round_keys_parts)
  then show "length (aes_encrypt key b) = 16"
    by (simp add: aes_encrypt_def Let_def length_aes_rounds round_keys_parts)
  from len \<open>length b = 16\<close> show "aes_decrypt key (aes_encrypt key b) = b"
    by (simp add: aes_encrypt_def aes_decrypt_def Let_def aes_inv_rounds_aes_rounds round_keys_parts
        xor_bytes_cancel)
qed

end
