(* ===== verification/Crypto.thy ===== *)
theory Crypto
  imports Sha256 Aes
begin

text \<open>
  The package \<^verbatim>\<open>rns/crypto\<close>: PKCS#7 padding, the AES-CBC wrappers, HKDF and the token format
  that seals every encrypted payload. An error of the Go code is a value of \<open>crypto_error\<close>; a
  run-time panic of the standard library (a misaligned input or an initialization vector of the
  wrong size given to a CBC mode) is the value \<open>CryptoPanic\<close>. Random bytes are an argument.
\<close>

datatype crypto_error =
    InvalidPadding
  | InvalidKeyLength nat
  | InvalidOutputLength
  | EmptyInputMaterial
  | InvalidTokenKey nat
  | TokenHMACInvalid
  | TokenTooShort
  | TokenDecrypt crypto_error
  | RandomSource
  | CryptoPanic

type_synonym 'a crypto_result = "crypto_error + 'a"

section \<open>PKCS#7\<close>

definition PKCS7Pad :: "bytes \<Rightarrow> nat \<Rightarrow> bytes" where
  "PKCS7Pad data blockSize =
     (let padding = blockSize - length data mod blockSize
      in data @ replicate padding (word_of_nat padding))"

definition PKCS7Unpad :: "bytes \<Rightarrow> bytes crypto_result" where
  "PKCS7Unpad data =
     (if data = [] then Inl InvalidPadding
      else
        let padding = unat (last data) in
        if padding = 0 \<or> padding > length data then Inl InvalidPadding
        else if \<exists>i\<in>set [0..<padding]. data ! (length data - 1 - i) \<noteq> word_of_nat padding
        then Inl InvalidPadding
        else Inr (take (length data - padding) data))"

section \<open>AES-CBC\<close>

text \<open>\<^verbatim>\<open>cipher.NewCBCEncrypter\<close> and \<^verbatim>\<open>CryptBlocks\<close>, which panic on an IV that is not one block
  and on an input that is not a whole number of blocks.\<close>

definition cbc_mode :: "(nat \<Rightarrow> bytes \<Rightarrow> bytes \<Rightarrow> bytes) \<Rightarrow> bytes \<Rightarrow> bytes \<Rightarrow> bytes crypto_result" where
  "cbc_mode mode iv input =
     (if length iv \<noteq> 16 \<or> length input mod 16 \<noteq> 0 then Inl CryptoPanic
      else Inr (mode (length input div 16) iv input))"

definition AES128CBCEncrypt :: "bytes \<Rightarrow> bytes \<Rightarrow> bytes \<Rightarrow> bytes crypto_result" where
  "AES128CBCEncrypt plaintext key iv =
     (if length key \<noteq> 16 then Inl (InvalidKeyLength (length key * 8))
      else cbc_mode (cbc_encrypt (aes_encrypt key)) iv plaintext)"

definition AES128CBCDecrypt :: "bytes \<Rightarrow> bytes \<Rightarrow> bytes \<Rightarrow> bytes crypto_result" where
  "AES128CBCDecrypt ciphertext key iv =
     (if length key \<noteq> 16 then Inl (InvalidKeyLength (length key * 8))
      else cbc_mode (cbc_decrypt (aes_decrypt key)) iv ciphertext)"

definition AES256CBCEncrypt :: "bytes \<Rightarrow> bytes \<Rightarrow> bytes \<Rightarrow> bytes crypto_result" where
  "AES256CBCEncrypt plaintext key iv =
     (if length key \<noteq> 32 then Inl (InvalidKeyLength (length key * 8))
      else cbc_mode (cbc_encrypt (aes_encrypt key)) iv plaintext)"

definition AES256CBCDecrypt :: "bytes \<Rightarrow> bytes \<Rightarrow> bytes \<Rightarrow> bytes crypto_result" where
  "AES256CBCDecrypt ciphertext key iv =
     (if length key \<noteq> 32 then Inl (InvalidKeyLength (length key * 8))
      else cbc_mode (cbc_decrypt (aes_decrypt key)) iv ciphertext)"

section \<open>HKDF\<close>

text \<open>
  The number of blocks is \<^verbatim>\<open>math.Ceil(float64(length) / 32)\<close>, exact for every length below
  \<open>2\<^sup>5\<^sup>3\<close>. The loop appends block after block; \<open>i\<close> is its counter.
\<close>

abbreviation (input) hkdfHashLen :: nat where "hkdfHashLen \<equiv> 32"

fun hkdf_expand :: "bytes \<Rightarrow> bytes \<Rightarrow> nat \<Rightarrow> nat \<Rightarrow> bytes \<Rightarrow> bytes" where
  "hkdf_expand prk ctx i 0 block = []"
| "hkdf_expand prk ctx i (Suc n) block =
     (let block' = HMAC prk (block @ ctx @ [word_of_nat ((i + 1) mod 256)])
      in block' @ hkdf_expand prk ctx (i + 1) n block')"

definition HKDF :: "int \<Rightarrow> bytes \<Rightarrow> bytes \<Rightarrow> bytes \<Rightarrow> bytes crypto_result" where
  "HKDF len deriveFrom salt ctx =
     (if len < 1 then Inl InvalidOutputLength
      else if deriveFrom = [] then Inl EmptyInputMaterial
      else
        let salt = (if salt = [] then replicate hkdfHashLen 0 else salt);
            pseudoRandomKey = HMAC salt deriveFrom;
            numBlocks = (nat len + hkdfHashLen - 1) div hkdfHashLen
        in Inr (take (nat len) (hkdf_expand pseudoRandomKey ctx 0 numBlocks [])))"

section \<open>Tokens\<close>

abbreviation (input) TokenOverhead :: nat where "TokenOverhead \<equiv> 48"

record token =
  signingKey :: bytes
  encryptionKey :: bytes
  isAES256 :: bool

definition GenerateTokenKey :: "(nat \<Rightarrow> bytes option) \<Rightarrow> bool \<Rightarrow> bytes crypto_result" where
  "GenerateTokenKey randomBytes aes256 =
     (case randomBytes (if aes256 then 64 else 32) of None \<Rightarrow> Inl RandomSource | Some key \<Rightarrow> Inr key)"

definition NewToken :: "bytes \<Rightarrow> token crypto_result" where
  "NewToken key =
     (if length key = 32 then
        Inr \<lparr>signingKey = take 16 key, encryptionKey = drop 16 key, isAES256 = False\<rparr>
      else if length key = 64 then
        Inr \<lparr>signingKey = take 32 key, encryptionKey = drop 32 key, isAES256 = True\<rparr>
      else Inl (InvalidTokenKey (length key * 8)))"

definition VerifyHMAC :: "token \<Rightarrow> bytes \<Rightarrow> bool" where
  "VerifyHMAC t tok =
     (if length tok \<le> 32 then False
      else
        let receivedHMAC = drop (length tok - 32) tok;
            signedParts = take (length tok - 32) tok
        in receivedHMAC = HMAC (signingKey t) signedParts)"

definition TokenEncrypt :: "(nat \<Rightarrow> bytes option) \<Rightarrow> token \<Rightarrow> bytes \<Rightarrow> bytes crypto_result" where
  "TokenEncrypt randomBytes t data =
     (case randomBytes 16 of
        None \<Rightarrow> Inl RandomSource
      | Some iv \<Rightarrow>
          let padded = PKCS7Pad data 16 in
          (case (if isAES256 t then AES256CBCEncrypt padded (encryptionKey t) iv
                 else AES128CBCEncrypt padded (encryptionKey t) iv) of
             Inl e \<Rightarrow> Inl e
           | Inr ciphertext \<Rightarrow>
               let signedParts = iv @ ciphertext
               in Inr (signedParts @ HMAC (signingKey t) signedParts)))"

text \<open>A panic inside the mode unwinds through \<^verbatim>\<open>Decrypt\<close>; only returned errors are wrapped.\<close>

definition TokenDecryptData :: "token \<Rightarrow> bytes \<Rightarrow> bytes crypto_result" where
  "TokenDecryptData t tok =
     (if \<not> VerifyHMAC t tok then Inl TokenHMACInvalid
      else if length tok < 16 + 32 then Inl TokenTooShort
      else
        let iv = take 16 tok;
            ciphertext = go_slice 16 (length tok - 32) tok
        in (case (if isAES256 t then AES256CBCDecrypt ciphertext (encryptionKey t) iv
                  else AES128CBCDecrypt ciphertext (encryptionKey t) iv) of
              Inl CryptoPanic \<Rightarrow> Inl CryptoPanic
            | Inl e \<Rightarrow> Inl (TokenDecrypt e)
            | Inr padded \<Rightarrow> PKCS7Unpad padded))"

section \<open>Padding\<close>

lemma length_PKCS7Pad: "0 < n \<Longrightarrow> length (PKCS7Pad data n) = (length data div n + 1) * n"
proof -
  assume "0 < n"
  then have "length data mod n \<le> n" by (simp add: less_imp_le)
  then have "length data + (n - length data mod n) = length data div n * n + n"
    using div_mult_mod_eq [of "length data" n] by linarith
  then show ?thesis by (simp add: PKCS7Pad_def Let_def)
qed

lemma PKCS7Unpad_replicate:
  assumes "0 < k" and "k < 256"
  shows "PKCS7Unpad (data @ replicate k (word_of_nat k)) = Inr data"
proof -
  have u: "unat (word_of_nat k :: byte) = k" using assms by (simp add: unat_of_nat)
  have "\<forall>i\<in>set [0..<k]. (data @ replicate k (word_of_nat k :: byte))
      ! (length (data @ replicate k (word_of_nat k :: byte)) - 1 - i) = word_of_nat k"
    by (auto simp: nth_append)
  with u assms show ?thesis by (auto simp: PKCS7Unpad_def Let_def)
qed

lemma PKCS7Unpad_PKCS7Pad:
  assumes "0 < n" and "n < 256"
  shows "PKCS7Unpad (PKCS7Pad data n) = Inr data"
proof -
  have "0 < n - length data mod n" using assms by simp
  then show ?thesis
    unfolding PKCS7Pad_def Let_def using assms by (intro PKCS7Unpad_replicate) auto
qed

lemma PKCS7Unpad_Inr:
  assumes "PKCS7Unpad data = Inr out"
  shows "\<exists>k. 0 < k \<and> k \<le> length data \<and> k < 256 \<and> data = out @ replicate k (word_of_nat k)"
proof -
  let ?k = "unat (last data)"
  have k: "0 < ?k" "?k \<le> length data" and out: "out = take (length data - ?k) data"
    and all: "\<forall>i<?k. data ! (length data - 1 - i) = word_of_nat ?k"
    using assms by (auto simp: PKCS7Unpad_def Let_def split: if_splits)
  have "drop (length data - ?k) data = replicate ?k (word_of_nat ?k)"
  proof (rule nth_equalityI)
    fix i
    assume "i < length (drop (length data - ?k) data)"
    then have i: "i < ?k" by simp
    then have "length data - 1 - (?k - 1 - i) = length data - ?k + i" using k by linarith
    with all [rule_format, of "?k - 1 - i"] i k
    show "drop (length data - ?k) data ! i = replicate ?k (word_of_nat ?k) ! i" by simp
  qed (use k in simp)
  then have "data = out @ replicate ?k (word_of_nat ?k)" using out by (metis append_take_drop_id)
  then show ?thesis using k unat_word_less(1) by blast
qed

section \<open>Key derivation\<close>

lemma length_hkdf_expand: "length (hkdf_expand prk ctx i n blk) = n * 32"
  by (induction n arbitrary: i blk) (simp_all add: Let_def)

lemma hkdf_expand_prefix:
  "m \<le> n \<Longrightarrow> take (m * 32) (hkdf_expand prk ctx i n blk) = hkdf_expand prk ctx i m blk"
proof (induction m arbitrary: i n blk)
  case 0
  then show ?case by simp
next
  case (Suc m)
  then obtain n' where "n = Suc n'" "m \<le> n'" by (cases n) auto
  with Suc.IH show ?case by (simp add: Let_def)
qed

lemma hkdf_blocks_cover: "n \<le> (n + hkdfHashLen - 1) div hkdfHashLen * 32"
  by linarith

text \<open>The output of a successful derivation.\<close>

definition hkdf_out :: "int \<Rightarrow> bytes \<Rightarrow> bytes \<Rightarrow> bytes \<Rightarrow> bytes" where
  "hkdf_out len ikm salt ctx =
     take (nat len) (hkdf_expand (HMAC (if salt = [] then replicate hkdfHashLen 0 else salt) ikm) ctx 0
       ((nat len + hkdfHashLen - 1) div hkdfHashLen) [])"

lemma HKDF_ok: "1 \<le> len \<Longrightarrow> ikm \<noteq> [] \<Longrightarrow> HKDF len ikm salt ctx = Inr (hkdf_out len ikm salt ctx)"
  by (simp add: HKDF_def hkdf_out_def Let_def)

lemma length_hkdf_out: "length (hkdf_out len ikm salt ctx) = nat len"
  unfolding hkdf_out_def length_take length_hkdf_expand
  using hkdf_blocks_cover [of "nat len"] by (rule min.absorb2)

lemma hkdf_out_prefix:
  assumes "m \<le> n"
  shows "hkdf_out m ikm salt ctx = take (nat m) (hkdf_out n ikm salt ctx)"
proof -
  let ?e = "hkdf_expand (HMAC (if salt = [] then replicate hkdfHashLen 0 else salt) ikm) ctx 0"
  let ?b = "\<lambda>k. (nat k + hkdfHashLen - 1) div hkdfHashLen"
  have le: "?b m \<le> ?b n" using assms by (intro div_le_mono) auto
  have "take (nat m) (?e (?b m) []) = take (nat m) (take (?b m * 32) (?e (?b n) []))"
    using hkdf_expand_prefix [OF le] by simp
  also have "\<dots> = take (nat m) (?e (?b n) [])"
    using hkdf_blocks_cover [of "nat m"] by (simp only: take_take min.absorb1)
  also have "\<dots> = take (nat m) (take (nat n) (?e (?b n) []))"
    using assms by (simp only: take_take min.absorb1 nat_mono)
  finally show ?thesis by (simp only: hkdf_out_def)
qed

section \<open>Tokens\<close>

lemma VerifyHMAC_seal:
  assumes "parts \<noteq> []" and "length mac = 32"
  shows "VerifyHMAC t (parts @ mac) \<longleftrightarrow> mac = HMAC (signingKey t) parts"
  using assms by (auto simp: VerifyHMAC_def Let_def)

definition token_wf :: "token \<Rightarrow> bool" where
  "token_wf t \<longleftrightarrow> length (encryptionKey t) = (if isAES256 t then 32 else 16)"

lemma NewToken_wf: "NewToken key = Inr t \<Longrightarrow> token_wf t"
  by (auto simp: NewToken_def token_wf_def split: if_splits)

text \<open>The cipher step of a well-formed token, whichever key size it has.\<close>

lemma token_cipher:
  assumes "token_wf t"
  shows "(if isAES256 t then AES256CBCEncrypt x (encryptionKey t) iv
          else AES128CBCEncrypt x (encryptionKey t) iv)
      = cbc_mode (cbc_encrypt (aes_encrypt (encryptionKey t))) iv x"
    and "(if isAES256 t then AES256CBCDecrypt x (encryptionKey t) iv
          else AES128CBCDecrypt x (encryptionKey t) iv)
      = cbc_mode (cbc_decrypt (aes_decrypt (encryptionKey t))) iv x"
  using assms
  by (auto simp: token_wf_def AES256CBCEncrypt_def AES128CBCEncrypt_def AES256CBCDecrypt_def
      AES128CBCDecrypt_def)

lemma TokenEncrypt_form:
  assumes "token_wf t" and "randomBytes 16 = Some iv" and "length iv = 16"
  shows "\<exists>ct. length ct = (length data div 16 + 1) * 16
      \<and> cbc_decrypt (aes_decrypt (encryptionKey t)) (length ct div 16) iv ct = PKCS7Pad data 16
      \<and> TokenEncrypt randomBytes t data = Inr (iv @ ct @ HMAC (signingKey t) (iv @ ct))"
proof -
  let ?p = "PKCS7Pad data 16" and ?n = "length data div 16 + 1"
  let ?ct = "cbc_encrypt (aes_encrypt (encryptionKey t)) ?n iv ?p"
  have p: "length ?p = 16 * ?n" by (simp add: length_PKCS7Pad)
  have "length ?ct = 16 * ?n" by (rule aes.length_cbc_encrypt [OF p assms(3)])
  moreover have "cbc_decrypt (aes_decrypt (encryptionKey t)) ?n iv ?ct = ?p"
    by (rule aes.cbc_decrypt_cbc_encrypt [OF p assms(3)])
  moreover have "length ?p div 16 = ?n" "length ?p mod 16 = 0" using p by auto
  ultimately show ?thesis using assms
    by (intro exI [of _ ?ct]) (simp add: TokenEncrypt_def Let_def token_cipher cbc_mode_def)
qed

lemma TokenDecryptData_sealed:
  assumes "token_wf t" and "length iv = 16"
  shows "TokenDecryptData t (iv @ ct @ HMAC (signingKey t) (iv @ ct)) =
    (if length ct mod 16 \<noteq> 0 then Inl CryptoPanic
     else PKCS7Unpad (cbc_decrypt (aes_decrypt (encryptionKey t)) (length ct div 16) iv ct))"
proof -
  let ?tok = "iv @ ct @ HMAC (signingKey t) (iv @ ct)"
  have "VerifyHMAC t ((iv @ ct) @ HMAC (signingKey t) (iv @ ct))"
    using assms(2) by (subst VerifyHMAC_seal) auto
  then have "VerifyHMAC t ?tok" by simp
  moreover have "go_slice 16 (length ?tok - 32) ?tok = ct" "take 16 ?tok = iv"
    using assms(2) by (simp_all add: go_slice_def)
  moreover have "\<not> length ?tok < 16 + 32" using assms(2) by simp
  ultimately show ?thesis
    unfolding TokenDecryptData_def token_cipher [OF assms(1)] Let_def
    using assms(2) by (simp add: cbc_mode_def)
qed

section \<open>Properties\<close>

text \<open>
  C24: A token made by \<^verbatim>\<open>Encrypt\<close> decrypts to the plaintext under the same key, for both key sizes and
  every plaintext, and is exactly the overhead longer than the padded plaintext.
\<close>

theorem token_roundtrip:
  assumes "NewToken key = Inr t" and "randomBytes 16 = Some iv" and "length iv = 16"
  shows "\<exists>tok. TokenEncrypt randomBytes t data = Inr tok \<and> TokenDecryptData t tok = Inr data
    \<and> length tok = length (PKCS7Pad data 16) + TokenOverhead"
proof -
  have wf: "token_wf t" by (rule NewToken_wf [OF assms(1)])
  obtain ct where ct: "length ct = (length data div 16 + 1) * 16"
      "cbc_decrypt (aes_decrypt (encryptionKey t)) (length ct div 16) iv ct = PKCS7Pad data 16"
      "TokenEncrypt randomBytes t data = Inr (iv @ ct @ HMAC (signingKey t) (iv @ ct))"
    using TokenEncrypt_form [OF wf, of randomBytes iv data] assms(2,3) by blast
  moreover have "length ct mod 16 = 0" using ct(1) by simp
  ultimately show ?thesis
    using TokenDecryptData_sealed [OF wf assms(3), of ct] assms(3)
    by (simp add: PKCS7Unpad_PKCS7Pad length_PKCS7Pad)
qed

theorem token_roundtrip_witness:
  "\<exists>t tok. NewToken (replicate 64 3) = Inr t
    \<and> TokenEncrypt (\<lambda>n. Some (replicate n 5)) t [1, 2, 3] = Inr tok \<and> TokenDecryptData t tok = Inr [1, 2, 3]"
proof -
  have "NewToken (replicate 64 3) =
      Inr \<lparr>signingKey = take 32 (replicate 64 3), encryptionKey = drop 32 (replicate 64 3), isAES256 = True\<rparr>"
    by (simp add: NewToken_def)
  from token_roundtrip [OF this, of "\<lambda>n. Some (replicate n 5)" "replicate 16 5" "[1, 2, 3]"] this
  show ?thesis by auto
qed

text \<open>
  C25: Authentication comes first: a byte string is decrypted only if its last 32 bytes are the HMAC of
  what precedes them under the signing key; anything else is rejected before the cipher is touched.
\<close>

theorem token_authenticated:
  "TokenDecryptData t tok \<noteq> Inl TokenHMACInvalid \<longleftrightarrow>
     (\<exists>parts. parts \<noteq> [] \<and> tok = parts @ HMAC (signingKey t) parts)"
proof
  assume "TokenDecryptData t tok \<noteq> Inl TokenHMACInvalid"
  then have v: "VerifyHMAC t tok" by (rule contrapos_np) (simp add: TokenDecryptData_def)
  then have len: "length tok > 32" by (auto simp: VerifyHMAC_def split: if_splits)
  from v have "tok = take (length tok - 32) tok @ HMAC (signingKey t) (take (length tok - 32) tok)"
    by (metis (no_types, lifting) VerifyHMAC_def append_take_drop_id)
  moreover have "take (length tok - 32) tok \<noteq> []" using len by auto
  ultimately show "\<exists>parts. parts \<noteq> [] \<and> tok = parts @ HMAC (signingKey t) parts" by blast
next
  assume "\<exists>parts. parts \<noteq> [] \<and> tok = parts @ HMAC (signingKey t) parts"
  then have "VerifyHMAC t tok" by (auto simp: VerifyHMAC_seal)
  moreover have "PKCS7Unpad padded \<noteq> Inl TokenHMACInvalid" for padded by (simp add: PKCS7Unpad_def Let_def)
  ultimately show "TokenDecryptData t tok \<noteq> Inl TokenHMACInvalid"
    by (simp add: TokenDecryptData_def Let_def split: sum.split crypto_error.split)
qed

text \<open>
  \<^verbatim>\<open>Decrypt\<close> does not always return an error for bytes it cannot decrypt: for an authenticated
  token whose ciphertext is not a whole number of blocks, the block mode panics. Anyone who holds the
  token key, the peer of a link for instance, can produce one.
\<close>

theorem misaligned_token_panics:
  assumes "NewToken key = Inr t" and "length iv = 16" and "length ct mod 16 \<noteq> 0"
  shows "TokenDecryptData t (iv @ ct @ HMAC (signingKey t) (iv @ ct)) = Inl CryptoPanic"
  using TokenDecryptData_sealed [OF NewToken_wf [OF assms(1)] assms(2), of ct] assms(3) by simp

theorem misaligned_token_panics_witness:
  "\<exists>t. NewToken (replicate 32 3) = Inr t
    \<and> TokenDecryptData t (replicate 16 0 @ [1] @ HMAC (signingKey t) (replicate 16 0 @ [1])) = Inl CryptoPanic"
proof -
  have "NewToken (replicate 32 3) =
      Inr \<lparr>signingKey = take 16 (replicate 32 3), encryptionKey = drop 16 (replicate 32 3), isAES256 = False\<rparr>"
    by (simp add: NewToken_def)
  from misaligned_token_panics [OF this, of "replicate 16 0" "[1]"] this show ?thesis by auto
qed

text \<open>
  \<^verbatim>\<open>PKCS7Unpad\<close> accepts exactly the byte strings that end in \<open>k\<close> copies of the byte \<open>k\<close>, for some
  \<open>k\<close> from 1 to 255, and returns what precedes them; so it inverts \<^verbatim>\<open>PKCS7Pad\<close> for every block size
  up to 255, and the padded length is a multiple of the block size.
\<close>

theorem pkcs7_unpad_characterised:
  "(PKCS7Unpad padded = Inr out \<longleftrightarrow> (\<exists>k. 0 < k \<and> k < 256 \<and> padded = out @ replicate k (word_of_nat k)))
   \<and> (0 < n \<and> n < 256 \<longrightarrow> PKCS7Unpad (PKCS7Pad data n) = Inr data \<and> n dvd length (PKCS7Pad data n))"
proof (intro conjI impI)
  show "PKCS7Unpad padded = Inr out \<longleftrightarrow> (\<exists>k. 0 < k \<and> k < 256 \<and> padded = out @ replicate k (word_of_nat k))"
    using PKCS7Unpad_Inr [of padded out] PKCS7Unpad_replicate by blast
next
  assume "0 < n \<and> n < 256"
  then show "PKCS7Unpad (PKCS7Pad data n) = Inr data" "n dvd length (PKCS7Pad data n)"
    by (simp_all add: PKCS7Unpad_PKCS7Pad length_PKCS7Pad)
qed

theorem pkcs7_unpad_characterised_witness:
  "PKCS7Unpad (PKCS7Pad [1, 2, 3] 16) = Inr [1, 2, 3]"
  using pkcs7_unpad_characterised [of "[]" "[]" 16 "[1, 2, 3]"] by simp

text \<open>
  HKDF returns a key of the requested length for any usable input, and a shorter key derived from
  the same input is a prefix of a longer one.
\<close>

theorem hkdf_length_and_prefix:
  assumes "1 \<le> m" and "m \<le> n" and "ikm \<noteq> []"
  shows "\<exists>short long. HKDF m ikm salt ctx = Inr short \<and> HKDF n ikm salt ctx = Inr long
    \<and> int (length short) = m \<and> int (length long) = n \<and> short = take (nat m) long"
  using assms HKDF_ok [of m ikm salt ctx] HKDF_ok [of n ikm salt ctx] hkdf_out_prefix [OF assms(2)]
    length_hkdf_out [of m ikm salt ctx] length_hkdf_out [of n ikm salt ctx]
  by (intro exI [of _ "hkdf_out m ikm salt ctx"] exI [of _ "hkdf_out n ikm salt ctx"]) auto

theorem hkdf_length_and_prefix_witness:
  "\<exists>short long. HKDF 32 [1] [] [] = Inr short \<and> HKDF 64 [1] [] [] = Inr long
     \<and> int (length long) = 64 \<and> short = take 32 long"
  using hkdf_length_and_prefix [of 32 64 "[1]" "[]" "[]"] by auto

end
