(* ===== verification/Packet.thy ===== *)
theory Packet
  imports Complex_Main Crypto
begin

text \<open>
  Packets and receipts (\<^verbatim>\<open>rns/packet.go\<close>): the header codec, the packet hash that identifies a
  packet along its whole path, and the receipt that follows a sent packet to its conclusion. A
  Go method that mutates its packet returns the packet with the error it reports, so the fields
  written before an early return are visible. Times are rationals: the \<^verbatim>\<open>float64\<close> seconds of
  the code without their rounding.
\<close>

section \<open>Constants and hashes\<close>

abbreviation (input) PacketData :: int where "PacketData \<equiv> 0x00"
abbreviation (input) PacketAnnounce :: int where "PacketAnnounce \<equiv> 0x01"
abbreviation (input) PacketLinkRequest :: int where "PacketLinkRequest \<equiv> 0x02"
abbreviation (input) PacketProof :: int where "PacketProof \<equiv> 0x03"

abbreviation (input) Header1 :: int where "Header1 \<equiv> 0x00"
abbreviation (input) Header2 :: int where "Header2 \<equiv> 0x01"

abbreviation (input) TransportBroadcast :: int where "TransportBroadcast \<equiv> 0x00"
abbreviation (input) TransportForward :: int where "TransportForward \<equiv> 0x01"
abbreviation (input) TransportRelay :: int where "TransportRelay \<equiv> 0x02"
abbreviation (input) TransportTunnel :: int where "TransportTunnel \<equiv> 0x03"

abbreviation (input) ContextNone :: int where "ContextNone \<equiv> 0x00"
abbreviation (input) ContextResource :: int where "ContextResource \<equiv> 0x01"
abbreviation (input) ContextResourceAdv :: int where "ContextResourceAdv \<equiv> 0x02"
abbreviation (input) ContextResourceReq :: int where "ContextResourceReq \<equiv> 0x03"
abbreviation (input) ContextResourceHmu :: int where "ContextResourceHmu \<equiv> 0x04"
abbreviation (input) ContextResourcePrf :: int where "ContextResourcePrf \<equiv> 0x05"
abbreviation (input) ContextResourceIcl :: int where "ContextResourceIcl \<equiv> 0x06"
abbreviation (input) ContextResourceRcl :: int where "ContextResourceRcl \<equiv> 0x07"
abbreviation (input) ContextCacheRequest :: int where "ContextCacheRequest \<equiv> 0x08"
abbreviation (input) ContextChannel :: int where "ContextChannel \<equiv> 0x0e"
abbreviation (input) ContextKeepalive :: int where "ContextKeepalive \<equiv> 0xfa"
abbreviation (input) ContextLrproof :: int where "ContextLrproof \<equiv> 0xff"

abbreviation (input) FlagSet :: int where "FlagSet \<equiv> 0x01"
abbreviation (input) FlagUnset :: int where "FlagUnset \<equiv> 0x00"

abbreviation (input) DestinationSingle :: int where "DestinationSingle \<equiv> 0x00"
abbreviation (input) DestinationGroup :: int where "DestinationGroup \<equiv> 0x01"
abbreviation (input) DestinationPlain :: int where "DestinationPlain \<equiv> 0x02"
abbreviation (input) DestinationLink :: int where "DestinationLink \<equiv> 0x03"

definition MTU :: int where "MTU = 500"
definition PathfinderM :: int where "PathfinderM = 128"
definition dstLen :: nat where "dstLen = 16"

lemmas packet_consts = PathfinderM_def dstLen_def

definition FullHash :: "bytes \<Rightarrow> bytes" where
  "FullHash data = sha256 data"

definition TruncatedHash :: "bytes \<Rightarrow> bytes" where
  "TruncatedHash data = take dstLen (FullHash data)"

section \<open>Packets\<close>

text \<open>
  What the packet code uses of the interface \<^verbatim>\<open>PacketDestination\<close>. \<open>dest_link_status\<close> is
  \<open>None\<close> when the destination is not a link, and tells whether the link is closed otherwise.
\<close>

record packet_dest =
  dest_hash :: bytes
  dest_type :: int
  dest_transport :: bool
  dest_encrypt :: "bytes \<Rightarrow> bytes option"
  dest_link_closed :: "bool option"

record packet_receipt =
  rcpt_Hash :: bytes
  rcpt_TruncatedHash :: bytes
  rcpt_Sent :: bool
  rcpt_SentAt :: rat
  rcpt_Timeout :: rat
  rcpt_Proved :: bool
  rcpt_Status :: int
  rcpt_ConcludedAt :: rat
  rcpt_timeoutCallback :: bool
  rcpt_deliveryCallback :: bool

record packet =
  Hops :: int
  HeaderType :: int
  PacketType :: int
  TransportType :: int
  Context :: int
  ContextFlag :: int
  Destination :: "packet_dest option"
  TransportID :: "bytes option"
  Data :: bytes
  Flags :: byte
  Raw :: bytes
  Packed :: bool
  Sent :: bool
  CreateReceipt :: bool
  Receipt :: "packet_receipt option"
  FromPacked :: bool
  packet_MTU :: int
  PacketHash :: bytes
  DestinationHash :: bytes
  DestinationType :: int
  Ciphertext :: bytes
  packet_transport :: bool

datatype packet_error =
    NoDestination
  | EncryptFailed
  | NoTransportID
  | ExceedsMTU nat int
  | PacketTooShort
  | InvalidHopCount int
  | TooShortHeader2
  | TooShortHeader1
  | AlreadySent
  | HopBudgetExceeded int
  | LinkIsClosed
  | UnknownTransport
  | PacketPanic

definition calculatePackedFlags :: "packet \<Rightarrow> byte" where
  "calculatePackedFlags p =
     (if Context p = ContextLrproof then
        word_of_int (push_bit 6 (HeaderType p) OR push_bit 5 (ContextFlag p) OR push_bit 4 (TransportType p)
          OR push_bit 2 DestinationLink OR PacketType p)
      else
        let destType = (case Destination p of None \<Rightarrow> DestinationPlain | Some d \<Rightarrow> dest_type d) in
        word_of_int (push_bit 6 (HeaderType p) OR push_bit 5 (ContextFlag p) OR push_bit 4 (TransportType p)
          OR push_bit 2 destType OR PacketType p))"

definition empty_packet :: packet where
  "empty_packet = \<lparr>Hops = 0, HeaderType = 0, PacketType = 0, TransportType = 0, Context = 0,
     ContextFlag = 0, Destination = None, TransportID = None, Data = [], Flags = 0, Raw = [],
     Packed = False, Sent = False, CreateReceipt = False, Receipt = None, FromPacked = False,
     packet_MTU = 0, PacketHash = [], DestinationHash = [], DestinationType = 0, Ciphertext = [],
     packet_transport = False\<rparr>"

definition NewPacketWithTransport :: "bool \<Rightarrow> packet_dest option \<Rightarrow> bytes \<Rightarrow> packet" where
  "NewPacketWithTransport ts destination data =
     (let p = empty_packet\<lparr>Destination := destination, Data := data, PacketType := PacketData,
            Context := ContextNone, TransportType := 0, HeaderType := Header1, CreateReceipt := True,
            ContextFlag := FlagUnset, packet_MTU := MTU, packet_transport := ts\<rparr>
      in case destination of
           None \<Rightarrow> p
         | Some d \<Rightarrow> let p = p\<lparr>DestinationType := dest_type d\<rparr> in p\<lparr>Flags := calculatePackedFlags p\<rparr>)"

definition NewPacketFromRaw :: "bytes \<Rightarrow> packet" where
  "NewPacketFromRaw data = empty_packet\<lparr>Raw := data, Packed := True, FromPacked := True, CreateReceipt := False\<rparr>"

text \<open>\<open>None\<close> is the run-time panic of an index or slice out of range.\<close>

definition GetHashablePart :: "packet \<Rightarrow> bytes option" where
  "GetHashablePart p =
     (if Raw p = [] then None
      else
        let start = (if HeaderType p = Header2 then dstLen + 2 else 2) in
        if length (Raw p) < start then None
        else Some ((hd (Raw p) AND 0b00001111) # drop start (Raw p)))"

definition packet_GetHash :: "packet \<Rightarrow> bytes option" where
  "packet_GetHash p = map_option FullHash (GetHashablePart p)"

definition GetTruncatedHash :: "packet \<Rightarrow> bytes option" where
  "GetTruncatedHash p = map_option TruncatedHash (GetHashablePart p)"

definition UpdateHash :: "packet \<Rightarrow> packet option" where
  "UpdateHash p = map_option (\<lambda>h. p\<lparr>PacketHash := h\<rparr>) (packet_GetHash p)"

definition should_encrypt :: "packet \<Rightarrow> bool" where
  "should_encrypt p \<longleftrightarrow> \<not> (PacketType p = PacketAnnounce \<or> PacketType p = PacketLinkRequest
     \<or> (PacketType p = PacketProof \<and> Context p = ContextResourcePrf)
     \<or> (PacketType p = PacketProof \<and> DestinationType p = DestinationLink)
     \<or> Context p = ContextResource \<or> Context p = ContextKeepalive
     \<or> Context p = ContextCacheRequest \<or> Context p = ContextLrproof)"

text \<open>The tail of \<^verbatim>\<open>Pack\<close> once the header and the ciphertext are there.\<close>

definition pack_finish :: "bytes \<Rightarrow> packet \<Rightarrow> packet \<times> packet_error option" where
  "pack_finish header p =
     (let p = p\<lparr>Raw := (header @ [word_of_int (Context p)]) @ Ciphertext p\<rparr> in
      if int (length (Raw p)) > packet_MTU p then (p, Some (ExceedsMTU (length (Raw p)) (packet_MTU p)))
      else
        let p = p\<lparr>Packed := True\<rparr> in
        (case UpdateHash p of None \<Rightarrow> (p, Some PacketPanic) | Some p \<Rightarrow> (p, None)))"

definition Pack :: "packet \<Rightarrow> packet \<times> packet_error option" where
  "Pack p =
     (case Destination p of
        None \<Rightarrow> (p, Some NoDestination)
      | Some d \<Rightarrow>
          let p = p\<lparr>DestinationHash := dest_hash d\<rparr>;
              p = p\<lparr>Flags := calculatePackedFlags p\<rparr>;
              header = [Flags p, word_of_int (Hops p)]
          in
          if HeaderType p = Header1 then
            (let header = header @ DestinationHash p in
             if should_encrypt p then
               (case dest_encrypt d (Data p) of
                  None \<Rightarrow> (p\<lparr>Ciphertext := []\<rparr>, Some EncryptFailed)
                | Some c \<Rightarrow> pack_finish header (p\<lparr>Ciphertext := c\<rparr>))
             else pack_finish header (p\<lparr>Ciphertext := Data p\<rparr>))
          else if HeaderType p = Header2 then
            (case TransportID p of
               None \<Rightarrow> (p, Some NoTransportID)
             | Some tid \<Rightarrow>
                 if tid = [] then (p, Some NoTransportID)
                 else pack_finish (header @ tid @ dest_hash d) (p\<lparr>Ciphertext := Data p\<rparr>))
          else pack_finish header p)"

definition Unpack :: "packet \<Rightarrow> packet \<times> packet_error option" where
  "Unpack p =
     (if length (Raw p) < 3 then (p, Some PacketTooShort)
      else
        let p = p\<lparr>Flags := Raw p ! 0, Hops := uint (Raw p ! 1)\<rparr> in
        if Hops p \<ge> PathfinderM then (p, Some (InvalidHopCount (Hops p)))
        else
          let p = p\<lparr>HeaderType := uint (drop_bit 6 (Flags p AND 0b01000000)),
                    ContextFlag := uint (drop_bit 5 (Flags p AND 0b00100000)),
                    TransportType := uint (drop_bit 4 (Flags p AND 0b00010000)),
                    DestinationType := uint (drop_bit 2 (Flags p AND 0b00001100)),
                    PacketType := uint (Flags p AND 0b00000011)\<rparr> in
          if HeaderType p = Header2 \<and> length (Raw p) < 2 * dstLen + 3 then (p, Some TooShortHeader2)
          else if HeaderType p \<noteq> Header2 \<and> length (Raw p) < dstLen + 3 then (p, Some TooShortHeader1)
          else
            let p = (if HeaderType p = Header2 then
                  p\<lparr>TransportID := Some (go_slice 2 (dstLen + 2) (Raw p)),
                    DestinationHash := go_slice (dstLen + 2) (2 * dstLen + 2) (Raw p),
                    Context := uint (Raw p ! (2 * dstLen + 2)),
                    Data := drop (2 * dstLen + 3) (Raw p)\<rparr>
                else
                  p\<lparr>TransportID := None,
                    DestinationHash := go_slice 2 (dstLen + 2) (Raw p),
                    Context := uint (Raw p ! (dstLen + 2)),
                    Data := drop (dstLen + 3) (Raw p)\<rparr>);
                p = p\<lparr>Packed := False\<rparr>
            in (case UpdateHash p of None \<Rightarrow> (p, Some PacketPanic) | Some p \<Rightarrow> (p, None)))"

section \<open>Sending\<close>

text \<open>
  \<^verbatim>\<open>Send\<close>: \<open>SendOutbound\<close> is the hand-over to \<^verbatim>\<open>Transport.Outbound\<close>, whose error the code
  returns as its own. For a link destination the outbound counters are advanced by the length of
  the ciphertext; the flag tells a keepalive.
\<close>

datatype send_outcome = SendError packet_error | SendOutbound

definition new_receipt :: "packet \<Rightarrow> packet_receipt option" where
  "new_receipt p = map_option (\<lambda>th.
     \<lparr>rcpt_Hash = PacketHash p, rcpt_TruncatedHash = th, rcpt_Sent = False, rcpt_SentAt = 0,
      rcpt_Timeout = 0, rcpt_Proved = False, rcpt_Status = 0x01, rcpt_ConcludedAt = 0,
      rcpt_timeoutCallback = False, rcpt_deliveryCallback = False\<rparr>) (GetTruncatedHash p)"

definition send_transport :: "packet \<Rightarrow> packet \<times> send_outcome" where
  "send_transport p =
     (if packet_transport p then (p, SendOutbound)
      else case Destination p of
        None \<Rightarrow> (p, SendError UnknownTransport)
      | Some d \<Rightarrow> if dest_transport d then (p, SendOutbound) else (p, SendError UnknownTransport))"

definition send_receipt :: "packet \<Rightarrow> packet \<times> send_outcome" where
  "send_receipt p =
     (if CreateReceipt p \<and> Receipt p = None then
        (case new_receipt p of
           None \<Rightarrow> (p, SendError PacketPanic)
         | Some r \<Rightarrow> send_transport (p\<lparr>Receipt := Some r\<rparr>))
      else send_transport p)"

text \<open>The third component is the call \<^verbatim>\<open>link.recordOutbound(len, keepalive)\<close>, if it is made.\<close>

definition packet_Send :: "packet \<Rightarrow> packet \<times> send_outcome \<times> (nat \<times> bool) option" where
  "packet_Send p =
     (if Sent p then (p, SendError AlreadySent, None)
      else if Hops p \<ge> PathfinderM then (p, SendError (HopBudgetExceeded (Hops p)), None)
      else
        case (if Packed p then (p, None) else Pack p) of
          (p, Some e) \<Rightarrow> (p, SendError e, None)
        | (p, None) \<Rightarrow>
            (case Option.bind (Destination p) dest_link_closed of
               Some True \<Rightarrow> (p\<lparr>Sent := False, Receipt := None\<rparr>, SendError LinkIsClosed, None)
             | Some False \<Rightarrow>
                 (case send_receipt p of
                    (p', out) \<Rightarrow> (p', out, Some (length (Ciphertext p), Context p = ContextKeepalive)))
             | None \<Rightarrow> (case send_receipt p of (p', out) \<Rightarrow> (p', out, None))))"

section \<open>Receipts\<close>

abbreviation (input) ReceiptFailed :: int where "ReceiptFailed \<equiv> 0x00"
abbreviation (input) ReceiptSent :: int where "ReceiptSent \<equiv> 0x01"
abbreviation (input) ReceiptDelivered :: int where "ReceiptDelivered \<equiv> 0x02"
abbreviation (input) ReceiptCulled :: int where "ReceiptCulled \<equiv> 0xff"
abbreviation (input) receiptTimeoutCulled :: rat where "receiptTimeoutCulled \<equiv> -1"
abbreviation (input) ExplLength :: nat where "ExplLength \<equiv> 256 div 8 + 64"
abbreviation (input) ImplLength :: nat where "ImplLength \<equiv> 64"

text \<open>The callbacks an operation runs, in order.\<close>

datatype receipt_event = TimeoutCallback | DeliveryCallback

definition fire_delivery :: "packet_receipt \<Rightarrow> receipt_event list" where
  "fire_delivery r = (if rcpt_deliveryCallback r then [DeliveryCallback] else [])"

definition fire_timeout :: "packet_receipt \<Rightarrow> receipt_event list" where
  "fire_timeout r = (if rcpt_timeoutCallback r then [TimeoutCallback] else [])"

definition receipt_delivered :: "rat \<Rightarrow> packet_receipt \<Rightarrow> packet_receipt" where
  "receipt_delivered now r = r\<lparr>rcpt_Status := ReceiptDelivered, rcpt_Proved := True, rcpt_ConcludedAt := now\<rparr>"

text \<open>
  \<^verbatim>\<open>ValidateLinkProof\<close> slices the proof before it checks its length. A Go slice may be
  re-sliced up to its capacity \<open>cap\<close>, beyond its length; \<open>None\<close> is the run-time panic. The link's
  signature check is an argument.
\<close>

definition ValidateLinkProof ::
  "(bytes \<Rightarrow> bytes \<Rightarrow> bool) \<Rightarrow> rat \<Rightarrow> nat \<Rightarrow> bytes \<Rightarrow> packet_receipt
     \<Rightarrow> (packet_receipt \<times> receipt_event list \<times> bool) option" where
  "ValidateLinkProof link_verify now cap proof_bytes r =
     (if cap < 32 then None
      else if length proof_bytes < ExplLength then Some (r, [], False)
      else
        let proofHash = take 32 proof_bytes; signature = go_slice 32 (32 + 64) proof_bytes in
        if proofHash = rcpt_Hash r \<and> link_verify signature (rcpt_Hash r)
        then Some (receipt_delivered now r, fire_delivery r, True)
        else Some (r, [], False))"

text \<open>\<open>id_verify\<close> is \<open>None\<close> when the receipt's destination has no identity.\<close>

definition ValidateProof ::
  "(bytes \<Rightarrow> bytes \<Rightarrow> bool) option \<Rightarrow> rat \<Rightarrow> bytes \<Rightarrow> packet_receipt
     \<Rightarrow> packet_receipt \<times> receipt_event list \<times> bool" where
  "ValidateProof id_verify now proof_bytes r =
     (case (if length proof_bytes \<ge> ExplLength then
              (if take 32 proof_bytes = rcpt_Hash r then Some (go_slice 32 (32 + 64) proof_bytes) else None)
            else if length proof_bytes = ImplLength then Some (take ImplLength proof_bytes)
            else None) of
        None \<Rightarrow> (r, [], False)
      | Some signature \<Rightarrow>
          (case id_verify of
             None \<Rightarrow> (r, [], False)
           | Some verify \<Rightarrow>
               if verify signature (rcpt_Hash r) then (receipt_delivered now r, fire_delivery r, True)
               else (r, [], False)))"

definition SetTimeout :: "rat \<Rightarrow> packet_receipt \<Rightarrow> packet_receipt" where
  "SetTimeout timeout r = r\<lparr>rcpt_Timeout := timeout\<rparr>"

definition MarkSent :: "rat \<Rightarrow> packet_receipt \<Rightarrow> packet_receipt" where
  "MarkSent sentAt r = r\<lparr>rcpt_Sent := True, rcpt_SentAt := sentAt, rcpt_Status := ReceiptSent\<rparr>"

definition TriggerDelivery :: "packet_receipt \<Rightarrow> packet_receipt \<times> receipt_event list" where
  "TriggerDelivery r = (r\<lparr>rcpt_Proved := True, rcpt_Status := ReceiptDelivered\<rparr>, fire_delivery r)"

definition TriggerTimeout :: "packet_receipt \<Rightarrow> packet_receipt \<times> receipt_event list" where
  "TriggerTimeout r = (r\<lparr>rcpt_Status := ReceiptFailed\<rparr>, fire_timeout r)"

definition receipt_CheckTimeout :: "rat \<Rightarrow> packet_receipt \<Rightarrow> packet_receipt \<times> receipt_event list \<times> bool" where
  "receipt_CheckTimeout now r =
     (if rcpt_Status r \<noteq> ReceiptSent \<or> now \<le> rcpt_SentAt r + rcpt_Timeout r then (r, [], False)
      else
        let r' = r\<lparr>rcpt_Status := (if rcpt_Timeout r = receiptTimeoutCulled then ReceiptCulled else ReceiptFailed),
                   rcpt_ConcludedAt := now\<rparr>
        in (r', fire_timeout r, True))"

section \<open>The flag byte\<close>

definition flag_byte :: "int \<Rightarrow> int \<Rightarrow> int \<Rightarrow> int \<Rightarrow> int \<Rightarrow> byte" where
  "flag_byte h c t d ty =
     word_of_int (push_bit 6 h OR push_bit 5 c OR push_bit 4 t OR push_bit 2 d OR ty)"

lemma calculatePackedFlags_flag_byte:
  "calculatePackedFlags p = flag_byte (HeaderType p) (ContextFlag p) (TransportType p)
     (if Context p = ContextLrproof then DestinationLink
      else case Destination p of None \<Rightarrow> DestinationPlain | Some d \<Rightarrow> dest_type d) (PacketType p)"
  by (simp add: calculatePackedFlags_def flag_byte_def Let_def)

lemma flag_byte_table:
  "list_all (\<lambda>(h, c, t, d, ty).
      uint (drop_bit 6 (flag_byte h c t d ty AND 0b01000000)) = h
    \<and> uint (drop_bit 5 (flag_byte h c t d ty AND 0b00100000)) = c
    \<and> uint (drop_bit 4 (flag_byte h c t d ty AND 0b00010000)) = t
    \<and> uint (drop_bit 2 (flag_byte h c t d ty AND 0b00001100)) = d
    \<and> uint (flag_byte h c t d ty AND 0b00000011) = ty
    \<and> flag_byte h c t d ty AND 0b00001111 = word_of_int (push_bit 2 d OR ty))
   (List.product [0, 1] (List.product [0, 1] (List.product [0, 1] (List.product [0, 1, 2, 3] [0, 1, 2, 3]))))"
  by code_simp

lemma flag_byte_fields:
  assumes "h \<in> {0, 1}" "c \<in> {0, 1}" "t \<in> {0, 1}" "d \<in> {0, 1, 2, 3}" "ty \<in> {0, 1, 2, 3}"
  shows "uint (drop_bit 6 (flag_byte h c t d ty AND 0b01000000)) = h"
    "uint (drop_bit 5 (flag_byte h c t d ty AND 0b00100000)) = c"
    "uint (drop_bit 4 (flag_byte h c t d ty AND 0b00010000)) = t"
    "uint (drop_bit 2 (flag_byte h c t d ty AND 0b00001100)) = d"
    "uint (flag_byte h c t d ty AND 0b00000011) = ty"
    "flag_byte h c t d ty AND 0b00001111 = word_of_int (push_bit 2 d OR ty)"
proof -
  have "(h, c, t, d, ty) \<in> set (List.product [0, 1] (List.product [0, 1] (List.product [0, 1]
      (List.product [0, 1, 2, 3] [0, 1, 2, 3]))))"
    using assms by (simp only: set_product mem_Sigma_iff list.set)
  with flag_byte_table show "uint (drop_bit 6 (flag_byte h c t d ty AND 0b01000000)) = h"
    "uint (drop_bit 5 (flag_byte h c t d ty AND 0b00100000)) = c"
    "uint (drop_bit 4 (flag_byte h c t d ty AND 0b00010000)) = t"
    "uint (drop_bit 2 (flag_byte h c t d ty AND 0b00001100)) = d"
    "uint (flag_byte h c t d ty AND 0b00000011) = ty"
    "flag_byte h c t d ty AND 0b00001111 = word_of_int (push_bit 2 d OR ty)"
    unfolding list_all_iff by blast+
qed

text \<open>The low four bits of the flags, the only ones that enter the packet hash.\<close>

lemma flags_low_table:
  "list_all (\<lambda>i. let f = word_of_nat i :: byte; d = uint (drop_bit 2 (f AND 0b00001100)); ty = uint (f AND 0b00000011)
     in d \<in> {0, 1, 2, 3} \<and> ty \<in> {0, 1, 2, 3} \<and> word_of_int (push_bit 2 d OR ty) = f AND 0b00001111) [0..<256]"
  by code_simp

lemma flag_byte_of_flags:
  fixes f :: byte
  assumes "h \<in> {0, 1}" "c \<in> {0, 1}" "t \<in> {0, 1}"
  shows "flag_byte h c t (uint (drop_bit 2 (f AND 0b00001100))) (uint (f AND 0b00000011)) AND 0b00001111
     = f AND 0b00001111"
  using byte_table [OF flags_low_table, of f] flag_byte_fields(6) [OF assms] by (simp only: Let_def)

section \<open>Packing and unpacking\<close>

lemma pack_finish_ok:
  assumes "pack_finish header p = (q, None)"
  shows "Raw q = header @ [word_of_int (Context p)] @ Ciphertext q \<and> HeaderType q = HeaderType p
    \<and> packet_GetHash q = Some (PacketHash q)"
  using assms
  by (auto simp: pack_finish_def Let_def UpdateHash_def packet_GetHash_def GetHashablePart_def
      split: if_splits)

text \<open>The layout of a packed packet: transport id (second header type only), destination, context, ciphertext.\<close>

lemma calculatePackedFlags_frame [simp]:
  "calculatePackedFlags (p\<lparr>DestinationHash := x\<rparr>) = calculatePackedFlags p"
  "calculatePackedFlags (p\<lparr>DestinationType := y\<rparr>) = calculatePackedFlags p"
  by (simp_all add: calculatePackedFlags_def)

lemma Pack_header1:
  assumes "Pack p = (q, None)" and "Destination p = Some d" and "HeaderType p = Header1"
  shows "Raw q = [calculatePackedFlags p, word_of_int (Hops p)] @ dest_hash d
        @ [word_of_int (Context p)] @ Ciphertext q
    \<and> HeaderType q = Header1 \<and> packet_GetHash q = Some (PacketHash q)"
proof -
  have "\<exists>c. pack_finish ([calculatePackedFlags p, word_of_int (Hops p)] @ dest_hash d)
      (p\<lparr>DestinationHash := dest_hash d, Flags := calculatePackedFlags p, Ciphertext := c\<rparr>) = (q, None)"
    using assms by (simp add: Pack_def Let_def split: if_splits option.splits) blast+
  then show ?thesis using assms by (auto dest: pack_finish_ok)
qed

lemma Pack_header2:
  assumes "Pack p = (q, None)" and "Destination p = Some d" and "HeaderType p = Header2"
  shows "\<exists>tid. TransportID p = Some tid
    \<and> Raw q = [calculatePackedFlags p, word_of_int (Hops p)] @ tid @ dest_hash d
        @ [word_of_int (Context p)] @ Data p
    \<and> Ciphertext q = Data p \<and> HeaderType q = Header2 \<and> packet_GetHash q = Some (PacketHash q)"
proof -
  have "HeaderType p \<noteq> Header1" using assms(3) by (simp add: packet_consts)
  then obtain tid where tid: "TransportID p = Some tid"
    and fin: "pack_finish ([calculatePackedFlags p, word_of_int (Hops p)] @ tid @ dest_hash d)
      (p\<lparr>DestinationHash := dest_hash d, Flags := calculatePackedFlags p, Ciphertext := Data p\<rparr>) = (q, None)"
    using assms by (simp add: Pack_def Let_def split: if_splits option.splits)
  have "Ciphertext q = Data p"
    using fin by (auto simp: pack_finish_def Let_def UpdateHash_def split: if_splits option.splits)
  with pack_finish_ok [OF fin] tid assms(3) show ?thesis by simp
qed

lemma Unpack_layout1:
  assumes "Raw p = f # h # dst @ c # data" and "length dst = dstLen" and "uint h < PathfinderM"
    and "uint (drop_bit 6 (f AND 0b01000000)) = Header1"
  shows "Unpack p =
    (p\<lparr>Flags := f, Hops := uint h, HeaderType := Header1,
       ContextFlag := uint (drop_bit 5 (f AND 0b00100000)),
       TransportType := uint (drop_bit 4 (f AND 0b00010000)),
       DestinationType := uint (drop_bit 2 (f AND 0b00001100)),
       PacketType := uint (f AND 0b00000011),
       TransportID := None, DestinationHash := dst, Context := uint c, Data := data, Packed := False,
       PacketHash := FullHash ((f AND 0b00001111) # dst @ c # data)\<rparr>, None)"
  using assms
  by (simp add: Unpack_def Let_def UpdateHash_def packet_GetHash_def GetHashablePart_def
      go_slice_def nth_append packet_consts)

lemma Unpack_layout2:
  assumes "Raw p = f # h # tid @ dst @ c # data" and "length tid = dstLen" and "length dst = dstLen"
    and "uint h < PathfinderM" and "uint (drop_bit 6 (f AND 0b01000000)) = Header2"
  shows "Unpack p =
    (p\<lparr>Flags := f, Hops := uint h, HeaderType := Header2,
       ContextFlag := uint (drop_bit 5 (f AND 0b00100000)),
       TransportType := uint (drop_bit 4 (f AND 0b00010000)),
       DestinationType := uint (drop_bit 2 (f AND 0b00001100)),
       PacketType := uint (f AND 0b00000011),
       TransportID := Some tid, DestinationHash := dst, Context := uint c, Data := data, Packed := False,
       PacketHash := FullHash ((f AND 0b00001111) # dst @ c # data)\<rparr>, None)"
  using assms
  by (simp add: Unpack_def Let_def UpdateHash_def packet_GetHash_def GetHashablePart_def
      go_slice_def nth_append packet_consts)

section \<open>Properties of packets\<close>

text \<open>The field ranges the header has room for.\<close>

definition packet_wf :: "packet_dest \<Rightarrow> packet \<Rightarrow> bool" where
  "packet_wf d p \<longleftrightarrow> Destination p = Some d \<and> length (dest_hash d) = dstLen
     \<and> HeaderType p \<in> {0, 1} \<and> ContextFlag p \<in> {0, 1} \<and> TransportType p \<in> {0, 1}
     \<and> dest_type d \<in> {0, 1, 2, 3} \<and> PacketType p \<in> {0, 1, 2, 3}
     \<and> 0 \<le> Hops p \<and> Hops p < PathfinderM \<and> 0 \<le> Context p \<and> Context p < 256
     \<and> (HeaderType p = Header2 \<longrightarrow> (\<exists>tid. TransportID p = Some tid \<and> length tid = dstLen))"

lemma uint_byte_of_int: "0 \<le> n \<Longrightarrow> n < 256 \<Longrightarrow> uint (word_of_int n :: byte) = n"
  by (simp add: uint_word_of_int_eq take_bit_eq_mod)

lemma packet_wf_flags:
  assumes "packet_wf d p"
  shows "uint (drop_bit 6 (calculatePackedFlags p AND 0b01000000)) = HeaderType p"
    "uint (drop_bit 5 (calculatePackedFlags p AND 0b00100000)) = ContextFlag p"
    "uint (drop_bit 4 (calculatePackedFlags p AND 0b00010000)) = TransportType p"
    "uint (drop_bit 2 (calculatePackedFlags p AND 0b00001100)) =
       (if Context p = ContextLrproof then DestinationLink else dest_type d)"
    "uint (calculatePackedFlags p AND 0b00000011) = PacketType p"
proof -
  let ?d = "if Context p = ContextLrproof then DestinationLink else dest_type d"
  have fb: "calculatePackedFlags p = flag_byte (HeaderType p) (ContextFlag p) (TransportType p) ?d (PacketType p)"
    using assms by (simp add: calculatePackedFlags_flag_byte packet_wf_def)
  have "?d \<in> {0, 1, 2, 3}" using assms by (simp add: packet_wf_def packet_consts)
  with assms show "uint (drop_bit 6 (calculatePackedFlags p AND 0b01000000)) = HeaderType p"
    "uint (drop_bit 5 (calculatePackedFlags p AND 0b00100000)) = ContextFlag p"
    "uint (drop_bit 4 (calculatePackedFlags p AND 0b00010000)) = TransportType p"
    "uint (drop_bit 2 (calculatePackedFlags p AND 0b00001100)) = ?d"
    "uint (calculatePackedFlags p AND 0b00000011) = PacketType p"
    unfolding fb packet_wf_def by (intro flag_byte_fields; blast)+
qed

lemma unpack_of_pack:
  assumes wf: "packet_wf d p" and pack: "Pack p = (q, None)"
  shows "\<exists>u. Unpack (NewPacketFromRaw (Raw q)) = (u, None)
    \<and> Hops u = Hops p \<and> HeaderType u = HeaderType p \<and> ContextFlag u = ContextFlag p
    \<and> TransportType u = TransportType p \<and> PacketType u = PacketType p
    \<and> DestinationType u = (if Context p = ContextLrproof then DestinationLink else dest_type d)
    \<and> TransportID u = (if HeaderType p = Header2 then TransportID p else None)
    \<and> DestinationHash u = dest_hash d \<and> Context u = Context p
    \<and> Data u = Ciphertext q \<and> PacketHash u = PacketHash q"
proof -
  have d: "Destination p = Some d" "length (dest_hash d) = dstLen" using wf by (auto simp: packet_wf_def)
  have ints: "uint (word_of_int (Hops p) :: byte) = Hops p" "Hops p < PathfinderM"
      "uint (word_of_int (Context p) :: byte) = Context p"
    using wf by (auto simp: packet_wf_def PathfinderM_def intro!: uint_byte_of_int)
  consider "HeaderType p = Header1" | "HeaderType p = Header2"
    using wf by (auto simp: packet_wf_def packet_consts)
  then show ?thesis
  proof cases
    case 1
    note q = Pack_header1 [OF pack d(1) 1]
    have raw: "Raw (NewPacketFromRaw (Raw q)) = calculatePackedFlags p # word_of_int (Hops p)
        # dest_hash d @ word_of_int (Context p) # Ciphertext q"
      using q by (simp add: NewPacketFromRaw_def)
    have "PacketHash q = FullHash ((calculatePackedFlags p AND 0b00001111) # dest_hash d
        @ word_of_int (Context p) # Ciphertext q)"
      using q by (auto simp: packet_GetHash_def GetHashablePart_def packet_consts Let_def)
    moreover have "Header1 \<noteq> Header2" by (simp add: packet_consts)
    ultimately show ?thesis
      using Unpack_layout1 [OF raw d(2)] packet_wf_flags [OF wf] ints 1 by simp
  next
    case 2
    then obtain tid where t: "TransportID p = Some tid" "length tid = dstLen" using wf by (auto simp: packet_wf_def)
    note q = Pack_header2 [OF pack d(1) 2]
    have raw: "Raw (NewPacketFromRaw (Raw q)) = calculatePackedFlags p # word_of_int (Hops p)
        # tid @ dest_hash d @ word_of_int (Context p) # Data p"
      using q t by (simp add: NewPacketFromRaw_def)
    have "PacketHash q = FullHash ((calculatePackedFlags p AND 0b00001111) # dest_hash d
        @ word_of_int (Context p) # Data p)"
      using q t by (auto simp: packet_GetHash_def GetHashablePart_def packet_consts Let_def split: if_splits)
    then show ?thesis
      using Unpack_layout2 [OF raw t(2) d(2)] packet_wf_flags [OF wf] ints 2 t q by simp
  qed
qed

text \<open>
  C17: Unpacking the bytes that \<^verbatim>\<open>Pack\<close> produced gives back every header field, the destination
  and transport hashes, the ciphertext as the data, and the same packet hash, for every packet
  whose fields fit the header.
\<close>

theorem unpack_pack:
  assumes wf: "packet_wf d p" and pack: "Pack p = (q, None)"
  shows "\<exists>u. Unpack (NewPacketFromRaw (Raw q)) = (u, None)
    \<and> Hops u = Hops p \<and> HeaderType u = HeaderType p \<and> ContextFlag u = ContextFlag p
    \<and> TransportType u = TransportType p \<and> PacketType u = PacketType p
    \<and> DestinationType u = (if Context p = ContextLrproof then DestinationLink else dest_type d)
    \<and> TransportID u = (if HeaderType p = Header2 then TransportID p else None)
    \<and> DestinationHash u = dest_hash d \<and> Context u = Context p
    \<and> Data u = Ciphertext q \<and> PacketHash u = PacketHash q"
  by (rule unpack_of_pack [OF assms])

definition demo_dest :: packet_dest where
  "demo_dest = \<lparr>dest_hash = replicate 16 7, dest_type = 0, dest_transport = True,
     dest_encrypt = (\<lambda>b. Some (0xAA # b)), dest_link_closed = None\<rparr>"

definition demo_packet :: packet where
  "demo_packet = NewPacketWithTransport True (Some demo_dest) [1, 2, 3]"

theorem unpack_pack_witness:
  "\<exists>u. Unpack (NewPacketFromRaw (Raw (fst (Pack demo_packet)))) = (u, None) \<and> Data u = [0xAA, 1, 2, 3]"
proof -
  have wf: "packet_wf demo_dest demo_packet"
    by (simp add: packet_wf_def demo_packet_def NewPacketWithTransport_def demo_dest_def packet_consts
        empty_packet_def Let_def)
  have "snd (Pack demo_packet) = None" "Ciphertext (fst (Pack demo_packet)) = [0xAA, 1, 2, 3]"
    by (simp_all add: Pack_def demo_packet_def NewPacketWithTransport_def demo_dest_def packet_consts
        empty_packet_def Let_def should_encrypt_def pack_finish_def UpdateHash_def
        packet_GetHash_def GetHashablePart_def MTU_def)
  then have "Pack demo_packet = (fst (Pack demo_packet), None)" by (simp add: prod_eq_iff)
  from unpack_pack [OF wf this] show ?thesis
    using \<open>Ciphertext (fst (Pack demo_packet)) = [0xAA, 1, 2, 3]\<close> by auto
qed

section \<open>Properties of receipts\<close>

text \<open>The timeout sweeps a receipt sees; each returns whether it fired and the callbacks it ran.\<close>

fun timeout_sweeps :: "rat list \<Rightarrow> packet_receipt \<Rightarrow> packet_receipt \<times> receipt_event list" where
  "timeout_sweeps [] r = (r, [])"
| "timeout_sweeps (now # nows) r =
     (case receipt_CheckTimeout now r of (r1, ev1, fired) \<Rightarrow>
        (case timeout_sweeps nows r1 of (r2, ev2) \<Rightarrow> (r2, ev1 @ ev2)))"

lemma sweeps_concluded: "rcpt_Status r \<noteq> ReceiptSent \<Longrightarrow> timeout_sweeps nows r = (r, [])"
  by (induction nows) (auto simp: receipt_CheckTimeout_def)

text \<open>
  However often and by whomever a receipt is swept, its timeout callback runs at most once: the
  first sweep after the deadline of a sent receipt concludes it as failed (or culled, for the sentinel
  timeout), and every other sweep leaves it alone, delivered receipts included.
\<close>

theorem receipt_times_out_once:
  "timeout_sweeps nows r =
     (case filter (\<lambda>now. rcpt_Status r = ReceiptSent \<and> rcpt_SentAt r + rcpt_Timeout r < now) nows of
        [] \<Rightarrow> (r, [])
      | now # _ \<Rightarrow>
          (r\<lparr>rcpt_Status := (if rcpt_Timeout r = receiptTimeoutCulled then ReceiptCulled else ReceiptFailed),
             rcpt_ConcludedAt := now\<rparr>, fire_timeout r))"
proof (induction nows)
  case (Cons now nows)
  show ?case
  proof (cases "rcpt_Status r = ReceiptSent \<and> rcpt_SentAt r + rcpt_Timeout r < now")
    case True
    then have "receipt_CheckTimeout now r =
        (r\<lparr>rcpt_Status := (if rcpt_Timeout r = receiptTimeoutCulled then ReceiptCulled else ReceiptFailed),
           rcpt_ConcludedAt := now\<rparr>, fire_timeout r, True)"
      by (simp add: receipt_CheckTimeout_def Let_def)
    with True show ?thesis by (simp add: sweeps_concluded)
  next
    case False
    then have "receipt_CheckTimeout now r = (r, [], False)" by (auto simp: receipt_CheckTimeout_def)
    with False Cons show ?thesis by (auto split: list.splits)
  qed
qed simp

text \<open>
  C26: A link receipt is concluded only by proof: with room for the hash in the slice, it becomes
  delivered exactly when the proof is an explicit one over this packet's own hash and the link's
  signature check accepts it, and otherwise nothing about it changes. The slice is taken before the
  length is checked, so a proof of fewer than 32 bytes with no spare capacity behind it is a panic.
\<close>

theorem link_proof_decides_delivery:
  assumes "length proof_bytes \<le> cap"
  shows "ValidateLinkProof link_verify now cap proof_bytes r =
    (if cap < 32 then None
     else if \<exists>sig rest. proof_bytes = rcpt_Hash r @ sig @ rest \<and> length (rcpt_Hash r) = 32 \<and> length sig = 64
               \<and> link_verify sig (rcpt_Hash r)
     then Some (receipt_delivered now r, fire_delivery r, True)
     else Some (r, [], False))"
proof (cases "length proof_bytes < ExplLength")
  case True
  then show ?thesis by (auto simp: ValidateLinkProof_def)
next
  case False
  let ?h = "take 32 proof_bytes" and ?s = "go_slice 32 (32 + 64) proof_bytes"
  have parts: "proof_bytes = ?h @ ?s @ drop 96 proof_bytes" "length ?h = 32" "length ?s = 64"
    using False by (simp_all add: go_slice_def append_assoc [symmetric] take_add [symmetric])
  have "(\<exists>sig rest. proof_bytes = rcpt_Hash r @ sig @ rest \<and> length (rcpt_Hash r) = 32 \<and> length sig = 64
      \<and> link_verify sig (rcpt_Hash r)) \<longleftrightarrow> ?h = rcpt_Hash r \<and> link_verify ?s (rcpt_Hash r)"
    (is "?L \<longleftrightarrow> ?R")
  proof
    assume ?L
    then obtain sg rest where "proof_bytes = rcpt_Hash r @ sg @ rest" "length (rcpt_Hash r) = 32"
      "length sg = 64" "link_verify sg (rcpt_Hash r)" by blast
    then show ?R by (simp add: go_slice_def)
  next
    assume ?R
    with parts show ?L by metis
  qed
  with False assms show ?thesis by (simp add: ValidateLinkProof_def)
qed

theorem link_proof_decides_delivery_witness:
  "ValidateLinkProof (\<lambda>_ _. True) 0 20 (replicate 20 0) (the (new_receipt (demo_packet\<lparr>Raw := [1, 2, 3]\<rparr>))) = None"
  using link_proof_decides_delivery [of "replicate 20 0" 20] by simp

end
