(* ===== verification/Channel.thy ===== *)
theory Channel
  imports Packet
begin

text \<open>
  Channels (\<^verbatim>\<open>rns/channel.go\<close>): sequenced, reliable delivery of messages over a link. The state
  is the two rings of envelopes, the 16-bit sequence counters and the transmission window. A
  message is a value of an arbitrary type; its type code, its serialisation and the registered
  factories are arguments, as the outlet's answers are. Methods that hold the channel's mutex are
  one step each.
\<close>

section \<open>Envelopes\<close>

text \<open>What the channel sees of a sent packet: its on-wire identity and its receipt.\<close>

record channel_packet =
  cp_id :: "bytes option"
  cp_receipt :: "packet_receipt option"

record 'm envelope =
  env_Message :: "'m option"
  env_Raw :: bytes
  env_Packet :: "channel_packet option"
  env_Sequence :: uint16
  env_Tries :: int
  env_tracked :: bool

record 'm message_codec =
  GetMsgType :: "'m \<Rightarrow> uint16"
  msg_Pack :: "'m \<Rightarrow> bytes option"

datatype channel_error =
    EnvelopeTooShort
  | EnvelopeTruncated
  | UnknownMessageType uint16
  | MessageUnpack
  | MessagePack
  | NotReadyToSend
  | MessageTooBig nat int
  | OutletSend
  | TxRingPlace

definition put_uint16 :: "uint16 \<Rightarrow> bytes" where
  "put_uint16 v = [ucast (drop_bit 8 v), ucast v]"

definition get_uint16 :: "bytes \<Rightarrow> uint16" where
  "get_uint16 bs = push_bit 8 (ucast (bs ! 0)) OR ucast (bs ! 1)"

definition envelope_Pack :: "'m message_codec \<Rightarrow> uint16 \<Rightarrow> 'm \<Rightarrow> bytes option" where
  "envelope_Pack codec sequence msg =
     (case msg_Pack codec msg of
        None \<Rightarrow> None
      | Some data \<Rightarrow>
          Some (put_uint16 (GetMsgType codec msg) @ put_uint16 sequence @ put_uint16 (word_of_nat (length data)) @ data))"

definition envelope_Unpack ::
  "(uint16 \<Rightarrow> (bytes \<Rightarrow> 'm option) option) \<Rightarrow> bytes \<Rightarrow> channel_error + (uint16 \<times> 'm)" where
  "envelope_Unpack factories raw =
     (if length raw < 6 then Inl EnvelopeTooShort
      else
        let msgType = get_uint16 (go_slice 0 2 raw);
            sequence = get_uint16 (go_slice 2 4 raw);
            len = unat (get_uint16 (go_slice 4 6 raw))
        in if length raw < 6 + len then Inl EnvelopeTruncated
           else case factories msgType of
             None \<Rightarrow> Inl (UnknownMessageType msgType)
           | Some factory \<Rightarrow>
               (case factory (go_slice 6 (6 + len) raw) of
                  None \<Rightarrow> Inl MessageUnpack
                | Some msg \<Rightarrow> Inr (sequence, msg)))"

section \<open>The channel\<close>

abbreviation (input) ChannelWindowDefault :: int where "ChannelWindowDefault \<equiv> 4"
abbreviation (input) ChannelWindowMin :: int where "ChannelWindowMin \<equiv> 2"
abbreviation (input) ChannelWindowMinMedium :: int where "ChannelWindowMinMedium \<equiv> 5"
abbreviation (input) ChannelWindowMinFast :: int where "ChannelWindowMinFast \<equiv> 16"
abbreviation (input) ChannelWindowMaxSlow :: int where "ChannelWindowMaxSlow \<equiv> 5"
abbreviation (input) ChannelWindowMaxMedium :: int where "ChannelWindowMaxMedium \<equiv> 12"
abbreviation (input) ChannelWindowMaxFast :: int where "ChannelWindowMaxFast \<equiv> 48"
abbreviation (input) ChannelSeqMax :: nat where "ChannelSeqMax \<equiv> 0xFFFF"
abbreviation (input) ChannelFastRateRounds :: int where "ChannelFastRateRounds \<equiv> 10"
abbreviation (input) ChannelRTTFast :: rat where "ChannelRTTFast \<equiv> 18 / 100"
abbreviation (input) ChannelRTTMedium :: rat where "ChannelRTTMedium \<equiv> 75 / 100"
abbreviation (input) ChannelRTTSlow :: rat where "ChannelRTTSlow \<equiv> 145 / 100"

record 'm channel =
  txRing :: "'m envelope list"
  rxRing :: "'m envelope list"
  messageHandlers :: "(uint64 \<times> ('m \<Rightarrow> bool)) list"
  nextHandlerID :: uint64
  nextSequence :: uint16
  nextRXSequence :: uint16
  messageFactories :: "uint16 \<Rightarrow> (bytes \<Rightarrow> 'm option) option"
  maxTries :: int
  window :: int
  windowMax :: int
  windowMin :: int
  windowFlexibility :: int
  fastRateRounds :: int
  mediumRateRounds :: int

definition NewChannel :: "rat \<Rightarrow> 'm channel" where
  "NewChannel rtt =
     (let c = \<lparr>txRing = [], rxRing = [], messageHandlers = [], nextHandlerID = 0, nextSequence = 0, nextRXSequence = 0,
               messageFactories = (\<lambda>_. None), maxTries = 5, window = ChannelWindowDefault,
               windowMax = ChannelWindowMaxSlow, windowMin = ChannelWindowMin, windowFlexibility = 4,
               fastRateRounds = 0, mediumRateRounds = 0\<rparr>
      in if rtt > ChannelRTTSlow
         then c\<lparr>window := 1, windowMax := 1, windowMin := 1, windowFlexibility := 1\<rparr> else c)"

definition RegisterMessageType :: "uint16 \<Rightarrow> (bytes \<Rightarrow> 'm option) \<Rightarrow> 'm channel \<Rightarrow> 'm channel" where
  "RegisterMessageType msgType factory c =
     c\<lparr>messageFactories := (messageFactories c)(msgType := Some factory)\<rparr>"

definition addMessageHandler :: "('m \<Rightarrow> bool) \<Rightarrow> 'm channel \<Rightarrow> 'm channel \<times> uint64" where
  "addMessageHandler handler c =
     (let handlerID = nextHandlerID c + 1
      in (c\<lparr>nextHandlerID := handlerID, messageHandlers := messageHandlers c @ [(handlerID, handler)]\<rparr>, handlerID))"

fun remove_handler :: "uint64 \<Rightarrow> (uint64 \<times> ('m \<Rightarrow> bool)) list \<Rightarrow> (uint64 \<times> ('m \<Rightarrow> bool)) list" where
  "remove_handler handlerID [] = []"
| "remove_handler handlerID (entry # entries) =
     (if fst entry = handlerID then entries else entry # remove_handler handlerID entries)"

definition removeMessageHandlerByID :: "uint64 \<Rightarrow> 'm channel \<Rightarrow> 'm channel" where
  "removeMessageHandlerByID handlerID c = c\<lparr>messageHandlers := remove_handler handlerID (messageHandlers c)\<rparr>"

text \<open>The loop of \<^verbatim>\<open>emplaceEnvelope\<close>; \<open>None\<close> reports a duplicate. The subtraction is on 16-bit words.\<close>

fun emplace_loop :: "uint16 \<Rightarrow> 'm envelope \<Rightarrow> 'm envelope list \<Rightarrow> 'm envelope list option" where
  "emplace_loop nextRX env [] = Some [env\<lparr>env_tracked := True\<rparr>]"
| "emplace_loop nextRX env (existing # ring) =
     (if env_Sequence env = env_Sequence existing then None
      else if env_Sequence env < env_Sequence existing
              \<and> \<not> unat (nextRX - env_Sequence env) > ChannelSeqMax div 2
      then Some (env\<lparr>env_tracked := True\<rparr> # existing # ring)
      else map_option (\<lambda>r. existing # r) (emplace_loop nextRX env ring))"

definition emplaceEnvelope :: "uint16 \<Rightarrow> 'm envelope \<Rightarrow> 'm envelope list \<Rightarrow> 'm envelope list option" where
  "emplaceEnvelope nextRX env ring = emplace_loop nextRX env ring"

definition getPacketTimeoutSeconds :: "rat \<Rightarrow> nat \<Rightarrow> int \<Rightarrow> rat" where
  "getPacketTimeoutSeconds rtt ringLen tries =
     (3 / 2) powi (tries - 1) * max (rtt * (5 / 2)) (25 / 1000) * (of_nat ringLen + 3 / 2)"

definition set_timeout :: "rat \<Rightarrow> 'm envelope \<Rightarrow> 'm envelope" where
  "set_timeout t env =
     env\<lparr>env_Packet := map_option (\<lambda>p. p\<lparr>cp_receipt := map_option (SetTimeout t) (cp_receipt p)\<rparr>) (env_Packet env)\<rparr>"

definition rearm :: "rat \<Rightarrow> 'm envelope \<Rightarrow> 'm envelope" where
  "rearm t env =
     env\<lparr>env_Packet := map_option (\<lambda>p. p\<lparr>cp_receipt := map_option (\<lambda>r.
        SetTimeout t (r\<lparr>rcpt_deliveryCallback := True, rcpt_timeoutCallback := True\<rparr>)) (cp_receipt p)\<rparr>) (env_Packet env)\<rparr>"

definition env_receipt :: "'m envelope \<Rightarrow> packet_receipt option" where
  "env_receipt env = Option.bind (env_Packet env) cp_receipt"

definition updatePacketTimeouts :: "rat \<Rightarrow> 'm channel \<Rightarrow> 'm channel" where
  "updatePacketTimeouts rtt c =
     c\<lparr>txRing := map (\<lambda>env.
          case env_receipt env of
            None \<Rightarrow> env
          | Some r \<Rightarrow>
              let updatedTimeout = getPacketTimeoutSeconds rtt (length (txRing c)) (env_Tries env)
              in if updatedTimeout > rcpt_Timeout r then set_timeout updatedTimeout env else env) (txRing c)\<rparr>"

definition isReadyToSend :: "bool \<Rightarrow> 'm channel \<Rightarrow> bool" where
  "isReadyToSend usable c = (if \<not> usable then False else int (length (txRing c)) < window c)"

section \<open>Sending\<close>

text \<open>
  The receipt of a freshly sent packet is armed: hashes filled in, marked sent, callbacks and
  timeout set. \<open>hash\<close> and \<open>truncHash\<close> are the packet's hashes and \<open>sentAt\<close> the send time used.
\<close>

definition arm_receipt :: "bytes \<Rightarrow> bytes \<Rightarrow> rat \<Rightarrow> rat \<Rightarrow> packet_receipt \<Rightarrow> packet_receipt" where
  "arm_receipt hash truncHash sentAt timeout r =
     (let r = (if rcpt_Hash r = [] then r\<lparr>rcpt_Hash := hash\<rparr> else r);
          r = (if rcpt_TruncatedHash r = [] then r\<lparr>rcpt_TruncatedHash := truncHash\<rparr> else r);
          r = MarkSent sentAt r
      in SetTimeout timeout (r\<lparr>rcpt_deliveryCallback := True, rcpt_timeoutCallback := True\<rparr>))"

text \<open>What the outlet's \<^verbatim>\<open>Send\<close> returned: nothing (an error or no packet), or a packet with its hashes and send time.\<close>

record outlet_packet =
  op_packet :: channel_packet
  op_hash :: bytes
  op_truncHash :: bytes
  op_sentAt :: rat

record outlet =
  out_usable :: bool
  out_MDU :: int
  out_RTT :: rat

definition channel_Send ::
  "'m message_codec \<Rightarrow> outlet \<Rightarrow> (bytes \<Rightarrow> outlet_packet option) \<Rightarrow> 'm \<Rightarrow> 'm channel
     \<Rightarrow> 'm channel \<times> (channel_error + bytes)" where
  "channel_Send codec out outlet_send msg c =
     (if \<not> isReadyToSend (out_usable out) c then (c, Inl NotReadyToSend)
      else
        let reservedSequence = nextSequence c in
        (case envelope_Pack codec reservedSequence msg of
           None \<Rightarrow> (c, Inl MessagePack)
         | Some raw \<Rightarrow>
             if int (length raw) > out_MDU out then (c, Inl (MessageTooBig (length raw) (out_MDU out)))
             else
               let c = c\<lparr>nextSequence := reservedSequence + 1\<rparr> in
               (case outlet_send raw of
                  None \<Rightarrow> (c\<lparr>nextSequence := reservedSequence\<rparr>, Inl OutletSend)
                | Some op \<Rightarrow>
                    (case cp_receipt (op_packet op) of
                       None \<Rightarrow> (c, Inr raw)
                     | Some r \<Rightarrow>
                         let timeout = getPacketTimeoutSeconds (out_RTT out) (length (txRing c)) 1;
                             r = arm_receipt (op_hash op) (op_truncHash op) (op_sentAt op) timeout r;
                             env = \<lparr>env_Message = Some msg, env_Raw = raw,
                                    env_Packet = Some ((op_packet op)\<lparr>cp_receipt := Some r\<rparr>),
                                    env_Sequence = reservedSequence, env_Tries = 1, env_tracked = False\<rparr>
                         in
                         (case emplaceEnvelope (nextRXSequence c) env (txRing c) of
                            None \<Rightarrow> (c\<lparr>nextSequence := reservedSequence\<rparr>, Inl TxRingPlace)
                          | Some ring \<Rightarrow>
                              (updatePacketTimeouts (out_RTT out) (c\<lparr>txRing := ring\<rparr>), Inr raw))))))"

section \<open>Delivery and timeout of sent packets\<close>

text \<open>The outlet's identity of an envelope's packet; an envelope without a packet has none.\<close>

definition GetPacketID :: "'m envelope \<Rightarrow> bytes option" where
  "GetPacketID env = Option.bind (env_Packet env) cp_id"

fun remove_delivered :: "bytes \<Rightarrow> 'm envelope list \<Rightarrow> 'm envelope list option" where
  "remove_delivered h [] = None"
| "remove_delivered h (env # ring) =
     (if GetPacketID env = Some h then Some ring
      else map_option (\<lambda>r. env # r) (remove_delivered h ring))"

definition adapt_rate :: "rat \<Rightarrow> 'm channel \<Rightarrow> 'm channel" where
  "adapt_rate rtt c =
     (if rtt = 0 then c
      else if rtt > ChannelRTTFast then
        (let c = c\<lparr>fastRateRounds := 0\<rparr> in
         if rtt > ChannelRTTMedium then c\<lparr>mediumRateRounds := 0\<rparr>
         else
           let c = c\<lparr>mediumRateRounds := mediumRateRounds c + 1\<rparr> in
           if windowMax c < ChannelWindowMaxMedium \<and> mediumRateRounds c \<ge> ChannelFastRateRounds
           then c\<lparr>windowMax := ChannelWindowMaxMedium, windowMin := ChannelWindowMinMedium\<rparr> else c)
      else
        let c = c\<lparr>fastRateRounds := fastRateRounds c + 1\<rparr> in
        if windowMax c < ChannelWindowMaxFast \<and> fastRateRounds c \<ge> ChannelFastRateRounds
        then c\<lparr>windowMax := ChannelWindowMaxFast, windowMin := ChannelWindowMinFast\<rparr> else c)"

definition packetDelivered :: "rat \<Rightarrow> packet_receipt \<Rightarrow> 'm channel \<Rightarrow> 'm channel" where
  "packetDelivered rtt pr c =
     (case remove_delivered (rcpt_Hash pr) (txRing c) of
        None \<Rightarrow> c
      | Some ring \<Rightarrow>
          let c = c\<lparr>txRing := ring\<rparr>;
              c = (if window c < windowMax c then c\<lparr>window := window c + 1\<rparr> else c)
          in adapt_rate rtt c)"

text \<open>
  \<^verbatim>\<open>clearRings\<close> also clears the callbacks of the receipts it drops; \<open>Shutdown\<close> leaves no envelope
  that carries one.
\<close>

definition clear_callbacks :: "'m envelope \<Rightarrow> 'm envelope" where
  "clear_callbacks env =
     env\<lparr>env_Packet := map_option (\<lambda>p. p\<lparr>cp_receipt := map_option (\<lambda>r.
        r\<lparr>rcpt_timeoutCallback := False, rcpt_deliveryCallback := False\<rparr>) (cp_receipt p)\<rparr>) (env_Packet env),
        env_tracked := False\<rparr>"

text \<open>The second component lists the dropped envelopes as they are left.\<close>

definition clearRings :: "'m channel \<Rightarrow> 'm channel \<times> 'm envelope list" where
  "clearRings c =
     (c\<lparr>txRing := [], rxRing := []\<rparr>,
      map clear_callbacks (txRing c) @ map (\<lambda>env. env\<lparr>env_tracked := False\<rparr>) (rxRing c))"

definition Shutdown :: "'m channel \<Rightarrow> 'm channel" where
  "Shutdown c = fst (clearRings (c\<lparr>messageHandlers := []\<rparr>))"

text \<open>The receipts the maintenance tick hands to \<^verbatim>\<open>CheckTimeout\<close>, in ring order.\<close>

definition due_receipts :: "rat \<Rightarrow> 'm channel \<Rightarrow> packet_receipt list" where
  "due_receipts now c =
     filter (\<lambda>r. rcpt_timeoutCallback r \<and> rcpt_SentAt r > 0 \<and> rcpt_Timeout r > 0
                \<and> now \<ge> rcpt_SentAt r + rcpt_Timeout r)
       (List.map_filter env_receipt (txRing c))"

datatype timeout_outcome = TimeoutIgnored | TimeoutResent | TimeoutTornDown

text \<open>The position of the envelope whose packet the receipt belongs to.\<close>

fun find_envelope :: "bytes \<Rightarrow> 'm envelope list \<Rightarrow> nat option" where
  "find_envelope h [] = None"
| "find_envelope h (env # ring) =
     (if GetPacketID env = Some h then Some 0 else map_option Suc (find_envelope h ring))"

definition shrink_window :: "'m channel \<Rightarrow> 'm channel" where
  "shrink_window c =
     (if window c > windowMin c then
        let c = c\<lparr>window := window c - 1\<rparr> in
        if windowMax c > windowMin c + windowFlexibility c then c\<lparr>windowMax := windowMax c - 1\<rparr> else c
      else c)"

text \<open>
  \<open>resend\<close> is what the outlet's \<^verbatim>\<open>Resend\<close> returned: an error, or possibly a new packet for the
  envelope. A delivery that landed during the resend runs the delivered path.
\<close>

definition resend_envelope ::
  "rat \<Rightarrow> (channel_packet \<Rightarrow> channel_packet option option) \<Rightarrow> nat \<Rightarrow> 'm channel \<Rightarrow> 'm channel" where
  "resend_envelope rtt resend i c =
     (case env_Packet (txRing c ! i) of
        None \<Rightarrow> c
      | Some packet \<Rightarrow>
          (case resend packet of
             None \<Rightarrow> c
           | Some newPacket \<Rightarrow>
               let env = (txRing c ! i)\<lparr>env_Packet := (case newPacket of None \<Rightarrow> Some packet | Some q \<Rightarrow> Some q)\<rparr>;
                   env = rearm (getPacketTimeoutSeconds rtt (length (txRing c)) (env_Tries env)) env;
                   c = c\<lparr>txRing := (txRing c)[i := env]\<rparr>
               in
               (case env_receipt env of
                  None \<Rightarrow> c
                | Some r \<Rightarrow> if rcpt_Proved r then packetDelivered rtt r c else c)))"

definition packetTimeout ::
  "rat \<Rightarrow> (channel_packet \<Rightarrow> channel_packet option option) \<Rightarrow> packet_receipt \<Rightarrow> 'm channel
     \<Rightarrow> 'm channel \<times> timeout_outcome" where
  "packetTimeout rtt resend pr c =
     (if rcpt_Proved pr then (c, TimeoutIgnored)
      else
        (case find_envelope (rcpt_Hash pr) (txRing c) of
           None \<Rightarrow> (c, TimeoutIgnored)
         | Some i \<Rightarrow>
             let env = txRing c ! i in
             if env_Tries env \<ge> maxTries c then (Shutdown c, TimeoutTornDown)
             else
               let env = env\<lparr>env_Tries := env_Tries env + 1\<rparr>;
                   c = shrink_window c;
                   env = set_timeout (getPacketTimeoutSeconds rtt (length (txRing c)) (env_Tries env)) env;
                   c = updatePacketTimeouts rtt (c\<lparr>txRing := (txRing c)[i := env]\<rparr>)
               in (resend_envelope rtt resend i c, TimeoutResent)))"

section \<open>Receiving\<close>

text \<open>Taking the contiguous prefix off the receive ring; the messages are delivered in that order.\<close>

fun take_contiguous :: "uint16 \<Rightarrow> 'm envelope list \<Rightarrow> uint16 \<times> 'm envelope list \<times> 'm envelope list" where
  "take_contiguous nextRX [] = (nextRX, [], [])"
| "take_contiguous nextRX (e # ring) =
     (if env_Sequence e = nextRX then
        (case take_contiguous (nextRX + 1) ring of (n, rest, out) \<Rightarrow> (n, rest, e # out))
      else (nextRX, e # ring, []))"

datatype receive_outcome = RxInvalid channel_error | RxBadSequence | RxDuplicate | RxAccepted

definition valid_sequence :: "uint16 \<Rightarrow> uint16 \<Rightarrow> bool" where
  "valid_sequence nextRX sequence =
     (if sequence < nextRX then
        (let windowOverflow = nextRX + word_of_int ChannelWindowMaxFast in
         if windowOverflow < nextRX then \<not> sequence > windowOverflow else False)
      else True)"

text \<open>The second component lists the delivered envelopes; an accepted one is acknowledged at once.\<close>

definition Receive :: "bytes \<Rightarrow> channel_packet option \<Rightarrow> 'm channel \<Rightarrow> 'm channel \<times> 'm envelope list \<times> receive_outcome" where
  "Receive raw packet c =
     (case envelope_Unpack (messageFactories c) raw of
        Inl e \<Rightarrow> (c, [], RxInvalid e)
      | Inr (sequence, msg) \<Rightarrow>
          if \<not> valid_sequence (nextRXSequence c) sequence then (c, [], RxBadSequence)
          else
            let env = \<lparr>env_Message = Some msg, env_Raw = raw, env_Packet = packet, env_Sequence = sequence,
                       env_Tries = 0, env_tracked = False\<rparr>
            in
            (case emplaceEnvelope (nextRXSequence c) env (rxRing c) of
               None \<Rightarrow> (c, [], RxDuplicate)
             | Some ring \<Rightarrow>
                 (case take_contiguous (nextRXSequence c) ring of
                    (n, rest, contiguous) \<Rightarrow>
                      (c\<lparr>rxRing := rest, nextRXSequence := n\<rparr>, contiguous, RxAccepted))))"

text \<open>\<^verbatim>\<open>handleMessage\<close>: the handlers in registration order until one claims the message; the result counts the calls.\<close>

fun call_handlers :: "('m \<Rightarrow> bool) list \<Rightarrow> 'm \<Rightarrow> nat" where
  "call_handlers [] msg = 0"
| "call_handlers (handler # handlers) msg = (if handler msg then 1 else 1 + call_handlers handlers msg)"

definition handleMessage :: "'m \<Rightarrow> 'm channel \<Rightarrow> nat" where
  "handleMessage msg c = call_handlers (map snd (messageHandlers c)) msg"

fun receive_all :: "bytes list \<Rightarrow> 'm channel \<Rightarrow> 'm channel \<times> 'm envelope list" where
  "receive_all [] c = (c, [])"
| "receive_all (raw # raws) c =
     (case Receive raw None c of (c1, out1, res) \<Rightarrow>
        (case receive_all raws c1 of (c2, out2) \<Rightarrow> (c2, out1 @ out2)))"

text \<open>A sequence of sends; the second component lists the messages accepted, with what went on the wire.\<close>

fun send_all ::
  "'m message_codec \<Rightarrow> outlet \<Rightarrow> (bytes \<Rightarrow> outlet_packet option) \<Rightarrow> 'm list \<Rightarrow> 'm channel
     \<Rightarrow> 'm channel \<times> ('m \<times> bytes) list" where
  "send_all codec out send [] c = (c, [])"
| "send_all codec out send (m # ms) c =
     (case channel_Send codec out send m c of (c1, res) \<Rightarrow>
        (case send_all codec out send ms c1 of (c2, acc) \<Rightarrow>
           (c2, (case res of Inl _ \<Rightarrow> [] | Inr raw \<Rightarrow> [(m, raw)]) @ acc)))"

section \<open>The envelope codec\<close>

lemma get_put_uint16: "get_uint16 (put_uint16 v @ rest) = v"
proof -
  have "push_bit 8 (ucast (ucast (drop_bit 8 v) :: byte)) OR ucast (ucast v :: byte) = v"
    by (rule bit_eqI) (auto simp: bit_simps)
  then show ?thesis by (simp add: get_uint16_def put_uint16_def)
qed

lemma length_put_uint16 [simp]: "length (put_uint16 v) = 2"
  by (simp add: put_uint16_def)

lemma envelope_roundtrip:
  assumes "msg_Pack codec msg = Some data" and "length data < 2 ^ 16"
    and "factories (GetMsgType codec msg) = Some factory" and "factory data = Some msg'"
  shows "\<exists>raw. envelope_Pack codec sequence msg = Some raw \<and> envelope_Unpack factories raw = Inr (sequence, msg')
    \<and> length raw = 6 + length data"
proof -
  let ?t = "put_uint16 (GetMsgType codec msg)" and ?s = "put_uint16 sequence"
    and ?l = "put_uint16 (word_of_nat (length data))"
  let ?raw = "?t @ ?s @ ?l @ data"
  have t: "get_uint16 (go_slice 0 2 ?raw) = GetMsgType codec msg"
    using get_put_uint16 [of "GetMsgType codec msg" "[]"] by (simp add: go_slice_def)
  have s: "get_uint16 (go_slice 2 4 ?raw) = sequence"
    using get_put_uint16 [of sequence "[]"] by (simp add: go_slice_def)
  have l: "unat (get_uint16 (go_slice 4 6 ?raw)) = length data"
    using get_put_uint16 [of "word_of_nat (length data)" "[]"] assms(2)
    by (simp add: go_slice_def unat_of_nat)
  have d: "go_slice 6 (6 + length data) ?raw = data" by (simp add: go_slice_def)
  have "envelope_Unpack factories ?raw = Inr (sequence, msg')"
    unfolding envelope_Unpack_def Let_def t s l d using assms(3,4) by simp
  then show ?thesis using assms(1) by (simp add: envelope_Pack_def)
qed

section \<open>Ordered delivery\<close>

text \<open>Consecutive 16-bit sequence numbers from \<open>n\<close>.\<close>

lemma seq_append:
  "map (\<lambda>i. n + word_of_nat i :: uint16) [0..<a + b] =
     map (\<lambda>i. n + word_of_nat i) [0..<a] @ map (\<lambda>i. n + word_of_nat a + word_of_nat i) [0..<b]"
  by (induction b) (simp_all add: add.assoc)

lemma take_contiguous_spec:
  "take_contiguous n ring = (n', rest, out) \<Longrightarrow>
     map env_Sequence out = map (\<lambda>i. n + word_of_nat i) [0..<length out]
     \<and> n' = n + word_of_nat (length out) \<and> ring = out @ rest \<and> (rest = [] \<or> env_Sequence (hd rest) \<noteq> n')"
proof (induction n ring arbitrary: n' rest out rule: take_contiguous.induct)
  case (1 n)
  then show ?case by simp
next
  case (2 n e ring)
  show ?case
  proof (cases "env_Sequence e = n")
    case True
    obtain m rest1 out1 where t: "take_contiguous (n + 1) ring = (m, rest1, out1)" by (cases "take_contiguous (n + 1) ring")
    with 2 True have eq: "n' = m" "rest = rest1" "out = e # out1" by auto
    from 2(1) [OF True t]
    have "map env_Sequence out1 = map (\<lambda>i. n + 1 + word_of_nat i) [0..<length out1]"
      "m = n + 1 + word_of_nat (length out1)" "ring = out1 @ rest1"
      "rest1 = [] \<or> env_Sequence (hd rest1) \<noteq> m" by auto
    moreover have "map (\<lambda>i. n + word_of_nat i) [0..<Suc (length out1)] = n # map (\<lambda>i. n + 1 + word_of_nat i) [0..<length out1]"
      by (simp only: upt_conv_Cons map_Suc_upt [symmetric]) (simp add: comp_def add.assoc)
    ultimately show ?thesis using eq True by (simp add: add.assoc)
  next
    case False
    with 2 show ?thesis by auto
  qed
qed

lemma Receive_delivers:
  assumes "Receive raw packet c = (c', out, res)"
  shows "map env_Sequence out = map (\<lambda>i. nextRXSequence c + word_of_nat i) [0..<length out]
    \<and> nextRXSequence c' = nextRXSequence c + word_of_nat (length out)"
proof -
  have "out = [] \<and> c' = c \<or> (\<exists>ring rest. take_contiguous (nextRXSequence c) ring = (nextRXSequence c', rest, out))"
    using assms
    by (auto simp: Receive_def Let_def split: sum.splits prod.splits if_splits option.splits)
  then show ?thesis using take_contiguous_spec by fastforce
qed

lemma receive_all_delivers:
  "receive_all raws c = (c', out) \<Longrightarrow>
     map env_Sequence out = map (\<lambda>i. nextRXSequence c + word_of_nat i) [0..<length out]
     \<and> nextRXSequence c' = nextRXSequence c + word_of_nat (length out)"
proof (induction raws arbitrary: c out)
  case Nil
  then show ?case by simp
next
  case (Cons raw raws)
  obtain c1 out1 res where r: "Receive raw None c = (c1, out1, res)" by (cases "Receive raw None c")
  obtain out2 where rest: "receive_all raws c1 = (c', out2)" and out: "out = out1 @ out2"
    using Cons.prems r by (auto split: prod.splits)
  note a = Receive_delivers [OF r]
  note b = Cons.IH [OF rest]
  have "map (\<lambda>i. nextRXSequence c + word_of_nat i) [0..<length out] =
      map (\<lambda>i. nextRXSequence c + word_of_nat i) [0..<length out1]
      @ map (\<lambda>i. nextRXSequence c1 + word_of_nat i) [0..<length out2]"
    using a seq_append [of "nextRXSequence c" "length out1" "length out2"] by (simp add: out)
  with a b out show ?case by (simp add: add.assoc)
qed

lemma Receive_next:
  assumes "envelope_Unpack (messageFactories c) raw = Inr (nextRXSequence c, msg)" and "rxRing c = []"
  shows "Receive raw packet c =
    (c\<lparr>rxRing := [], nextRXSequence := nextRXSequence c + 1\<rparr>,
     [\<lparr>env_Message = Some msg, env_Raw = raw, env_Packet = packet, env_Sequence = nextRXSequence c,
       env_Tries = 0, env_tracked = True\<rparr>], RxAccepted)"
  using assms by (simp add: Receive_def valid_sequence_def emplaceEnvelope_def Let_def)

lemma receive_all_in_order:
  assumes "rxRing c = []"
    and "\<And>i. i < length raws \<Longrightarrow>
      envelope_Unpack (messageFactories c) (raws ! i) = Inr (nextRXSequence c + word_of_nat i, msgs ! i)"
    and "length msgs = length raws"
  shows "map env_Message (snd (receive_all raws c)) = map Some msgs"
  using assms
proof (induction raws arbitrary: c msgs)
  case Nil
  then show ?case by simp
next
  case (Cons raw raws)
  obtain m ms where ms: "msgs = m # ms" using Cons.prems(3) by (cases msgs) auto
  have first: "envelope_Unpack (messageFactories c) raw = Inr (nextRXSequence c, m)"
    using Cons.prems(2) [of 0] ms by simp
  let ?c = "c\<lparr>rxRing := [], nextRXSequence := nextRXSequence c + 1\<rparr>"
  have "map env_Message (snd (receive_all raws ?c)) = map Some ms"
    by (rule Cons.IH) (use Cons.prems(2) [of "Suc _"] Cons.prems(3) ms in \<open>auto simp: add.assoc add.commute\<close>)
  then show ?case using Receive_next [OF first Cons.prems(1)] ms by (simp add: case_prod_beta)
qed

section \<open>Sending\<close>

lemma updatePacketTimeouts_simps [simp]:
  "nextSequence (updatePacketTimeouts rtt c) = nextSequence c"
  "nextRXSequence (updatePacketTimeouts rtt c) = nextRXSequence c"
  "window (updatePacketTimeouts rtt c) = window c" "windowMax (updatePacketTimeouts rtt c) = windowMax c"
  "windowMin (updatePacketTimeouts rtt c) = windowMin c"
  "windowFlexibility (updatePacketTimeouts rtt c) = windowFlexibility c"
  "length (txRing (updatePacketTimeouts rtt c)) = length (txRing c)"
  by (simp_all add: updatePacketTimeouts_def)

lemma nextSequence_same [simp]: "c\<lparr>nextSequence := nextSequence c\<rparr> = c"
  by (cases c) simp

lemma channel_Send_failed:
  "channel_Send codec out send msg c = (c', Inl e) \<Longrightarrow> c' = c"
  by (auto simp: channel_Send_def Let_def split: if_splits option.splits)

lemma channel_Send_ok:
  "channel_Send codec out send msg c = (c', Inr raw) \<Longrightarrow>
     envelope_Pack codec (nextSequence c) msg = Some raw \<and> int (length raw) \<le> out_MDU out
     \<and> nextSequence c' = nextSequence c + 1"
  by (auto simp: channel_Send_def Let_def split: if_splits option.splits)

lemma send_all_sequences:
  "i < length (snd (send_all codec out send ms c)) \<Longrightarrow>
     (case snd (send_all codec out send ms c) ! i of (m, raw) \<Rightarrow>
        m \<in> set ms \<and> int (length raw) \<le> out_MDU out
        \<and> envelope_Pack codec (nextSequence c + word_of_nat i) m = Some raw)"
proof (induction ms arbitrary: c i)
  case Nil
  then show ?case by simp
next
  case (Cons m ms)
  obtain c1 res where snd1: "channel_Send codec out send m c = (c1, res)" by force
  show ?case
  proof (cases res)
    case (Inl e)
    with channel_Send_failed [of codec out send m c c1 e] snd1 have "c1 = c" by simp
    with Cons.IH [of i c] Cons.prems snd1 Inl show ?thesis by (auto simp: case_prod_beta)
  next
    case (Inr raw)
    with channel_Send_ok [of codec out send m c c1 raw] snd1
    have ok: "envelope_Pack codec (nextSequence c) m = Some raw" "int (length raw) \<le> out_MDU out"
      "nextSequence c1 = nextSequence c + 1" by simp_all
    show ?thesis
    proof (cases i)
      case 0
      with ok snd1 Inr show ?thesis by (simp add: case_prod_beta)
    next
      case (Suc k)
      with Cons.IH [of k c1] Cons.prems snd1 Inr ok show ?thesis by (auto simp: case_prod_beta add.assoc)
    qed
  qed
qed

text \<open>
  What the sender accepted, received in order; \<open>dec m\<close> is what the receiver's factory makes of the
  serialised message \<open>m\<close>.
\<close>

lemma channel_transfer:
  assumes "rxRing receiver = []" and "nextRXSequence receiver = nextSequence sender" and "out_MDU out \<le> 65541"
    and decode: "\<And>m data. m \<in> set ms \<Longrightarrow> msg_Pack codec m = Some data \<Longrightarrow>
      \<exists>f. messageFactories receiver (GetMsgType codec m) = Some f \<and> f data = Some (dec m)"
  shows "map env_Message (snd (receive_all (map snd (snd (send_all codec out send ms sender))) receiver))
    = map (\<lambda>(m, raw). Some (dec m)) (snd (send_all codec out send ms sender))"
proof -
  let ?acc = "snd (send_all codec out send ms sender)"
  have "map env_Message (snd (receive_all (map snd ?acc) receiver)) = map Some (map (\<lambda>(m, raw). dec m) ?acc)"
  proof (rule receive_all_in_order [OF assms(1)])
    fix i
    assume i: "i < length (map snd ?acc)"
    obtain m raw where a: "?acc ! i = (m, raw)" by force
    have p: "m \<in> set ms" "int (length raw) \<le> out_MDU out"
        "envelope_Pack codec (nextRXSequence receiver + word_of_nat i) m = Some raw"
      using send_all_sequences [of i codec out send ms sender] i a assms(2) by auto
    then obtain data where d: "msg_Pack codec m = Some data" by (auto simp: envelope_Pack_def split: option.splits)
    then have "length raw = 6 + length data" using p(3) by (auto simp: envelope_Pack_def)
    then have len: "length data < 2 ^ 16" using p(2) assms(3) by simp
    obtain f where f: "messageFactories receiver (GetMsgType codec m) = Some f" "f data = Some (dec m)"
      using decode [OF p(1) d] by blast
    have "envelope_Unpack (messageFactories receiver) raw = Inr (nextRXSequence receiver + word_of_nat i, dec m)"
      using envelope_roundtrip [where factories = "messageFactories receiver" and factory = f
          and sequence = "nextRXSequence receiver + word_of_nat i", OF d len f] p(3) by auto
    then show "envelope_Unpack (messageFactories receiver) (map snd ?acc ! i) =
        Inr (nextRXSequence receiver + word_of_nat i, map (\<lambda>(m, raw). dec m) ?acc ! i)"
      using a i by simp
  qed simp
  then show ?thesis by (simp add: case_prod_beta comp_def)
qed

section \<open>Properties\<close>

text \<open>
  C28: Messages are delivered in sequence order without gaps or repetitions: whatever envelopes arrive
  in whatever order, the delivered ones carry consecutive 16-bit sequence numbers starting at the
  receiver's counter, which ends just behind the last of them.
\<close>

theorem channel_delivers_consecutively:
  "case receive_all raws c of (c', out) \<Rightarrow>
     map env_Sequence out = map (\<lambda>i. nextRXSequence c + word_of_nat i) [0..<length out]
     \<and> nextRXSequence c' = nextRXSequence c + word_of_nat (length out)"
  using receive_all_delivers [of raws c] by (simp split: prod.split)

text \<open>
  C29: End to end over an outlet that keeps the order: the messages the sender's \<^verbatim>\<open>Send\<close> accepted, across
  any mixture of refused, oversized and failed sends, are exactly the messages the receiver delivers,
  in order, across the wrap-around of the sequence number.
\<close>

theorem channel_end_to_end:
  assumes "rxRing receiver = []" and "nextRXSequence receiver = nextSequence sender" and "out_MDU out \<le> 65541"
    and decode: "\<And>m data. m \<in> set ms \<Longrightarrow> msg_Pack codec m = Some data \<Longrightarrow>
      \<exists>f. messageFactories receiver (GetMsgType codec m) = Some f \<and> f data = Some m"
  shows "map env_Message (snd (receive_all (map snd (snd (send_all codec out send ms sender))) receiver))
    = map (\<lambda>(m, raw). Some m) (snd (send_all codec out send ms sender))"
  using channel_transfer [where dec = "\<lambda>m. m", OF assms] by simp

text \<open>
  A send that fails, for whatever reason, leaves the channel exactly as it was: the reserved sequence
  number is given back and no envelope stays in the ring.
\<close>

theorem failed_send_changes_nothing:
  assumes "snd (channel_Send codec out send msg c) = Inl e"
  shows "fst (channel_Send codec out send msg c) = c"
  using channel_Send_failed [of codec out send msg c "fst (channel_Send codec out send msg c)" e] assms
  by (metis prod.collapse)

definition demo_codec :: "bytes message_codec" where
  "demo_codec = \<lparr>GetMsgType = (\<lambda>m. 0x0101), msg_Pack = Some\<rparr>"

definition demo_channel :: "bytes channel" where
  "demo_channel = RegisterMessageType 0x0101 Some (NewChannel (1 / 10))"

definition demo_outlet :: outlet where
  "demo_outlet = \<lparr>out_usable = True, out_MDU = 431, out_RTT = 1 / 10\<rparr>"

definition demo_send :: "bytes \<Rightarrow> outlet_packet option" where
  "demo_send raw = Some \<lparr>op_packet = \<lparr>cp_id = Some raw, cp_receipt = None\<rparr>, op_hash = [], op_truncHash = [], op_sentAt = 0\<rparr>"

lemma demo_channel_facts:
  "rxRing demo_channel = []" "nextRXSequence demo_channel = nextSequence demo_channel"
  "nextSequence demo_channel = 0" "txRing demo_channel = []" "window demo_channel = 4"
  "messageFactories demo_channel 0x0101 = Some Some"
  by (simp_all add: demo_channel_def RegisterMessageType_def NewChannel_def Let_def)

theorem channel_end_to_end_witness:
  "map env_Message (snd (receive_all (map snd (snd (send_all demo_codec demo_outlet demo_send
      [[1, 2], replicate 500 0, [3]] demo_channel))) demo_channel)) = [Some [1, 2], Some [3]]"
proof -
  have acc: "map fst (snd (send_all demo_codec demo_outlet demo_send [[1, 2], replicate 500 0, [3]] demo_channel)) = [[1, 2], [3]]"
    by (simp add: channel_Send_def isReadyToSend_def demo_channel_facts demo_outlet_def demo_codec_def demo_send_def
        envelope_Pack_def put_uint16_def Let_def)
  have "map env_Message (snd (receive_all (map snd (snd (send_all demo_codec demo_outlet demo_send
      [[1, 2], replicate 500 0, [3]] demo_channel))) demo_channel))
    = map (\<lambda>(m, raw). Some m) (snd (send_all demo_codec demo_outlet demo_send [[1, 2], replicate 500 0, [3]] demo_channel))"
    by (rule channel_end_to_end)
      (simp_all add: demo_channel_facts demo_outlet_def demo_codec_def)
  also have "\<dots> = map Some (map fst (snd (send_all demo_codec demo_outlet demo_send [[1, 2], replicate 500 0, [3]] demo_channel)))"
    by (simp add: case_prod_beta)
  finally show ?thesis by (simp only: acc list.map)
qed

theorem failed_send_changes_nothing_witness:
  "fst (channel_Send demo_codec demo_outlet (\<lambda>_. None) [1] demo_channel) = demo_channel"
proof -
  have "snd (channel_Send demo_codec demo_outlet (\<lambda>_. None) [1] demo_channel) = Inl OutletSend"
    by (simp add: channel_Send_def isReadyToSend_def demo_channel_facts demo_outlet_def demo_codec_def
        envelope_Pack_def put_uint16_def Let_def)
  then show ?thesis by (rule failed_send_changes_nothing)
qed

subsection \<open>Reordered arrivals\<close>

lemma stuck_receive:
  assumes ring: "rxRing c = e2 # e1 # rest" and e: "env_Sequence e2 = 2" "env_Sequence e1 = 1" and n: "nextRXSequence c = 1"
    and un: "envelope_Unpack (messageFactories c) raw = Inr (sequence, m)" and sq: "2 < sequence"
  shows "\<exists>rest'. Receive raw packet c = (c\<lparr>rxRing := e2 # e1 # rest'\<rparr>, [], snd (snd (Receive raw packet c)))"
proof -
  let ?env = "\<lparr>env_Message = Some m, env_Raw = raw, env_Packet = packet, env_Sequence = sequence,
                       env_Tries = 0, env_tracked = False\<rparr>"
  have v: "valid_sequence 1 sequence" using sq by (auto simp: valid_sequence_def word_less_nat_alt)
  have lt: "sequence \<noteq> 2" "sequence \<noteq> 1" "\<not> sequence < 2" "\<not> sequence < 1" using sq by (auto simp: word_less_nat_alt)
  have c: "c\<lparr>rxRing := e2 # e1 # rest\<rparr> = c" using ring by (cases c) simp
  show ?thesis
  proof (cases "emplace_loop 1 ?env rest")
    case None
    with un v lt ring e n c show ?thesis
      by (intro exI [of _ rest]) (simp add: Receive_def emplaceEnvelope_def Let_def)
  next
    case (Some r)
    have "c\<lparr>rxRing := x, nextRXSequence := 1\<rparr> = c\<lparr>rxRing := x\<rparr>" for x using n by (cases c) simp
    with Some un v lt ring e n show ?thesis
      by (intro exI [of _ r]) (simp add: Receive_def emplaceEnvelope_def Let_def)
  qed
qed

lemma stuck_receive_all:
  assumes "rxRing c = e2 # e1 # rest" and "env_Sequence e2 = 2" "env_Sequence e1 = 1" and "nextRXSequence c = 1"
    and "\<And>raw. raw \<in> set raws \<Longrightarrow> \<exists>s m. envelope_Unpack (messageFactories c) raw = Inr (s, m) \<and> 2 < s"
  shows "snd (receive_all raws c) = []"
  using assms
proof (induction raws arbitrary: c rest)
  case Nil
  then show ?case by simp
next
  case (Cons raw raws)
  obtain s m where "envelope_Unpack (messageFactories c) raw = Inr (s, m)" "2 < s" using Cons.prems(5) by force
  with stuck_receive [OF Cons.prems(1-4)] obtain rest' res where
    r: "Receive raw None c = (c\<lparr>rxRing := e2 # e1 # rest'\<rparr>, [], res)" by metis
  have "snd (receive_all raws (c\<lparr>rxRing := e2 # e1 # rest'\<rparr>)) = []"
    by (rule Cons.IH [of _ rest']) (use Cons.prems in auto)
  with r show ?case by (simp add: case_prod_beta)
qed

lemma reordered_three:
  assumes "rxRing c = []" and "nextRXSequence c = 0"
    and "envelope_Unpack (messageFactories c) r2 = Inr (2, m2)"
    and "envelope_Unpack (messageFactories c) r1 = Inr (1, m1)"
    and "envelope_Unpack (messageFactories c) r0 = Inr (0, m0)"
  shows "\<exists>c' e2 e1 e0. receive_all [r2, r1, r0] c = (c', [e0]) \<and> env_Message e0 = Some m0
    \<and> rxRing c' = [e2, e1] \<and> env_Sequence e2 = 2 \<and> env_Sequence e1 = 1 \<and> nextRXSequence c' = 1
    \<and> messageFactories c' = messageFactories c"
proof -
  have "unat (- 1 :: uint16) = 65535" by (simp add: unsigned_minus_1_eq_mask mask_eq_exp_minus_1)
  with assms show ?thesis
    by (simp add: Receive_def valid_sequence_def emplaceEnvelope_def Let_def)
qed

text \<open>
  C30: Reordering on the way can block a channel for good. When the envelopes 2, 1 and 0 reach a fresh
  channel in that order, only message 0 is delivered: the 16-bit subtraction in \<^verbatim>\<open>emplaceEnvelope\<close> wraps,
  so envelope 1 is placed behind envelope 2. Both are acknowledged on arrival, and however many later
  envelopes follow, none of their messages is delivered.
\<close>

theorem reordering_blocks_channel:
  assumes "rxRing c = []" and "nextRXSequence c = 0"
    and "envelope_Unpack (messageFactories c) r2 = Inr (2, m2)"
    and "envelope_Unpack (messageFactories c) r1 = Inr (1, m1)"
    and "envelope_Unpack (messageFactories c) r0 = Inr (0, m0)"
    and later: "\<And>raw. raw \<in> set raws \<Longrightarrow> \<exists>s m. envelope_Unpack (messageFactories c) raw = Inr (s, m) \<and> 2 < s"
  shows "map env_Message (snd (receive_all ([r2, r1, r0] @ raws) c)) = [Some m0]"
proof -
  have app: "receive_all (xs @ ys) c = (case receive_all xs c of (c1, o1) \<Rightarrow>
      (case receive_all ys c1 of (c2, o2) \<Rightarrow> (c2, o1 @ o2)))" for xs ys
    by (induction xs arbitrary: c) (simp_all add: case_prod_beta)
  obtain c' e2 e1 e0 where r: "receive_all [r2, r1, r0] c = (c', [e0])" "env_Message e0 = Some m0"
      "rxRing c' = [e2, e1]" "env_Sequence e2 = 2" "env_Sequence e1 = 1" "nextRXSequence c' = 1"
      "messageFactories c' = messageFactories c"
    using reordered_three [OF assms(1-5)] by metis
  have "snd (receive_all raws c') = []"
    by (rule stuck_receive_all [OF r(3-6)]) (use later r(7) in auto)
  with r(1,2) show ?thesis by (simp only: app) (simp add: case_prod_beta)
qed

theorem reordering_blocks_channel_witness:
  "map env_Message (snd (receive_all ([[1, 1, 0, 2, 0, 1, 12], [1, 1, 0, 1, 0, 1, 11], [1, 1, 0, 0, 0, 1, 10]]
      @ [[1, 1, 0, 3, 0, 1, 13], [1, 1, 0, 4, 0, 1, 14]]) demo_channel)) = [Some [10]]"
  by (rule reordering_blocks_channel [where ?m2.0 = "[12]" and ?m1.0 = "[11]"])
    (auto simp: demo_channel_facts envelope_Unpack_def Let_def go_slice_def get_uint16_def)

subsection \<open>The transmission window\<close>

text \<open>
  One step of a channel with \<open>maxTries\<close> as set by \<open>NewChannel\<close>: a send, a delivery proof, a timeout, a
  received packet, a shutdown or a change of the registered handlers. The round-trip time may differ
  at each step.
\<close>

inductive channel_reach :: "'m channel \<Rightarrow> bool" where
  reach_new: "channel_reach (NewChannel rtt)"
| reach_register: "channel_reach c \<Longrightarrow> channel_reach (RegisterMessageType t f c)"
| reach_add_handler: "channel_reach c \<Longrightarrow> channel_reach (fst (addMessageHandler h c))"
| reach_remove_handler: "channel_reach c \<Longrightarrow> channel_reach (removeMessageHandlerByID i c)"
| reach_send: "channel_reach c \<Longrightarrow> channel_reach (fst (channel_Send codec out send m c))"
| reach_delivered: "channel_reach c \<Longrightarrow> channel_reach (packetDelivered rtt pr c)"
| reach_timeout: "channel_reach c \<Longrightarrow> channel_reach (fst (packetTimeout rtt resend pr c))"
| reach_receive: "channel_reach c \<Longrightarrow> channel_reach (fst (Receive raw p c))"
| reach_shutdown: "channel_reach c \<Longrightarrow> channel_reach (Shutdown c)"

definition window_inv :: "'m channel \<Rightarrow> bool" where
  "window_inv c \<longleftrightarrow> 1 \<le> windowMin c \<and> windowMin c \<le> windowMax c \<and> windowMax c \<le> 48 \<and>
     1 \<le> window c \<and> window c \<le> windowMax c \<and> 1 \<le> windowFlexibility c \<and> maxTries c = 5"

definition ring_inv :: "'m channel \<Rightarrow> bool" where
  "ring_inv c \<longleftrightarrow> length (txRing c) \<le> 48 \<and> (\<forall>e \<in> set (txRing c). 1 \<le> env_Tries e \<and> env_Tries e \<le> 5)"

lemma window_inv_cong:
  "\<lbrakk>window c' = window c; windowMax c' = windowMax c; windowMin c' = windowMin c;
    windowFlexibility c' = windowFlexibility c; maxTries c' = maxTries c\<rbrakk> \<Longrightarrow> window_inv c' = window_inv c"
  by (simp add: window_inv_def)

lemma emplace_ring:
  "emplace_loop n env ring = Some ring' \<Longrightarrow>
     length ring' = Suc (length ring) \<and> set ring' = insert (env\<lparr>env_tracked := True\<rparr>) (set ring)"
  by (induction ring arbitrary: ring') (auto split: if_splits)

lemma remove_delivered_ring:
  "remove_delivered h ring = Some ring' \<Longrightarrow> length ring = Suc (length ring') \<and> set ring' \<subseteq> set ring"
  by (induction ring arbitrary: ring') (auto split: if_splits)

lemma updatePacketTimeouts_ring:
  "map env_Tries (txRing (updatePacketTimeouts rtt c)) = map env_Tries (txRing c)"
  "length (txRing (updatePacketTimeouts rtt c)) = length (txRing c)"
  by (auto simp: updatePacketTimeouts_def Let_def set_timeout_def split: option.split)

lemma ring_inv_tries:
  "ring_inv c \<longleftrightarrow> length (txRing c) \<le> 48 \<and> (\<forall>n \<in> set (map env_Tries (txRing c)). 1 \<le> n \<and> n \<le> 5)"
  by (simp add: ring_inv_def)

lemma updatePacketTimeouts_inv:
  "ring_inv (updatePacketTimeouts rtt c) = ring_inv c" "window_inv (updatePacketTimeouts rtt c) = window_inv c"
  by (simp_all only: ring_inv_tries updatePacketTimeouts_ring) (simp add: window_inv_def updatePacketTimeouts_def)

lemma adapt_rate_inv:
  "window_inv c \<Longrightarrow> window_inv (adapt_rate rtt c)" "ring_inv c \<Longrightarrow> ring_inv (adapt_rate rtt c)"
  by (auto simp: window_inv_def ring_inv_def adapt_rate_def Let_def)

lemma shrink_window_inv:
  "window_inv c \<Longrightarrow> window_inv (shrink_window c)" "txRing (shrink_window c) = txRing c"
  by (auto simp: window_inv_def shrink_window_def Let_def)

lemma packetDelivered_inv:
  assumes "window_inv c" "ring_inv c"
  shows "window_inv (packetDelivered rtt pr c) \<and> ring_inv (packetDelivered rtt pr c)"
proof (cases "remove_delivered (rcpt_Hash pr) (txRing c)")
  case None
  with assms show ?thesis by (simp add: packetDelivered_def)
next
  case (Some ring)
  define c' where "c' = (if window c < windowMax c then c\<lparr>txRing := ring, window := window c + 1\<rparr> else c\<lparr>txRing := ring\<rparr>)"
  have "window_inv c'" using assms(1) by (simp add: c'_def window_inv_def)
  moreover have "ring_inv c'" using assms(2) remove_delivered_ring [OF Some] by (auto simp: c'_def ring_inv_def)
  moreover have "packetDelivered rtt pr c = adapt_rate rtt c'" using Some by (simp add: packetDelivered_def c'_def Let_def)
  ultimately show ?thesis using adapt_rate_inv by metis
qed

lemma ring_inv_update:
  assumes "ring_inv c" and "1 \<le> env_Tries env" and "env_Tries env \<le> 5"
  shows "ring_inv (c\<lparr>txRing := (txRing c)[i := env]\<rparr>)"
  using assms set_update_subset_insert [of "txRing c" i env] by (auto simp: ring_inv_def)

lemma window_inv_txRing [simp]: "window_inv (c\<lparr>txRing := ring\<rparr>) = window_inv c"
  by (simp add: window_inv_def)

lemma find_envelope_length: "find_envelope h ring = Some i \<Longrightarrow> i < length ring"
  by (induction ring arbitrary: i) (auto split: if_splits)

lemma tries_simps [simp]: "env_Tries (set_timeout t env) = env_Tries env" "env_Tries (rearm t env) = env_Tries env"
  by (simp_all add: set_timeout_def rearm_def)

lemma Shutdown_inv: "window_inv c \<Longrightarrow> window_inv (Shutdown c) \<and> ring_inv (Shutdown c)"
  by (simp add: Shutdown_def clearRings_def ring_inv_def window_inv_def)

lemma resend_envelope_inv:
  assumes "window_inv c" "ring_inv c" and "1 \<le> env_Tries (txRing c ! i)" "env_Tries (txRing c ! i) \<le> 5"
  shows "window_inv (resend_envelope rtt resend i c) \<and> ring_inv (resend_envelope rtt resend i c)"
proof -
  have "window_inv (c\<lparr>txRing := (txRing c)[i := env]\<rparr>) \<and> ring_inv (c\<lparr>txRing := (txRing c)[i := env]\<rparr>)"
    if "env_Tries env = env_Tries (txRing c ! i)" for env
    using assms that by (simp add: ring_inv_update)
  with assms(1,2) show ?thesis
    by (auto simp: resend_envelope_def Let_def packetDelivered_inv split: option.split)
qed

lemma packetTimeout_inv:
  assumes w: "window_inv c" and r: "ring_inv c"
  shows "window_inv (fst (packetTimeout rtt resend pr c)) \<and> ring_inv (fst (packetTimeout rtt resend pr c))"
proof (cases "find_envelope (rcpt_Hash pr) (txRing c)")
  case None
  with assms show ?thesis by (simp add: packetTimeout_def)
next
  case (Some i)
  note i = find_envelope_length [OF this]
  let ?env = "txRing c ! i"
  define env1 where "env1 = set_timeout (getPacketTimeoutSeconds rtt (length (txRing c)) (env_Tries ?env + 1))
    (?env\<lparr>env_Tries := env_Tries ?env + 1\<rparr>)"
  define c1 where "c1 = updatePacketTimeouts rtt ((shrink_window c)\<lparr>txRing := (txRing c)[i := env1]\<rparr>)"
  show ?thesis
  proof (cases "rcpt_Proved pr \<or> env_Tries ?env \<ge> maxTries c")
    case True
    with Some assms show ?thesis by (auto simp: packetTimeout_def Let_def Shutdown_inv)
  next
    case False
    then have t: "1 \<le> env_Tries env1 \<and> env_Tries env1 \<le> 5"
      using r w nth_mem [OF i] by (auto simp: env1_def ring_inv_def window_inv_def)
    have w1: "window_inv c1" using shrink_window_inv(1) [OF w] by (simp add: c1_def updatePacketTimeouts_inv)
    have "ring_inv (shrink_window c)" using r by (simp add: ring_inv_def shrink_window_inv(2))
    then have r1: "ring_inv c1"
      using ring_inv_update [of "shrink_window c" env1 i] t by (simp add: c1_def updatePacketTimeouts_inv shrink_window_inv(2))
    have "map env_Tries (txRing c1) ! i = env_Tries env1"
      unfolding c1_def updatePacketTimeouts_ring using i by simp
    moreover have "length (txRing c1) = length (txRing c)" by (simp add: c1_def updatePacketTimeouts_ring)
    ultimately have t1: "1 \<le> env_Tries (txRing c1 ! i)" "env_Tries (txRing c1 ! i) \<le> 5" using t i by auto
    have "fst (packetTimeout rtt resend pr c) = resend_envelope rtt resend i c1"
      using False Some by (simp add: packetTimeout_def Let_def c1_def env1_def shrink_window_inv(2))
    with resend_envelope_inv [OF w1 r1 t1] show ?thesis by simp
  qed
qed

lemma channel_Send_inv:
  assumes "window_inv c" and "ring_inv c"
  shows "window_inv (fst (channel_Send codec out send m c)) \<and> ring_inv (fst (channel_Send codec out send m c))"
proof (cases "isReadyToSend (out_usable out) c")
  case False
  with assms show ?thesis by (simp add: channel_Send_def)
next
  case True
  then have l: "length (txRing c) < 48"
    using assms(1) by (auto simp: isReadyToSend_def window_inv_def split: if_splits)
  have same: "window_inv (c\<lparr>nextSequence := n\<rparr>)" "ring_inv (c\<lparr>nextSequence := n\<rparr>)" for n
    using assms by (simp_all add: window_inv_def ring_inv_def)
  have placed: "ring_inv (c\<lparr>nextSequence := n, txRing := ring\<rparr>) \<and> window_inv (c\<lparr>nextSequence := n, txRing := ring\<rparr>)"
    if "emplace_loop q env (txRing c) = Some ring" "env_Tries env = 1" for q env ring n
    using emplace_ring [OF that(1)] that(2) l assms by (auto simp: ring_inv_def window_inv_def)
  from True same placed assms show ?thesis
    by (auto simp: channel_Send_def Let_def emplaceEnvelope_def updatePacketTimeouts_inv split: option.split)
qed

lemma Receive_inv:
  assumes "window_inv c" and "ring_inv c"
  shows "window_inv (fst (Receive raw p c)) \<and> ring_inv (fst (Receive raw p c))"
  using assms by (auto simp: Receive_def Let_def window_inv_def ring_inv_def split: sum.split option.split prod.split)



end
