(* ===== verification/Buffer.thy ===== *)
theory Buffer
  imports Channel
begin

text \<open>
  Byte streams over a channel (\<^verbatim>\<open>rns/buffer.go\<close>, \<^verbatim>\<open>rns/bzip2.go\<close>): the stream data message, the reader
  that collects the chunks of one stream, and the writer that cuts and optionally compresses what is
  written. The vendored bzip2 implementation is an argument: \<open>compress\<close> is the writer's output for an
  input, or an error, and \<open>bunzip\<close> gives what its reader yields before it ends, and whether it ended
  without an error.
\<close>

section \<open>Decompression with a limit\<close>

datatype bzip2_error = Bzip2Failed | DecompressedTooLarge

definition DecompressBzip2 :: "(bytes \<Rightarrow> (bytes \<times> bool) option) \<Rightarrow> bytes \<Rightarrow> bzip2_error + bytes" where
  "DecompressBzip2 bunzip input =
     (case bunzip input of
        None \<Rightarrow> Inl Bzip2Failed
      | Some (out, ok) \<Rightarrow> if ok then Inr out else Inl Bzip2Failed)"

text \<open>At most \<open>maxLen + 1\<close> bytes are read; an error behind that point is not seen.\<close>

definition DecompressBzip2WithLimit ::
  "(bytes \<Rightarrow> (bytes \<times> bool) option) \<Rightarrow> bytes \<Rightarrow> int \<Rightarrow> bzip2_error + bytes" where
  "DecompressBzip2WithLimit bunzip input maxLen =
     (let maxLen = (if maxLen < 0 then 0 else nat maxLen) in
      case bunzip input of
        None \<Rightarrow> Inl Bzip2Failed
      | Some (stream, ok) \<Rightarrow>
          let out = take (maxLen + 1) stream in
          if length stream < maxLen + 1 \<and> \<not> ok then Inl Bzip2Failed
          else if length out > maxLen then Inl DecompressedTooLarge
          else Inr out)"

section \<open>The stream data message\<close>

abbreviation (input) SMTStreamData :: uint16 where "SMTStreamData \<equiv> 0xff00"
abbreviation (input) StreamIDMax :: uint16 where "StreamIDMax \<equiv> 0x3fff"
abbreviation (input) bufferMaxChunkLen :: nat where "bufferMaxChunkLen \<equiv> 16 * 1024"
abbreviation (input) bufferCompressionTries :: nat where "bufferCompressionTries \<equiv> 4"

record stream_data =
  StreamID :: uint16
  stream_Data :: bytes
  stream_EOF :: bool
  Compressed :: bool

definition stream_Pack :: "stream_data \<Rightarrow> bytes option" where
  "stream_Pack m =
     (if StreamID m > StreamIDMax then None
      else
        let headerVal = StreamID m AND 0x3fff;
            headerVal = (if stream_EOF m then headerVal OR 0x8000 else headerVal);
            headerVal = (if Compressed m then headerVal OR 0x4000 else headerVal)
        in Some (put_uint16 headerVal @ stream_Data m))"

datatype stream_error = StreamTooShort | ChunkTooLarge | StreamDecompress

definition stream_Unpack :: "(bytes \<Rightarrow> (bytes \<times> bool) option) \<Rightarrow> bytes \<Rightarrow> stream_error + stream_data" where
  "stream_Unpack bunzip data =
     (if length data < 2 then Inl StreamTooShort
      else
        let headerVal = get_uint16 (go_slice 0 2 data);
            m = \<lparr>StreamID = headerVal AND 0x3fff, stream_Data = drop 2 data,
                 stream_EOF = (headerVal AND 0x8000 \<noteq> 0), Compressed = (headerVal AND 0x4000 \<noteq> 0)\<rparr>
        in if Compressed m then
             (case DecompressBzip2WithLimit bunzip (stream_Data m) (int bufferMaxChunkLen) of
                Inl DecompressedTooLarge \<Rightarrow> Inl ChunkTooLarge
              | Inl _ \<Rightarrow> Inl StreamDecompress
              | Inr decompressed \<Rightarrow> Inr (m\<lparr>stream_Data := decompressed\<rparr>))
           else Inr m)"

definition stream_codec :: "stream_data message_codec" where
  "stream_codec = \<lparr>GetMsgType = (\<lambda>_. SMTStreamData), msg_Pack = stream_Pack\<rparr>"

definition stream_factory :: "(bytes \<Rightarrow> (bytes \<times> bool) option) \<Rightarrow> bytes \<Rightarrow> stream_data option" where
  "stream_factory bunzip data = (case stream_Unpack bunzip data of Inl _ \<Rightarrow> None | Inr m \<Rightarrow> Some m)"

section \<open>The reader\<close>

record channel_reader =
  cr_streamID :: uint16
  cr_handlerID :: uint64
  cr_buffer :: bytes
  cr_eof :: bool

definition reader_handleMessage :: "stream_data \<Rightarrow> channel_reader \<Rightarrow> channel_reader \<times> bool" where
  "reader_handleMessage sm cr =
     (if StreamID sm \<noteq> cr_streamID cr then (cr, False)
      else
        let cr = (if length (stream_Data sm) > 0 then cr\<lparr>cr_buffer := cr_buffer cr @ stream_Data sm\<rparr> else cr);
            cr = (if stream_EOF sm then cr\<lparr>cr_eof := True\<rparr> else cr)
        in (cr, True))"

text \<open>The channel keeps the part of the handler that claims messages; the reader's own state is \<open>channel_reader\<close>.\<close>

definition NewChannelReader ::
  "(bytes \<Rightarrow> (bytes \<times> bool) option) \<Rightarrow> uint16 \<Rightarrow> stream_data channel \<Rightarrow> stream_data channel \<times> channel_reader" where
  "NewChannelReader bunzip streamID c =
     (let c = RegisterMessageType SMTStreamData (stream_factory bunzip) c;
          (c, handlerID) = addMessageHandler (\<lambda>sm. StreamID sm = streamID) c
      in (c, \<lparr>cr_streamID = streamID, cr_handlerID = handlerID, cr_buffer = [], cr_eof = False\<rparr>))"

datatype read_outcome = ReadWaits | ReadEOF | ReadBytes bytes

definition reader_Read :: "nat \<Rightarrow> channel_reader \<Rightarrow> channel_reader \<times> read_outcome" where
  "reader_Read len cr =
     (if cr_buffer cr = [] \<and> \<not> cr_eof cr then (cr, ReadWaits)
      else if cr_buffer cr = [] \<and> cr_eof cr then (cr, ReadEOF)
      else
        let n = min len (length (cr_buffer cr))
        in (cr\<lparr>cr_buffer := drop n (cr_buffer cr)\<rparr>, ReadBytes (take n (cr_buffer cr))))"

section \<open>The writer\<close>

datatype write_error = WriteMDUTooSmall | WriteCompress | WriteSend channel_error

text \<open>The compression attempts: on the whole candidate, half of it and a third of it, while it does not fit.\<close>

fun compress_tries :: "(bytes \<Rightarrow> bytes option) \<Rightarrow> int \<Rightarrow> bytes \<Rightarrow> nat \<Rightarrow> nat list \<Rightarrow> unit + (bytes \<times> nat) option" where
  "compress_tries compress mdu remaining candidateLen [] = Inr None"
| "compress_tries compress mdu remaining candidateLen (compTry # tries) =
     (let segmentLen = candidateLen div compTry in
      if segmentLen = 0 then compress_tries compress mdu remaining candidateLen tries
      else
        (case compress (take segmentLen remaining) of
           None \<Rightarrow> Inl ()
         | Some compressedChunk \<Rightarrow>
             if int (length compressedChunk) < mdu \<and> length compressedChunk < segmentLen
             then Inr (Some (compressedChunk, segmentLen))
             else compress_tries compress mdu remaining candidateLen tries))"

text \<open>The next chunk: its bytes, how much of the input it stands for, and whether it is compressed.\<close>

definition next_chunk ::
  "(bytes \<Rightarrow> bytes option) \<Rightarrow> bool \<Rightarrow> int \<Rightarrow> bytes \<Rightarrow> unit + bytes \<times> nat \<times> bool" where
  "next_chunk compress enableCompression mdu remaining =
     (let candidateLen = min (length remaining) bufferMaxChunkLen;
          tries = (if enableCompression \<and> candidateLen > 32 then [1..<bufferCompressionTries] else [])
      in case compress_tries compress mdu remaining candidateLen tries of
           Inl _ \<Rightarrow> Inl ()
         | Inr (Some (chunk, processedLen)) \<Rightarrow> Inr (chunk, processedLen, True)
         | Inr None \<Rightarrow>
             let processedLen = (if int candidateLen > mdu then nat mdu else candidateLen)
             in Inr (take processedLen remaining, processedLen, False))"

lemma compress_tries_some:
  "compress_tries compress mdu remaining candidateLen tries = Inr (Some (chunk, n)) \<Longrightarrow>
     0 < n \<and> n \<le> candidateLen \<and> compress (take n remaining) = Some chunk \<and> int (length chunk) < mdu"
  by (induction tries) (auto simp: Let_def div_le_dividend split: if_splits option.splits)

lemma next_chunk_ok:
  assumes "next_chunk compress enable mdu remaining = Inr (chunk, n, compressed)" and "remaining \<noteq> []" and "0 < mdu"
  shows "0 < n \<and> n \<le> length remaining \<and> n \<le> bufferMaxChunkLen \<and> int (length chunk) \<le> mdu \<and>
    (if compressed then compress (take n remaining) = Some chunk else chunk = take n remaining)"
  using assms by (auto simp: next_chunk_def Let_def dest: compress_tries_some
      split: sum.splits option.splits if_splits)

text \<open>
  The loop of \<^verbatim>\<open>Write\<close>; the result lists what went on the wire, the number of bytes of the input sent
  and the error that ended the loop. \<open>Write\<close> has checked that the chunk size is positive.
\<close>

function write_loop ::
  "(bytes \<Rightarrow> bytes option) \<Rightarrow> bool \<Rightarrow> uint16 \<Rightarrow> outlet \<Rightarrow> (bytes \<Rightarrow> outlet_packet option) \<Rightarrow> int \<Rightarrow> bytes
     \<Rightarrow> stream_data channel \<Rightarrow> stream_data channel \<times> bytes list \<times> nat \<times> write_error option" where
  "write_loop compress enable sid out send mdu remaining c =
     (if remaining = [] \<or> mdu \<le> 0 then (c, [], 0, None)
      else
        (case next_chunk compress enable mdu remaining of
           Inl _ \<Rightarrow> (c, [], 0, Some WriteCompress)
         | Inr (chunk, processedLen, compressed) \<Rightarrow>
             let msg = \<lparr>StreamID = sid, stream_Data = chunk, stream_EOF = False, Compressed = compressed\<rparr> in
             (case channel_Send stream_codec out send msg c of
                (c1, Inl e) \<Rightarrow> (c1, [], 0, Some (WriteSend e))
              | (c1, Inr raw) \<Rightarrow>
                  (case write_loop compress enable sid out send mdu (drop processedLen remaining) c1 of
                     (c2, raws, sent, err) \<Rightarrow> (c2, raw # raws, processedLen + sent, err)))))"
  by pat_completeness auto
termination
  by (relation "measure (\<lambda>(compress, enable, sid, out, send, mdu, remaining, c). length remaining)")
    (auto dest!: next_chunk_ok)

declare write_loop.simps [simp del]

record channel_writer =
  cw_streamID :: uint16
  enableCompression :: bool

definition writer_Write ::
  "(bytes \<Rightarrow> bytes option) \<Rightarrow> outlet \<Rightarrow> (bytes \<Rightarrow> outlet_packet option) \<Rightarrow> channel_writer \<Rightarrow> bytes
     \<Rightarrow> stream_data channel \<Rightarrow> stream_data channel \<times> bytes list \<times> nat \<times> write_error option" where
  "writer_Write compress out send cw p c =
     (let mdu = out_MDU out - 6 - 2 in
      if mdu \<le> 0 then (c, [], 0, Some WriteMDUTooSmall)
      else write_loop compress (enableCompression cw) (cw_streamID cw) out send mdu p c)"

definition writer_Close ::
  "outlet \<Rightarrow> (bytes \<Rightarrow> outlet_packet option) \<Rightarrow> channel_writer \<Rightarrow> stream_data channel
     \<Rightarrow> stream_data channel \<times> (channel_error + bytes)" where
  "writer_Close out send cw c =
     channel_Send stream_codec out send
       \<lparr>StreamID = cw_streamID cw, stream_Data = [], stream_EOF = True, Compressed = False\<rparr> c"

definition bidirectional_Close ::
  "outlet \<Rightarrow> (bytes \<Rightarrow> outlet_packet option) \<Rightarrow> channel_reader \<Rightarrow> channel_writer \<Rightarrow> stream_data channel
     \<Rightarrow> stream_data channel \<times> (channel_error + bytes)" where
  "bidirectional_Close out send cr cw c = writer_Close out send cw (removeMessageHandlerByID (cr_handlerID cr) c)"

section \<open>Messages\<close>

lemma stream_id_mask: "(sid :: uint16) \<le> StreamIDMax \<Longrightarrow> sid AND 0x3fff = sid"
proof -
  assume "sid \<le> StreamIDMax"
  then have "unat sid < 2 ^ 14" by (simp add: word_le_nat_alt)
  then have "take_bit 14 sid = sid"
    by (intro word_unat_eq_iff [THEN iffD2]) (simp add: unsigned_take_bit_eq take_bit_nat_eq_self)
  moreover have "(0x3fff :: uint16) = mask 14" by (simp add: mask_eq_exp_minus_1)
  ultimately show ?thesis by (simp add: take_bit_eq_mask)
qed

text \<open>The bytes a message stands for: its data, decompressed when it is compressed.\<close>

definition plain :: "(bytes \<Rightarrow> (bytes \<times> bool) option) \<Rightarrow> stream_data \<Rightarrow> bytes" where
  "plain bunzip m = (if Compressed m then (case bunzip (stream_Data m) of Some (x, _) \<Rightarrow> x | None \<Rightarrow> []) else stream_Data m)"

definition chunk_ok :: "(bytes \<Rightarrow> (bytes \<times> bool) option) \<Rightarrow> stream_data \<Rightarrow> bool" where
  "chunk_ok bunzip m \<longleftrightarrow> (Compressed m \<longrightarrow> (\<exists>x. length x \<le> bufferMaxChunkLen \<and> bunzip (stream_Data m) = Some (x, True)))"

lemma stream_unpack_pack:
  assumes "stream_Pack m = Some data" and "chunk_ok bunzip m"
  shows "stream_Unpack bunzip data = Inr (m\<lparr>stream_Data := plain bunzip m\<rparr>)"
proof -
  let ?h0 = "StreamID m AND 0x3fff"
  let ?h1 = "if stream_EOF m then ?h0 OR 0x8000 else ?h0"
  let ?h = "if Compressed m then ?h1 OR 0x4000 else ?h1"
  from assms(1) have sid: "StreamID m \<le> StreamIDMax" and data: "data = put_uint16 ?h @ stream_Data m"
    by (auto simp: stream_Pack_def Let_def split: if_splits)
  have get: "get_uint16 (go_slice 0 2 data) = ?h"
    using get_put_uint16 [of ?h "[]"] by (simp add: data go_slice_def)
  have dr: "drop 2 data = stream_Data m" by (simp add: data)
  have w: "StreamID m AND 0x3fff = StreamID m" by (rule stream_id_mask [OF sid])
  have "(StreamID m AND 0x3fff) AND 0x8000 = 0" "(StreamID m AND 0x3fff) AND 0x4000 = 0" by (simp_all add: and.assoc)
  then have z: "StreamID m AND 0x8000 = 0" "StreamID m AND 0x4000 = 0" by (simp_all only: w)
  have h: "?h AND 0x3fff = StreamID m" "(?h AND 0x8000 \<noteq> 0) = stream_EOF m" "(?h AND 0x4000 \<noteq> 0) = Compressed m"
    by (cases "stream_EOF m"; cases "Compressed m"; simp add: w z bit.conj_disj_distrib2)+
  show ?thesis
  proof (cases "Compressed m")
    case True
    with assms(2) obtain x where "length x \<le> bufferMaxChunkLen" "bunzip (stream_Data m) = Some (x, True)"
      by (auto simp: chunk_ok_def)
    with True show ?thesis unfolding stream_Unpack_def Let_def get h dr
      by (simp add: data DecompressBzip2WithLimit_def plain_def)
  next
    case False
    then show ?thesis unfolding stream_Unpack_def Let_def get h dr by (simp add: data plain_def)
  qed
qed

section \<open>Writing\<close>

definition bzip2_law :: "(bytes \<Rightarrow> bytes option) \<Rightarrow> (bytes \<Rightarrow> (bytes \<times> bool) option) \<Rightarrow> bool" where
  "bzip2_law compress bunzip \<longleftrightarrow> (\<forall>x y. compress x = Some y \<longrightarrow> bunzip y = Some (x, True))"

lemma write_loop_steps:
  assumes "0 < mdu"
  shows "write_loop compress enable sid out send mdu [] c = (c, [], 0, None)"
    and "p \<noteq> [] \<Longrightarrow> next_chunk compress enable mdu p = Inl u \<Longrightarrow>
      write_loop compress enable sid out send mdu p c = (c, [], 0, Some WriteCompress)"
    and "p \<noteq> [] \<Longrightarrow> next_chunk compress enable mdu p = Inr (chunk, n, cmp) \<Longrightarrow>
      channel_Send stream_codec out send \<lparr>StreamID = sid, stream_Data = chunk, stream_EOF = False, Compressed = cmp\<rparr> c = (c1, Inl e) \<Longrightarrow>
      write_loop compress enable sid out send mdu p c = (c1, [], 0, Some (WriteSend e))"
    and "p \<noteq> [] \<Longrightarrow> next_chunk compress enable mdu p = Inr (chunk, n, cmp) \<Longrightarrow>
      channel_Send stream_codec out send \<lparr>StreamID = sid, stream_Data = chunk, stream_EOF = False, Compressed = cmp\<rparr> c = (c1, Inr raw) \<Longrightarrow>
      write_loop compress enable sid out send mdu (drop n p) c1 = (c2, raws, sent, err) \<Longrightarrow>
      write_loop compress enable sid out send mdu p c = (c2, raw # raws, n + sent, err)"
  using assms by (simp_all add: write_loop.simps [of _ _ _ _ _ _ p] write_loop.simps [of _ _ _ _ _ _ "[]"])

text \<open>The messages the loop hands to \<open>channel_Send\<close>, and that the accepted ones stand for what it reports as sent.\<close>

definition writes :: "(bytes \<Rightarrow> (bytes \<times> bool) option) \<Rightarrow> uint16 \<Rightarrow> outlet \<Rightarrow> (bytes \<Rightarrow> outlet_packet option) \<Rightarrow> bytes
    \<Rightarrow> stream_data channel \<Rightarrow> stream_data list \<Rightarrow> stream_data channel \<times> bytes list \<times> nat \<times> write_error option \<Rightarrow> bool" where
  "writes bunzip sid out send p c ms res \<longleftrightarrow> (case res of (c2, raws, sent, err) \<Rightarrow>
     (case send_all stream_codec out send ms c of (c', acc) \<Rightarrow>
        c' = c2 \<and> map snd acc = raws \<and> (\<forall>m \<in> set ms. StreamID m = sid \<and> \<not> stream_EOF m \<and> chunk_ok bunzip m)
        \<and> concat (map (\<lambda>(m, raw). plain bunzip m) acc) = take sent p
        \<and> sent \<le> length p \<and> (err = None \<longrightarrow> sent = length p)))"

lemma writes_failed:
  assumes "\<forall>m \<in> set ms. StreamID m = sid \<and> \<not> stream_EOF m \<and> chunk_ok bunzip m" and "send_all stream_codec out send ms c = (c1, [])"
    and "err \<noteq> None \<or> p = []"
  shows "writes bunzip sid out send p c ms (c1, [], 0, err)"
  using assms by (auto simp: writes_def)

lemma writes_more:
  assumes "writes bunzip sid out send (drop n p) c1 ms (c2, raws, sent, err)"
    and "channel_Send stream_codec out send m c = (c1, Inr raw)"
    and "StreamID m = sid" "\<not> stream_EOF m" "chunk_ok bunzip m" "plain bunzip m = take n p" "n \<le> length p"
  shows "writes bunzip sid out send p c (m # ms) (c2, raw # raws, n + sent, err)"
  using assms by (auto simp: writes_def take_add split: prod.splits)

lemma write_loop_messages:
  assumes law: "bzip2_law compress bunzip" and mdu: "0 < mdu"
  shows "\<exists>ms. writes bunzip sid out send p c ms (write_loop compress enable sid out send mdu p c)"
proof (induction "length p" arbitrary: p c rule: less_induct)
  case less
  show ?case
  proof (cases "p = [] \<or> next_chunk compress enable mdu p = Inl ()")
    case True
    then obtain err where "write_loop compress enable sid out send mdu p c = (c, [], 0, err)" "err \<noteq> None \<or> p = []"
      using write_loop_steps(1,2) [OF mdu, where compress = compress and enable = enable] by (cases "p = []") auto
    then show ?thesis by (intro exI [of _ "[]"]) (simp add: writes_failed)
  next
    case False
    then obtain chunk n cmp where nc: "next_chunk compress enable mdu p = Inr (chunk, n, cmp)"
      by (cases "next_chunk compress enable mdu p") auto
    let ?m = "\<lparr>StreamID = sid, stream_Data = chunk, stream_EOF = False, Compressed = cmp\<rparr>"
    have ok: "0 < n" "n \<le> length p" "n \<le> bufferMaxChunkLen"
        "if cmp then compress (take n p) = Some chunk else chunk = take n p"
      using next_chunk_ok [OF nc] False mdu by auto
    then have m: "plain bunzip ?m = take n p" "chunk_ok bunzip ?m"
      using law by (auto simp: plain_def chunk_ok_def bzip2_law_def split: if_splits)
    obtain c1 res where snd1: "channel_Send stream_codec out send ?m c = (c1, res)" by force
    show ?thesis
    proof (cases res)
      case (Inl e)
      have "writes bunzip sid out send p c [?m] (c1, [], 0, Some (WriteSend e))"
        by (rule writes_failed) (use snd1 Inl m in simp_all)
      with write_loop_steps(3) [OF mdu _ nc] False snd1 Inl show ?thesis by fastforce
    next
      case (Inr raw)
      obtain c2 raws sent err where rec: "write_loop compress enable sid out send mdu (drop n p) c1 = (c2, raws, sent, err)"
        by (metis prod_cases4)
      have "length (drop n p) < length p" using ok False by auto
      from less [OF this, of c1] rec obtain ms where "writes bunzip sid out send (drop n p) c1 ms (c2, raws, sent, err)" by auto
      then have "writes bunzip sid out send p c (?m # ms) (c2, raw # raws, n + sent, err)"
        by (rule writes_more) (use snd1 Inr m ok in simp_all)
      with write_loop_steps(4) [OF mdu _ nc _ rec] False snd1 Inr show ?thesis by fastforce
    qed
  qed
qed

section \<open>Reading\<close>

fun deliver :: "stream_data list \<Rightarrow> channel_reader \<Rightarrow> channel_reader" where
  "deliver [] cr = cr"
| "deliver (m # ms) cr = deliver ms (fst (reader_handleMessage m cr))"

fun read_all :: "nat list \<Rightarrow> channel_reader \<Rightarrow> channel_reader \<times> bytes" where
  "read_all [] cr = (cr, [])"
| "read_all (n # ns) cr =
     (case reader_Read n cr of (cr1, res) \<Rightarrow>
        (case read_all ns cr1 of (cr2, rest) \<Rightarrow>
           (cr2, (case res of ReadBytes d \<Rightarrow> d | _ \<Rightarrow> []) @ rest)))"

lemma deliver_buffer:
  "\<forall>m \<in> set ms. StreamID m = cr_streamID cr \<Longrightarrow>
     deliver ms cr = cr\<lparr>cr_buffer := cr_buffer cr @ concat (map stream_Data ms),
                        cr_eof := cr_eof cr \<or> (\<exists>m \<in> set ms. stream_EOF m)\<rparr>"
  by (induction ms arbitrary: cr) (auto simp: reader_handleMessage_def Let_def)

lemma read_all_take: "snd (read_all ns cr) = take (sum_list ns) (cr_buffer cr)"
proof (induction ns arbitrary: cr)
  case (Cons n ns)
  show ?case
  proof (cases "cr_buffer cr = []")
    case True
    have "snd (read_all ns cr) = []" using Cons.IH [of cr] True by simp
    with True show ?thesis by (auto simp: reader_Read_def case_prod_beta)
  next
    case False
    let ?cr = "cr\<lparr>cr_buffer := drop n (cr_buffer cr)\<rparr>"
    have "reader_Read n cr = (?cr, ReadBytes (take n (cr_buffer cr)))"
      using False by (simp add: reader_Read_def Let_def min_def)
    then show ?thesis using Cons.IH [of ?cr] by (simp add: case_prod_beta take_add)
  qed
qed simp

lemma map_filter_Some: "map f xs = map (\<lambda>y. Some (g y)) ys \<Longrightarrow> List.map_filter f xs = map g ys"
proof -
  assume "map f xs = map (\<lambda>y. Some (g y)) ys"
  moreover have "List.map_filter f xs = map the (filter (\<lambda>x. x \<noteq> None) (map f xs))"
    by (induction xs) (auto simp: List.map_filter_simps)
  ultimately show ?thesis by (simp add: comp_def filter_map)
qed


definition demo_compress :: "bytes \<Rightarrow> bytes option" where
  "demo_compress x = (if x = replicate 40 7 then Some [1] else Some (0 # x))"

definition demo_bunzip :: "bytes \<Rightarrow> (bytes \<times> bool) option" where
  "demo_bunzip y = (if y = [1] then Some (replicate 40 7, True) else Some (tl y, True))"

definition demo_stream :: "stream_data channel" where
  "demo_stream = NewChannel (1 / 10)"


end
