(* ===== verification/Forwarding.thy ===== *)
theory Forwarding
  imports Packet
begin

text \<open>
  How a transport node rewrites the frames it sends on (\<^verbatim>\<open>rns/transport.go\<close>): the transport
  header it inserts, replaces or strips, the re-framing of announces and the hop-count disguise.
  All of them touch only the parts of a frame that the packet hash leaves out.
  An interface is a number; what the code asks of it is a field of \<open>iface_env\<close>.
\<close>

section \<open>State\<close>

record iface_env =
  IsSpawnedLocalClient :: "nat \<Rightarrow> bool"
  IsLocalServer :: "nat \<Rightarrow> bool"
  IsConnectedToSharedInstance :: "nat \<Rightarrow> bool"
  iface_HWMTU :: "nat \<Rightarrow> int option"
  iface_IFACSize :: "nat \<Rightarrow> int"
  iface_Bitrate :: "nat \<Rightarrow> int"

record path_entry =
  pe_NextHop :: bytes
  pe_Hops :: int
  pe_Interface :: "nat option"

record reverse_entry =
  re_ReceivedInterface :: nat
  re_OutboundInterface :: nat
  re_Timestamp :: rat

record link_entry =
  le_Timestamp :: rat
  le_NextHop :: bytes
  le_OutboundInterface :: nat
  le_RemainingHops :: int
  le_ReceivedInterface :: nat
  le_Hops :: int
  le_DestinationHash :: bytes
  le_Validated :: bool
  le_ProofTimeout :: rat

record transport =
  ts_identity :: "bytes option"
  ts_enabled :: bool
  ts_localHopsDelta :: int
  ts_connectedToSharedInstance :: bool
  ts_allowLinkPathRebalance :: bool
  ts_packetHashes :: "bytes list"
  ts_packetHashesPrev :: "bytes list"
  ts_packetHashRotateAt :: int
  ts_pathTable :: "bytes \<Rightarrow> path_entry option"
  ts_reverseTable :: "bytes \<Rightarrow> reverse_entry option"
  ts_linkTable :: "bytes \<Rightarrow> link_entry option"
  ts_pathRequestHash :: bytes

section \<open>The hop-count disguise\<close>

definition shouldApplyDelta :: "iface_env \<Rightarrow> transport \<Rightarrow> packet \<Rightarrow> nat option \<Rightarrow> bool" where
  "shouldApplyDelta env ts p iface =
     (case iface of
        None \<Rightarrow> False
      | Some i \<Rightarrow>
          if IsLocalServer env i then False
          else
            let delta = ts_localHopsDelta ts in
            \<not> ts_connectedToSharedInstance ts \<and> Hops p = 0 \<and> delta \<noteq> 0
            \<and> DestinationType p \<noteq> DestinationPlain \<and> DestinationType p \<noteq> DestinationGroup
            \<and> \<not> IsSpawnedLocalClient env i)"

definition mangleHops :: "transport \<Rightarrow> bytes \<Rightarrow> int \<Rightarrow> bool \<Rightarrow> bytes" where
  "mangleHops ts raw hops transportInsert =
     (if length raw < 2 then raw
      else
        [if transportInsert then raw ! 0 OR word_of_int (push_bit 6 Header2 OR push_bit 4 TransportForward)
         else raw ! 0]
        @ [word_of_int hops]
        @ (if transportInsert then (case ts_identity ts of None \<Rightarrow> [] | Some h \<Rightarrow> h) else [])
        @ drop 2 raw)"

text \<open>\<open>packet.Raw[1]\<close> panics on a frame of one byte; packed frames have three bytes or more.\<close>

definition insertHopByte :: "iface_env \<Rightarrow> transport \<Rightarrow> packet \<Rightarrow> nat option \<Rightarrow> byte" where
  "insertHopByte env ts p iface =
     (if shouldApplyDelta env ts p iface then word_of_int (ts_localHopsDelta ts) else Raw p ! 1)"

definition disguiseBroadcastRaw :: "iface_env \<Rightarrow> transport \<Rightarrow> packet \<Rightarrow> nat option \<Rightarrow> bytes" where
  "disguiseBroadcastRaw env ts p iface =
     (if \<not> shouldApplyDelta env ts p iface then Raw p
      else
        let delta = ts_localHopsDelta ts;
            insert_hdr = (if PacketType p = PacketAnnounce then HeaderType p = Header1 \<and> ts_identity ts \<noteq> None
                          else False)
        in mangleHops ts (Raw p) delta insert_hdr)"

definition forwardedHopByteLocked :: "transport \<Rightarrow> packet \<Rightarrow> bool \<Rightarrow> bool \<Rightarrow> byte" where
  "forwardedHopByteLocked ts p fromLocalClient localCase =
     (if \<not> fromLocalClient \<or> localCase then word_of_int (Hops p)
      else if ts_localHopsDelta ts \<noteq> 0 then word_of_int (ts_localHopsDelta ts)
      else word_of_int (Hops p))"

definition mangleForwardedRaw :: "transport \<Rightarrow> bytes \<Rightarrow> bool \<Rightarrow> bool \<Rightarrow> bytes" where
  "mangleForwardedRaw ts raw fromLocalClient toLocalClient =
     (let delta = ts_localHopsDelta ts in
      if delta = 0 \<or> \<not> fromLocalClient \<or> toLocalClient then raw else mangleHops ts raw delta False)"

section \<open>Transport headers\<close>

text \<open>The flags of a second-type header inserted in front of an existing packet.\<close>

definition transport_flags :: "packet \<Rightarrow> byte" where
  "transport_flags p = word_of_int (push_bit 6 Header2 OR push_bit 5 (ContextFlag p)
     OR push_bit 4 TransportForward OR push_bit 2 (DestinationType p) OR PacketType p)"

definition reframeAnnounceForTransport :: "transport \<Rightarrow> bytes \<Rightarrow> bytes" where
  "reframeAnnounceForTransport ts raw =
     (case ts_identity ts of
        None \<Rightarrow> raw
      | Some idHash \<Rightarrow>
          if raw = [] then raw
          else
            (case Unpack (NewPacketFromRaw raw) of
               (parsed, err) \<Rightarrow>
                 if err \<noteq> None \<or> PacketType parsed \<noteq> PacketAnnounce then raw
                 else [transport_flags parsed, word_of_int (Hops parsed)] @ idHash
                        @ DestinationHash parsed @ [word_of_int (Context parsed)] @ Data parsed))"

text \<open>The frame an instance hands to its local clients for an announce it received.\<close>

definition local_client_announce :: "bytes \<Rightarrow> packet \<Rightarrow> bytes" where
  "local_client_announce idHash p =
     [transport_flags p, word_of_int (Hops p)] @ idHash @ DestinationHash p
       @ [word_of_int (Context p)] @ Data p"

text \<open>
  The frame \<^verbatim>\<open>Outbound\<close> sends along a known path; \<open>None\<close> when the packet already has a transport
  header and nothing is sent.
\<close>

definition outbound_path_raw :: "iface_env \<Rightarrow> transport \<Rightarrow> packet \<Rightarrow> path_entry \<Rightarrow> bytes option" where
  "outbound_path_raw env ts p pe =
     (if HeaderType p = Header2 then None
      else if pe_Hops pe > 1 \<and> length (pe_NextHop pe) = dstLen then
        Some ([transport_flags p, insertHopByte env ts p (pe_Interface pe)] @ pe_NextHop pe @ drop 2 (Raw p))
      else if pe_Hops pe = 1 \<and> ts_connectedToSharedInstance ts \<and> length (pe_NextHop pe) = dstLen then
        Some ([transport_flags p, insertHopByte env ts p (pe_Interface pe)] @ pe_NextHop pe @ drop 2 (Raw p))
      else if shouldApplyDelta env ts p (pe_Interface pe) then
        Some (mangleHops ts (Raw p) (ts_localHopsDelta ts) False)
      else Some (Raw p))"

text \<open>Go's \<^verbatim>\<open>copy(dst[lo:hi], src)\<close> on a fresh copy of \<open>xs\<close>.\<close>

definition go_copy_at :: "nat \<Rightarrow> nat \<Rightarrow> bytes \<Rightarrow> bytes \<Rightarrow> bytes" where
  "go_copy_at lo hi src xs =
     (let n = min (hi - lo) (length src) in take lo xs @ take n src @ drop (lo + n) xs)"

text \<open>The rewritten frame of a packet for which this node is the next hop.\<close>

definition forward_raw :: "transport \<Rightarrow> packet \<Rightarrow> path_entry \<Rightarrow> bytes" where
  "forward_raw ts p pe =
     (let remainingHops = pe_Hops pe in
      if remainingHops > 1 then
        go_copy_at 2 (dstLen + 2) (pe_NextHop pe) ((Raw p)[1 := word_of_int (Hops p)])
      else if remainingHops = 1 then
        (let newFlags = word_of_int (push_bit 6 Header1) OR (Flags p AND 0b00001111)
         in [newFlags, word_of_int (Hops p)] @ drop (dstLen + 2) (Raw p))
      else if ts_localHopsDelta ts \<noteq> 0 then
        (let newFlags = word_of_int (push_bit 6 Header1 OR push_bit 4 TransportBroadcast) OR (Flags p AND 0b00001111)
         in [newFlags, word_of_int (Hops p)] @ drop (dstLen + 2) (Raw p))
      else (Raw p)[1 := word_of_int (Hops p)])"

abbreviation (input) LinkECPubSize :: nat where "LinkECPubSize \<equiv> 64"

definition LinkIDFromLR :: "packet \<Rightarrow> bytes option" where
  "LinkIDFromLR p =
     map_option (\<lambda>hp.
       TruncatedHash (if length (Data p) > LinkECPubSize
                      then take (length hp - (length (Data p) - LinkECPubSize)) hp else hp))
     (GetHashablePart p)"

section \<open>Frames\<close>

definition frame1 :: "byte \<Rightarrow> byte \<Rightarrow> bytes \<Rightarrow> byte \<Rightarrow> bytes \<Rightarrow> bytes" where
  "frame1 f h dst c data = f # h # dst @ c # data"

definition frame2 :: "byte \<Rightarrow> byte \<Rightarrow> bytes \<Rightarrow> bytes \<Rightarrow> byte \<Rightarrow> bytes \<Rightarrow> bytes" where
  "frame2 f h tid dst c data = f # h # tid @ dst @ c # data"

definition header_bit :: "byte \<Rightarrow> int" where
  "header_bit f = uint (drop_bit 6 (f AND 0b01000000))"

text \<open>What two nodes must agree on when they see the same packet at different points of its path.\<close>

definition same_packet :: "packet \<Rightarrow> packet \<Rightarrow> bool" where
  "same_packet p q \<longleftrightarrow> PacketHash q = PacketHash p \<and> DestinationHash q = DestinationHash p
     \<and> Context q = Context p \<and> Data q = Data p
     \<and> PacketType q = PacketType p \<and> DestinationType q = DestinationType p"

lemma flag_facts_table:
  "list_all (\<lambda>i. let f = word_of_nat i :: byte in
      header_bit f \<in> {0, 1} \<and> header_bit (f OR 0x50) = 1 \<and> (f OR 0x50) AND 0b00001111 = f AND 0b00001111
    \<and> header_bit (0 OR (f AND 0b00001111)) = 0 \<and> (0 OR (f AND 0b00001111)) AND 0b00001111 = f AND 0b00001111
    \<and> drop_bit 2 (f AND 0b00001100) = drop_bit 2 ((f AND 0b00001111) AND 0b00001100)
    \<and> f AND 0b00000011 = (f AND 0b00001111) AND 0b00000011
    \<and> uint (drop_bit 5 (f AND 0b00100000)) \<in> {0, 1}) [0..<256]"
  by code_simp

lemma flag_facts:
  fixes f :: byte
  shows "header_bit f = 0 \<or> header_bit f = 1" "header_bit (f OR 0x50) = 1"
    "(f OR 0x50) AND 0b00001111 = f AND 0b00001111"
    "header_bit (f AND 0b00001111) = 0" "(f AND 0b00001111) AND 0b00001111 = f AND 0b00001111"
    "uint (drop_bit 5 (f AND 0b00100000)) \<in> {0, 1}"
  using byte_table [OF flag_facts_table, of f] by (auto simp: Let_def)

lemma low_nibble_fields:
  fixes f g :: byte
  assumes "f AND 0b00001111 = g AND 0b00001111"
  shows "drop_bit 2 (f AND 0b00001100) = drop_bit 2 (g AND 0b00001100)"
    and "f AND 0b00000011 = g AND 0b00000011"
  using byte_table [OF flag_facts_table, of f] byte_table [OF flag_facts_table, of g] assms
  by (auto simp only: Let_def)

lemma parse_frame1:
  assumes "length dst = dstLen" and "uint h < PathfinderM" and "header_bit f = 0"
  shows "\<exists>u. Unpack (NewPacketFromRaw (frame1 f h dst c data)) = (u, None)
    \<and> Hops u = uint h \<and> HeaderType u = Header1 \<and> DestinationHash u = dst \<and> Context u = uint c \<and> Data u = data
    \<and> DestinationType u = uint (drop_bit 2 (f AND 0b00001100)) \<and> PacketType u = uint (f AND 0b00000011)
    \<and> PacketHash u = FullHash ((f AND 0b00001111) # dst @ c # data) \<and> TransportID u = None"
  using Unpack_layout1 [of "NewPacketFromRaw (frame1 f h dst c data)" f h dst c data] assms
  by (simp add: frame1_def NewPacketFromRaw_def header_bit_def)

lemma parse_frame2:
  assumes "length tid = dstLen" and "length dst = dstLen" and "uint h < PathfinderM" and "header_bit f = 1"
  shows "\<exists>u. Unpack (NewPacketFromRaw (frame2 f h tid dst c data)) = (u, None)
    \<and> Hops u = uint h \<and> HeaderType u = Header2 \<and> DestinationHash u = dst \<and> Context u = uint c \<and> Data u = data
    \<and> DestinationType u = uint (drop_bit 2 (f AND 0b00001100)) \<and> PacketType u = uint (f AND 0b00000011)
    \<and> PacketHash u = FullHash ((f AND 0b00001111) # dst @ c # data) \<and> TransportID u = Some tid"
  using Unpack_layout2 [of "NewPacketFromRaw (frame2 f h tid dst c data)" f h tid dst c data] assms
  by (simp add: frame2_def NewPacketFromRaw_def header_bit_def)

text \<open>Every accepted frame is one of the two layouts, and the parsed packet records it.\<close>

definition records_frame :: "packet \<Rightarrow> byte \<Rightarrow> bytes \<Rightarrow> byte \<Rightarrow> bytes \<Rightarrow> bool" where
  "records_frame p f dst c data \<longleftrightarrow> Flags p = f \<and> DestinationHash p = dst \<and> Context p = uint c \<and> Data p = data
     \<and> ContextFlag p = uint (drop_bit 5 (f AND 0b00100000))
     \<and> DestinationType p = uint (drop_bit 2 (f AND 0b00001100)) \<and> PacketType p = uint (f AND 0b00000011)
     \<and> PacketHash p = FullHash ((f AND 0b00001111) # dst @ c # data)"

lemma raw_split1:
  assumes "length raw \<ge> dstLen + 3"
  shows "\<exists>f h dst c data. raw = frame1 f h dst c data \<and> length dst = dstLen"
proof -
  obtain f h rest where r: "raw = f # h # rest" using assms by (cases raw; cases "tl raw") (auto simp: dstLen_def)
  have "rest = take 16 rest @ hd (drop 16 rest) # tl (drop 16 rest)"
    using assms r by (cases "drop 16 rest") (auto simp: dstLen_def dest: sym)
  moreover have "length (take 16 rest) = dstLen" using assms r by (simp add: dstLen_def)
  ultimately show ?thesis unfolding frame1_def using r by blast
qed

lemma raw_split2:
  assumes "length raw \<ge> 2 * dstLen + 3"
  shows "\<exists>f h tid dst c data. raw = frame2 f h tid dst c data \<and> length tid = dstLen \<and> length dst = dstLen"
proof -
  obtain f h rest where r: "raw = f # h # rest" using assms by (cases raw; cases "tl raw") (auto simp: dstLen_def)
  have "rest = take 16 rest @ take 16 (drop 16 rest) @ hd (drop 32 rest) # tl (drop 32 rest)"
    using assms r
    by (cases "drop 32 rest") (auto simp: dstLen_def simp flip: append.assoc take_add dest: sym)
  moreover have "length (take 16 rest) = dstLen" "length (take 16 (drop 16 rest)) = dstLen"
    using assms r by (simp_all add: dstLen_def)
  ultimately show ?thesis unfolding frame2_def using r by blast
qed

lemma Unpack_ok_lengths:
  assumes "Unpack p = (u, None)"
  shows "uint (Raw p ! 1) < PathfinderM \<and>
    length (Raw p) \<ge> (if header_bit (Raw p ! 0) = Header2 then 2 * dstLen + 3 else dstLen + 3)"
  using assms by (auto simp: Unpack_def Let_def header_bit_def split: if_splits)

lemma parsed_cases:
  assumes "Unpack (NewPacketFromRaw raw) = (p, None)"
  obtains (h1) f h dst c data where "raw = frame1 f h dst c data" "length dst = dstLen" "header_bit f = 0"
      "HeaderType p = Header1" "records_frame p f dst c data" "Raw p = raw" "Hops p = uint h" "uint h < PathfinderM"
  | (h2) f h tid dst c data where "raw = frame2 f h tid dst c data" "length tid = dstLen" "length dst = dstLen"
      "header_bit f = 1" "HeaderType p = Header2" "TransportID p = Some tid"
      "records_frame p f dst c data" "Raw p = raw" "Hops p = uint h" "uint h < PathfinderM"
proof -
  let ?p = "NewPacketFromRaw raw"
  have [simp]: "Raw ?p = raw" by (simp add: NewPacketFromRaw_def)
  note len = Unpack_ok_lengths [OF assms, simplified]
  show thesis
  proof (cases "header_bit (raw ! 0) = Header2")
    case True
    with len obtain f h tid dst c data where
      r: "raw = frame2 f h tid dst c data" "length tid = dstLen" "length dst = dstLen"
      using raw_split2 by (metis (mono_tags))
    with len True have f: "header_bit f = Header2" "uint h < PathfinderM" by (simp_all add: frame2_def)
    then have "p = fst (Unpack ?p)" "Unpack ?p = Unpack ?p" using assms by simp_all
    with Unpack_layout2 [of ?p f h tid dst c data] r f show ?thesis
      by (intro h2 [of f h tid dst c data])
        (simp_all add: frame2_def header_bit_def records_frame_def NewPacketFromRaw_def)
  next
    case False
    with len obtain f h dst c data where r: "raw = frame1 f h dst c data" "length dst = dstLen"
      using raw_split1 by (metis (mono_tags))
    with len False have f: "header_bit f = Header1" "uint h < PathfinderM"
      using flag_facts(1) [of f] by (auto simp: frame1_def)
    then have "p = fst (Unpack ?p)" using assms by simp
    with Unpack_layout1 [of ?p f h dst c data] r f show ?thesis
      by (intro h1 [of f h dst c data])
        (simp_all add: frame1_def header_bit_def records_frame_def NewPacketFromRaw_def)
  qed
qed

lemma same_packet_frame1:
  assumes "records_frame p f dst c data" and "f' AND 0b00001111 = f AND 0b00001111"
    and "length dst = dstLen" and "uint h < PathfinderM" and "header_bit f' = 0"
  shows "\<exists>u. Unpack (NewPacketFromRaw (frame1 f' h dst c data)) = (u, None) \<and> same_packet p u \<and> Hops u = uint h
    \<and> HeaderType u = Header1"
  using parse_frame1 [OF assms(3-5), of c data] low_nibble_fields [OF assms(2)] assms(1,2)
  by (auto simp: records_frame_def same_packet_def)

lemma same_packet_frame2:
  assumes "records_frame p f dst c data" and "f' AND 0b00001111 = f AND 0b00001111"
    and "length tid = dstLen" and "length dst = dstLen" and "uint h < PathfinderM" and "header_bit f' = 1"
  shows "\<exists>u. Unpack (NewPacketFromRaw (frame2 f' h tid dst c data)) = (u, None) \<and> same_packet p u \<and> Hops u = uint h
    \<and> TransportID u = Some tid"
  using parse_frame2 [OF assms(3-6), of c data] low_nibble_fields [OF assms(2)] assms(1,2)
  by (auto simp: records_frame_def same_packet_def)

text \<open>The flags written for an inserted header agree with the packet's own in the low nibble.\<close>

lemma transport_flags_facts:
  assumes "records_frame p f dst c data"
  shows "transport_flags p AND 0b00001111 = f AND 0b00001111" "header_bit (transport_flags p) = 1"
proof -
  have fb: "transport_flags p = flag_byte 1 (ContextFlag p) 1 (uint (drop_bit 2 (f AND 0b00001100))) (uint (f AND 0b00000011))"
    using assms by (simp add: transport_flags_def flag_byte_def records_frame_def)
  have c: "ContextFlag p \<in> {0, 1}" using assms flag_facts(6) [of f] by (simp add: records_frame_def)
  show "transport_flags p AND 0b00001111 = f AND 0b00001111"
    unfolding fb by (rule flag_byte_of_flags) (use c in auto)
  have low: "uint (drop_bit 2 (f AND 0b00001100)) \<in> {0, 1, 2, 3}" "uint (f AND 0b00000011) \<in> {0, 1, 2, 3}"
    using byte_table [OF flags_low_table, of f] by (simp_all add: Let_def)
  show "header_bit (transport_flags p) = 1"
    unfolding fb header_bit_def by (rule flag_byte_fields(1)) (use c low in auto)
qed

section \<open>Rewriting keeps the packet\<close>

lemma forward_raw_frame2:
  assumes "Raw p = frame2 f h tid dst c data" and "Flags p = f" and "length tid = dstLen"
    and "length (pe_NextHop pe) = dstLen"
  shows "forward_raw ts p pe =
    (if pe_Hops pe > 1 then frame2 f (word_of_int (Hops p)) (pe_NextHop pe) dst c data
     else if pe_Hops pe = 1 \<or> ts_localHopsDelta ts \<noteq> 0 then
       frame1 (f AND 0b00001111) (word_of_int (Hops p)) dst c data
     else frame2 f (word_of_int (Hops p)) tid dst c data)"
  using assms
  by (simp add: forward_raw_def Let_def go_copy_at_def frame2_def frame1_def dstLen_def)

lemma forward_raw_same:
  assumes parse: "Unpack (NewPacketFromRaw raw) = (p, None)" and h2: "HeaderType p = Header2"
    and nh: "length (pe_NextHop pe) = dstLen" and hops: "0 \<le> hops" "hops < PathfinderM"
  shows "\<exists>u. Unpack (NewPacketFromRaw (forward_raw ts (p\<lparr>Hops := hops\<rparr>) pe)) = (u, None)
    \<and> same_packet p u \<and> Hops u = hops"
  using parse
proof (cases rule: parsed_cases)
  case (h1 f h dst c data)
  with h2 show ?thesis by simp
next
  case (h2 f h tid dst c data)
  have hb: "uint (word_of_int hops :: byte) = hops" using hops by (intro uint_byte_of_int) (auto simp: PathfinderM_def)
  have fl: "Flags p = f" using h2(7) by (simp add: records_frame_def)
  have fr: "forward_raw ts (p\<lparr>Hops := hops\<rparr>) pe =
    (if pe_Hops pe > 1 then frame2 f (word_of_int hops) (pe_NextHop pe) dst c data
     else if pe_Hops pe = 1 \<or> ts_localHopsDelta ts \<noteq> 0 then frame1 (f AND 0b00001111) (word_of_int hops) dst c data
     else frame2 f (word_of_int hops) tid dst c data)"
    using forward_raw_frame2 [of "p\<lparr>Hops := hops\<rparr>" f h tid dst c data pe ts] h2 fl nh by simp
  show ?thesis
    unfolding fr
    using same_packet_frame2 [OF h2(7) refl nh h2(3), of "word_of_int hops"]
      same_packet_frame2 [OF h2(7) refl h2(2,3), of "word_of_int hops"]
      same_packet_frame1 [OF h2(7) flag_facts(5) h2(3), of "word_of_int hops"]
      h2(4) hb hops flag_facts(4) [of f]
    by auto
qed

lemma drop2_frames [simp]:
  "drop 2 (frame1 f h dst c data) = dst @ c # data" "drop 2 (frame2 f h tid dst c data) = tid @ dst @ c # data"
  "frame1 f h dst c data ! 0 = f" "frame2 f h tid dst c data ! 0 = f"
  "\<not> length (frame1 f h dst c data) < 2" "\<not> length (frame2 f h tid dst c data) < 2"
  by (simp_all add: frame1_def frame2_def)

lemma mangleHops_frames:
  "mangleHops ts (frame1 f h dst c data) hops False = frame1 f (word_of_int hops) dst c data"
  "mangleHops ts (frame2 f h tid dst c data) hops False = frame2 f (word_of_int hops) tid dst c data"
  "ts_identity ts = Some ident \<Longrightarrow>
     mangleHops ts (frame1 f h dst c data) hops True = frame2 (f OR 0x50) (word_of_int hops) ident dst c data"
  unfolding mangleHops_def
  by simp_all (simp_all add: frame1_def frame2_def)

lemma mangleHops_same:
  assumes parse: "Unpack (NewPacketFromRaw raw) = (p, None)" and hops: "0 \<le> hops" "hops < PathfinderM"
    and ins: "ins \<Longrightarrow> HeaderType p = Header1 \<and> (\<exists>ident. ts_identity ts = Some ident \<and> length ident = dstLen)"
  shows "\<exists>u. Unpack (NewPacketFromRaw (mangleHops ts raw hops ins)) = (u, None) \<and> same_packet p u \<and> Hops u = hops"
proof -
  have hb: "uint (word_of_int hops :: byte) = hops" "uint (word_of_int hops :: byte) < PathfinderM"
    using hops uint_byte_of_int [of hops] by (auto simp: PathfinderM_def)
  from parse show ?thesis
  proof (cases rule: parsed_cases)
    case (h1 f h dst c data)
    show ?thesis
    proof (cases ins)
      case True
      with ins obtain ident where "ts_identity ts = Some ident" "length ident = dstLen" by blast
      with True same_packet_frame2 [OF h1(5) flag_facts(3) _ h1(2) hb(2) flag_facts(2), of ident] h1(1) hb
      show ?thesis by (auto simp: mangleHops_frames)
    next
      case False
      with same_packet_frame1 [OF h1(5) refl h1(2) hb(2) h1(3)] h1(1) hb
      show ?thesis by (auto simp: mangleHops_frames)
    qed
  next
    case (h2 f h tid dst c data)
    with ins have "\<not> ins" by auto
    with same_packet_frame2 [OF h2(7) refl h2(2,3) hb(2) h2(4)] h2(1) hb
    show ?thesis by (auto simp: mangleHops_frames)
  qed
qed

lemma parsed_Raw: "Unpack (NewPacketFromRaw raw) = (p, None) \<Longrightarrow> Raw p = raw"
  by (erule parsed_cases) simp_all

lemma same_packet_refl: "same_packet p p" by (simp add: same_packet_def)

lemma same_packet_trans: "same_packet p q \<Longrightarrow> same_packet q r \<Longrightarrow> same_packet p r"
  by (simp add: same_packet_def)

section \<open>Properties\<close>

text \<open>
  C1: A transported packet stays the same packet: whatever the remaining hop count and the hop
  disguise, the frame a transport node forwards for a packet with a transport header parses
  at the next node to the same packet hash, destination, context, data and types, with the hop
  count the node wrote.
\<close>

theorem forwarding_keeps_packet:
  assumes parse: "Unpack (NewPacketFromRaw raw) = (p, None)" and h2: "HeaderType p = Header2"
    and nh: "length (pe_NextHop pe) = dstLen" and hops: "0 \<le> hops" "hops < PathfinderM"
    and delta: "0 \<le> ts_localHopsDelta ts" "ts_localHopsDelta ts < PathfinderM"
  shows "\<exists>u. Unpack (NewPacketFromRaw
        (mangleForwardedRaw ts (forward_raw ts (p\<lparr>Hops := hops\<rparr>) pe) fromLocal toLocal)) = (u, None)
    \<and> same_packet p u
    \<and> Hops u = (if ts_localHopsDelta ts = 0 \<or> \<not> fromLocal \<or> toLocal then hops else ts_localHopsDelta ts)"
proof -
  obtain u where u: "Unpack (NewPacketFromRaw (forward_raw ts (p\<lparr>Hops := hops\<rparr>) pe)) = (u, None)"
    "same_packet p u" "Hops u = hops"
    using forward_raw_same [OF parse h2 nh hops] by blast
  obtain v where "Unpack (NewPacketFromRaw (mangleHops ts (forward_raw ts (p\<lparr>Hops := hops\<rparr>) pe)
        (ts_localHopsDelta ts) False)) = (v, None)" "same_packet u v" "Hops v = ts_localHopsDelta ts"
    using mangleHops_same [OF u(1) delta, of False ts] by blast
  with u show ?thesis by (auto simp: mangleForwardedRaw_def Let_def intro: same_packet_trans)
qed

definition demo_ts :: transport where
  "demo_ts = \<lparr>ts_identity = Some (replicate 16 9), ts_enabled = True, ts_localHopsDelta = 3,
     ts_connectedToSharedInstance = False, ts_allowLinkPathRebalance = True,
     ts_packetHashes = [], ts_packetHashesPrev = [], ts_packetHashRotateAt = 2,
     ts_pathTable = Map.empty, ts_reverseTable = Map.empty, ts_linkTable = Map.empty,
     ts_pathRequestHash = []\<rparr>"

definition demo_frame2 :: bytes where
  "demo_frame2 = frame2 0x50 4 (replicate 16 9) (replicate 16 7) 0 [1, 2, 3]"

definition demo_frame1 :: bytes where
  "demo_frame1 = frame1 0 0 (replicate 16 7) 0 [1, 2, 3]"

theorem forwarding_keeps_packet_witness:
  "\<exists>p u. Unpack (NewPacketFromRaw demo_frame2) = (p, None)
    \<and> Unpack (NewPacketFromRaw (mangleForwardedRaw demo_ts (forward_raw demo_ts (p\<lparr>Hops := 5\<rparr>)
        \<lparr>pe_NextHop = replicate 16 8, pe_Hops = 1, pe_Interface = Some 2\<rparr>) False False)) = (u, None)
    \<and> PacketHash u = PacketHash p \<and> Hops u = 5"
proof -
  obtain p where p: "Unpack (NewPacketFromRaw demo_frame2) = (p, None)" "HeaderType p = Header2"
    using parse_frame2 [where tid = "replicate 16 9" and dst = "replicate 16 7" and h = 4 and f = "0x50" and c = 0
        and data = "[1, 2, 3]"]
    by (auto simp: demo_frame2_def dstLen_def PathfinderM_def header_bit_def)
  from forwarding_keeps_packet [OF p, of "\<lparr>pe_NextHop = replicate 16 8, pe_Hops = 1, pe_Interface = Some 2\<rparr>" 5
      demo_ts False False]
  show ?thesis using p(1) by (auto simp: dstLen_def PathfinderM_def demo_ts_def same_packet_def)
qed

text \<open>
  The frame sent along a known path carries the packet unchanged: inserting a transport
  header, disguising the hop count of a packet of this node's own, or sending the frame as it is,
  the next node parses the same packet hash, destination, context, data and types, and finds the
  path's next hop as the transport id when a header was inserted.
\<close>

theorem outbound_keeps_packet:
  assumes parse: "Unpack (NewPacketFromRaw raw) = (p, None)"
    and out: "outbound_path_raw env ts p pe = Some raw'"
    and delta: "0 \<le> ts_localHopsDelta ts" "ts_localHopsDelta ts < PathfinderM"
  shows "\<exists>u. Unpack (NewPacketFromRaw raw') = (u, None) \<and> same_packet p u
    \<and> (pe_Hops pe > 1 \<and> length (pe_NextHop pe) = dstLen \<longrightarrow> TransportID u = Some (pe_NextHop pe))"
  using parse
proof (cases rule: parsed_cases)
  case (h2 f h tid dst c data)
  with out show ?thesis by (simp add: outbound_path_raw_def)
next
  case (h1 f h dst c data)
  let ?hb = "insertHopByte env ts p (pe_Interface pe)"
  have hb: "uint ?hb < PathfinderM"
    using delta h1(1,6,8) uint_byte_of_int [of "ts_localHopsDelta ts"]
    by (auto simp: insertHopByte_def frame1_def PathfinderM_def)
  have ins: "[transport_flags p, ?hb] @ pe_NextHop pe @ drop 2 (Raw p)
      = frame2 (transport_flags p) ?hb (pe_NextHop pe) dst c data"
    using h1(1,6) by (simp add: frame2_def)
  consider (insert) "length (pe_NextHop pe) = dstLen" "raw' = frame2 (transport_flags p) ?hb (pe_NextHop pe) dst c data"
    | (plain) "\<not> (pe_Hops pe > 1 \<and> length (pe_NextHop pe) = dstLen)"
        "raw' = mangleHops ts raw (ts_localHopsDelta ts) False \<or> raw' = raw"
    using out ins h1(6) by (auto simp: outbound_path_raw_def split: if_splits)
  then show ?thesis
  proof cases
    case insert
    with same_packet_frame2 [OF h1(5) transport_flags_facts(1) [OF h1(5)] _ h1(2) hb transport_flags_facts(2) [OF h1(5)]]
    show ?thesis by blast
  next
    case plain
    with mangleHops_same [OF parse delta, of False ts] parse same_packet_refl show ?thesis by blast
  qed
qed

theorem outbound_keeps_packet_witness:
  "\<exists>p u. Unpack (NewPacketFromRaw demo_frame1) = (p, None)
    \<and> outbound_path_raw \<lparr>IsSpawnedLocalClient = \<lambda>_. False, IsLocalServer = \<lambda>_. False,
        IsConnectedToSharedInstance = \<lambda>_. False, iface_HWMTU = \<lambda>_. None, iface_IFACSize = \<lambda>_. 0,
        iface_Bitrate = \<lambda>_. 0\<rparr> demo_ts p \<lparr>pe_NextHop = replicate 16 8, pe_Hops = 3, pe_Interface = Some 2\<rparr>
        = Some (frame2 0x50 3 (replicate 16 8) (replicate 16 7) 0 [1, 2, 3])
    \<and> Unpack (NewPacketFromRaw (frame2 0x50 3 (replicate 16 8) (replicate 16 7) 0 [1, 2, 3])) = (u, None)
    \<and> PacketHash u = PacketHash p \<and> TransportID u = Some (replicate 16 8)"
proof -
  let ?env = "\<lparr>IsSpawnedLocalClient = \<lambda>_. False, IsLocalServer = \<lambda>_. False,
        IsConnectedToSharedInstance = \<lambda>_. False, iface_HWMTU = \<lambda>_. None, iface_IFACSize = \<lambda>_. 0,
        iface_Bitrate = \<lambda>_. 0\<rparr>"
  let ?pe = "\<lparr>pe_NextHop = replicate 16 8, pe_Hops = 3, pe_Interface = Some 2\<rparr>"
  let ?p = "fst (Unpack (NewPacketFromRaw demo_frame1))"
  have u: "Unpack (NewPacketFromRaw demo_frame1) = (?p, None)"
    and o: "outbound_path_raw ?env demo_ts ?p ?pe = Some (frame2 0x50 3 (replicate 16 8) (replicate 16 7) 0 [1, 2, 3])"
    by (simp_all add: Unpack_layout1 [of _ 0 0 "replicate 16 7" 0 "[1, 2, 3]"] demo_frame1_def frame1_def
        NewPacketFromRaw_def outbound_path_raw_def demo_ts_def shouldApplyDelta_def insertHopByte_def
        transport_flags_def packet_consts empty_packet_def frame2_def)
  from outbound_keeps_packet [OF u o] u o show ?thesis
    by (auto simp: demo_ts_def PathfinderM_def dstLen_def same_packet_def)
qed

text \<open>
  An announce that a transport node re-frames parses to the same announce, now carrying the
  node's own identity as its transport id; anything else passes through untouched.
\<close>

theorem reframed_announce_keeps_packet:
  assumes parse: "Unpack (NewPacketFromRaw raw) = (p, None)"
    and ident: "ts_identity ts = Some ident" "length ident = dstLen"
  shows "if PacketType p = PacketAnnounce
    then \<exists>u. Unpack (NewPacketFromRaw (reframeAnnounceForTransport ts raw)) = (u, None)
      \<and> same_packet p u \<and> Hops u = Hops p \<and> TransportID u = Some ident
    else reframeAnnounceForTransport ts raw = raw"
proof -
  have ne: "raw \<noteq> []" using parse by (auto simp: Unpack_def NewPacketFromRaw_def)
  obtain f dst c data where rec: "records_frame p f dst c data" "length dst = dstLen"
      and hops: "0 \<le> Hops p" "Hops p < PathfinderM"
    using parse by (cases rule: parsed_cases) auto
  have hb: "uint (word_of_int (Hops p) :: byte) = Hops p"
    using hops by (intro uint_byte_of_int) (auto simp: PathfinderM_def)
  have "reframeAnnounceForTransport ts raw = frame2 (transport_flags p) (word_of_int (Hops p)) ident dst c data"
    if "PacketType p = PacketAnnounce"
    using that ident ne parse rec
    by (simp add: reframeAnnounceForTransport_def frame2_def records_frame_def)
  moreover have "reframeAnnounceForTransport ts raw = raw" if "PacketType p \<noteq> PacketAnnounce"
    using that ident ne parse by (simp add: reframeAnnounceForTransport_def)
  ultimately show ?thesis
    using same_packet_frame2 [OF rec(1) transport_flags_facts(1) [OF rec(1)] ident(2) rec(2) _
        transport_flags_facts(2) [OF rec(1)], of "word_of_int (Hops p)"] hb hops
    by auto
qed

theorem reframed_announce_keeps_packet_witness:
  "\<exists>u. Unpack (NewPacketFromRaw (reframeAnnounceForTransport demo_ts (frame1 1 6 (replicate 16 7) 0 [1, 2]))) = (u, None)
    \<and> TransportID u = Some (replicate 16 9) \<and> Hops u = 6"
proof -
  obtain p where "Unpack (NewPacketFromRaw (frame1 1 6 (replicate 16 7) 0 [1, 2])) = (p, None)"
    "PacketType p = PacketAnnounce" "Hops p = 6"
    using parse_frame1 [of "replicate 16 7" 6 1 0 "[1, 2]"]
    by (auto simp: dstLen_def PathfinderM_def header_bit_def)
  with reframed_announce_keeps_packet [of "frame1 1 6 (replicate 16 7) 0 [1, 2]" p demo_ts "replicate 16 9"]
  show ?thesis by (auto simp: demo_ts_def dstLen_def)
qed

text \<open>
  A packet without a transport header that the node forwards to one of its local clients
  (a path of zero hops) while the hop-count disguise is on loses its destination: the code strips
  sixteen bytes where a transport id would be, so the forwarded frame is the flags, the hop count,
  the context byte and the data, and no node can parse the original destination from it.
\<close>

theorem forward_to_local_client_strips_destination:
  assumes parse: "Unpack (NewPacketFromRaw raw) = (p, None)" and h1: "HeaderType p = Header1"
    and zero: "pe_Hops pe = 0" and disguise: "ts_localHopsDelta ts \<noteq> 0"
  shows "forward_raw ts (p\<lparr>Hops := hops, TransportID := tid\<rparr>) pe
    = [Flags p AND 0b00001111, word_of_int hops, word_of_int (Context p)] @ Data p"
  using parse
proof (cases rule: parsed_cases)
  case (h1 f h dst c data)
  with zero disguise show ?thesis
    by (simp add: forward_raw_def Let_def records_frame_def frame1_def dstLen_def)
next
  case (h2 f h tid dst c data)
  with h1 show ?thesis by simp
qed

theorem forward_to_local_client_strips_destination_witness:
  "\<exists>p. Unpack (NewPacketFromRaw demo_frame1) = (p, None)
    \<and> forward_raw demo_ts (p\<lparr>Hops := 1, TransportID := Some (replicate 16 9)\<rparr>)
        \<lparr>pe_NextHop = [], pe_Hops = 0, pe_Interface = Some 2\<rparr> = [0, 1, 0, 1, 2, 3]
    \<and> snd (Unpack (NewPacketFromRaw [0, 1, 0, 1, 2, 3])) = Some TooShortHeader1"
proof -
  let ?p = "fst (Unpack (NewPacketFromRaw demo_frame1))"
  have u: "Unpack (NewPacketFromRaw demo_frame1) = (?p, None)" "HeaderType ?p = Header1" "Flags ?p = 0"
      "Context ?p = 0" "Data ?p = [1, 2, 3]"
    by (simp_all add: Unpack_layout1 [of _ 0 0 "replicate 16 7" 0 "[1, 2, 3]"] demo_frame1_def frame1_def
        NewPacketFromRaw_def packet_consts empty_packet_def)
  have "snd (Unpack (NewPacketFromRaw [0, 1, 0, 1, 2, 3])) = Some TooShortHeader1"
    by (simp add: Unpack_def NewPacketFromRaw_def packet_consts)
  with forward_to_local_client_strips_destination [OF u(1,2),
      where pe = "\<lparr>pe_NextHop = [], pe_Hops = 0, pe_Interface = Some 2\<rparr>" and ts = demo_ts and hops = 1
        and tid = "Some (replicate 16 9)"] u
  show ?thesis by (auto simp: demo_ts_def)
qed

end
