(* ===== verification/InboundQueues.thy ===== *)
theory InboundQueues
  imports Prelude
begin

text \<open>
  The inbound packet queue (\<^verbatim>\<open>rns/inbound-queues.go\<close>): four bounded FIFO queues, one per traffic
  class, drained in priority order. Every operation holds the mutex, so an execution is a
  sequence of operations; waiting on the notification channel is the outcome \<open>Blocked\<close>, after
  which the caller scans again. The abstract queue is one list of classed items in arrival
  order, and the code refines it.
\<close>

section \<open>The code\<close>

abbreviation (input) NumTrafficClasses :: nat where "NumTrafficClasses \<equiv> 4"

datatype iq_error = InboundQueueFull | InboundQueueEmpty | InboundQueueStopped | InvalidTrafficClass

record 'a inbound_queues =
  iq_queues :: "'a list list"
  iq_sizes :: "int list"
  iq_dropped :: "int list"

definition NewInboundQueues :: "int list \<Rightarrow> 'a inbound_queues" where
  "NewInboundQueues sizes =
     \<lparr>iq_queues = replicate NumTrafficClasses [], iq_sizes = take NumTrafficClasses sizes,
      iq_dropped = replicate NumTrafficClasses 0\<rparr>"

definition Put :: "int \<Rightarrow> 'a \<Rightarrow> 'a inbound_queues \<Rightarrow> 'a inbound_queues \<times> iq_error option" where
  "Put trafficClass item q =
     (if trafficClass < 0 \<or> trafficClass \<ge> int NumTrafficClasses then (q, Some InvalidTrafficClass)
      else
        let c = nat trafficClass in
        if int (length (iq_queues q ! c)) \<ge> iq_sizes q ! c then
          (q\<lparr>iq_dropped := (iq_dropped q)[c := iq_dropped q ! c + 1]\<rparr>, Some InboundQueueFull)
        else (q\<lparr>iq_queues := (iq_queues q)[c := iq_queues q ! c @ [item]]\<rparr>, None))"

text \<open>The scan every form of \<^verbatim>\<open>Get\<close> starts with.\<close>

fun scan_classes :: "'a list list \<Rightarrow> ('a \<times> 'a list list) option" where
  "scan_classes [] = None"
| "scan_classes ([] # qs) = map_option (\<lambda>(item, qs'). (item, [] # qs')) (scan_classes qs)"
| "scan_classes ((x # xs) # qs) = Some (x, xs # qs)"

datatype 'a get_outcome = Got 'a | GetError iq_error | Blocked

text \<open>One pass of \<^verbatim>\<open>get\<close>; \<open>expired\<close> tells whether the deadline has passed.\<close>

definition get_pass :: "bool \<Rightarrow> bool \<Rightarrow> bool \<Rightarrow> 'a inbound_queues \<Rightarrow> 'a inbound_queues \<times> 'a get_outcome" where
  "get_pass block hasTimeout expired q =
     (case scan_classes (iq_queues q) of
        Some (item, qs) \<Rightarrow> (q\<lparr>iq_queues := qs\<rparr>, Got item)
      | None \<Rightarrow>
          if \<not> block then (q, GetError InboundQueueEmpty)
          else if hasTimeout \<and> expired then (q, GetError InboundQueueEmpty)
          else (q, Blocked))"

definition TryGet :: "'a inbound_queues \<Rightarrow> 'a inbound_queues \<times> 'a get_outcome" where
  "TryGet q = get_pass False False False q"

text \<open>One pass of \<^verbatim>\<open>GetUntil\<close>: the scan is the same before and after the stop channel closes.\<close>

definition GetUntil :: "bool \<Rightarrow> 'a inbound_queues \<Rightarrow> 'a inbound_queues \<times> 'a get_outcome" where
  "GetUntil stopped q =
     (case scan_classes (iq_queues q) of
        Some (item, qs) \<Rightarrow> (q\<lparr>iq_queues := qs\<rparr>, Got item)
      | None \<Rightarrow> if stopped then (q, GetError InboundQueueStopped) else (q, Blocked))"

definition QSize :: "'a inbound_queues \<Rightarrow> int" where
  "QSize q = foldl (\<lambda>total c. total + int (length c)) 0 (iq_queues q)"

definition QSizeOf :: "int \<Rightarrow> 'a inbound_queues \<Rightarrow> int" where
  "QSizeOf trafficClass q =
     (if trafficClass < 0 \<or> trafficClass \<ge> int NumTrafficClasses then 0
      else int (length (iq_queues q ! nat trafficClass)))"

definition Snapshot :: "'a inbound_queues \<Rightarrow> int \<times> int list \<times> int list" where
  "Snapshot q =
     (let heights = map (\<lambda>c. int (length c)) (iq_queues q)
      in (foldl (+) 0 heights, heights, take (length (iq_queues q)) (iq_dropped q)))"

section \<open>The abstract queue\<close>

definition class_items :: "nat \<Rightarrow> (nat \<times> 'a) list \<Rightarrow> 'a list" where
  "class_items c pending_items = map snd (filter (\<lambda>e. fst e = c) pending_items)"

definition spec_put :: "int list \<Rightarrow> nat \<Rightarrow> 'a \<Rightarrow> (nat \<times> 'a) list \<Rightarrow> (nat \<times> 'a) list \<times> bool" where
  "spec_put sizes c item l =
     (if int (length (class_items c l)) \<ge> sizes ! c then (l, False) else (l @ [(c, item)], True))"

fun remove_class :: "nat \<Rightarrow> (nat \<times> 'a) list \<Rightarrow> (nat \<times> 'a) list" where
  "remove_class c [] = []"
| "remove_class c (e # es) = (if fst e = c then es else e # remove_class c es)"

text \<open>The oldest item of the most urgent class that has one.\<close>

definition spec_get :: "(nat \<times> 'a) list \<Rightarrow> ('a \<times> (nat \<times> 'a) list) option" where
  "spec_get l =
     (if l = [] then None
      else let c = Min (fst ` set l) in Some (hd (class_items c l), remove_class c l))"

definition iq_abs :: "'a inbound_queues \<Rightarrow> (nat \<times> 'a) list \<Rightarrow> bool" where
  "iq_abs q l \<longleftrightarrow> length (iq_queues q) = NumTrafficClasses
     \<and> (\<forall>c<NumTrafficClasses. iq_queues q ! c = class_items c l)
     \<and> (\<forall>e\<in>set l. fst e < NumTrafficClasses)"

section \<open>Refinement\<close>

lemma class_items_append [simp]: "class_items c (a @ b) = class_items c a @ class_items c b"
  by (simp add: class_items_def)

lemma class_items_single [simp]: "class_items c [(d, x)] = (if d = c then [x] else [])"
  by (simp add: class_items_def)

lemma class_items_empty_iff: "class_items c l = [] \<longleftrightarrow> c \<notin> fst ` set l"
  by (force simp: class_items_def filter_empty_conv)

lemma class_items_remove:
  "class_items d (remove_class c l) = (if d = c then tl (class_items c l) else class_items d l)"
  by (induction l) (auto simp: class_items_def)

lemma set_remove_class: "set (remove_class c l) \<subseteq> set l"
  by (induction l) auto

lemma scan_classes_None: "scan_classes qs = None \<Longrightarrow> c < length qs \<Longrightarrow> qs ! c = []"
  by (induction qs arbitrary: c rule: scan_classes.induct) (auto simp: nth_Cons split: nat.splits)

lemma scan_classes_SomeD:
  "scan_classes qs = Some (x, qs') \<Longrightarrow>
     \<exists>c<length qs. qs ! c \<noteq> [] \<and> (\<forall>d<c. qs ! d = []) \<and> x = hd (qs ! c) \<and> qs' = qs[c := tl (qs ! c)]"
proof (induction qs arbitrary: qs' rule: scan_classes.induct)
  case (2 qs)
  then obtain qs1 c where "qs' = [] # qs1" "c < length qs" "qs ! c \<noteq> []" "\<forall>d<c. qs ! d = []"
      "x = hd (qs ! c)" "qs1 = qs[c := tl (qs ! c)]" by fastforce
  then show ?case by (intro exI [of _ "Suc c"]) (auto simp: nth_Cons split: nat.splits)
qed auto

lemma iq_abs_scan_None: "iq_abs q l \<Longrightarrow> scan_classes (iq_queues q) = None \<Longrightarrow> l = []"
  by (cases l) (force simp: iq_abs_def class_items_def dest!: scan_classes_None)+

lemma iq_abs_scan_Some:
  assumes abs: "iq_abs q l" and scan: "scan_classes (iq_queues q) = Some (x, qs)"
  shows "\<exists>l'. spec_get l = Some (x, l') \<and> iq_abs (q\<lparr>iq_queues := qs\<rparr>) l'"
proof -
  from scan_classes_SomeD [OF scan] obtain c where
    c: "c < length (iq_queues q)" "iq_queues q ! c \<noteq> []" "\<forall>d<c. iq_queues q ! d = []"
      "x = hd (iq_queues q ! c)" "qs = (iq_queues q)[c := tl (iq_queues q ! c)]" by blast
  have items: "iq_queues q ! d = class_items d l" if "d \<le> c" for d
    using abs c(1) that by (simp add: iq_abs_def)
  have mem: "c \<in> fst ` set l" using c(2) items class_items_empty_iff by (metis order_refl)
  have least: "d \<notin> fst ` set l" if "d < c" for d
    using c(3) items [of d] that class_items_empty_iff by (metis less_imp_le)
  have "Min (fst ` set l) = c" by (rule Min_eqI) (use mem least in \<open>auto simp: not_less [symmetric]\<close>)
  then have "spec_get l = Some (x, remove_class c l)"
    using mem c(4) items [of c] by (auto simp: spec_get_def Let_def)
  moreover have "iq_abs (q\<lparr>iq_queues := qs\<rparr>) (remove_class c l)"
    using abs c(1,5) set_remove_class [of c l]
    by (auto simp: iq_abs_def class_items_remove nth_list_update)
  ultimately show ?thesis by blast
qed

lemma iq_abs_Put:
  assumes "iq_abs q l" and "0 \<le> tc" "tc < int NumTrafficClasses"
  shows "iq_abs (fst (Put tc x q)) (fst (spec_put (iq_sizes q) (nat tc) x l))
    \<and> (snd (Put tc x q) = None \<longleftrightarrow> snd (spec_put (iq_sizes q) (nat tc) x l))"
  using assms
  by (auto simp: Put_def spec_put_def iq_abs_def Let_def nth_list_update less_nat_zero_code nat_less_iff)

section \<open>Executions\<close>

datatype 'a iq_op = OpPut int 'a | OpGet

fun iq_exec :: "'a iq_op list \<Rightarrow> 'a inbound_queues \<Rightarrow> 'a inbound_queues \<times> 'a get_outcome list" where
  "iq_exec [] q = (q, [])"
| "iq_exec (OpPut c x # ops) q = iq_exec ops (fst (Put c x q))"
| "iq_exec (OpGet # ops) q =
     (case TryGet q of (q', out) \<Rightarrow> (case iq_exec ops q' of (q'', outs) \<Rightarrow> (q'', out # outs)))"

fun spec_exec :: "int list \<Rightarrow> 'a iq_op list \<Rightarrow> (nat \<times> 'a) list \<Rightarrow> 'a get_outcome list" where
  "spec_exec sizes [] l = []"
| "spec_exec sizes (OpPut c x # ops) l =
     spec_exec sizes ops
       (if 0 \<le> c \<and> c < int NumTrafficClasses then fst (spec_put sizes (nat c) x l) else l)"
| "spec_exec sizes (OpGet # ops) l =
     (case spec_get l of
        None \<Rightarrow> GetError InboundQueueEmpty # spec_exec sizes ops l
      | Some (x, l') \<Rightarrow> Got x # spec_exec sizes ops l')"

lemma Put_sizes [simp]: "iq_sizes (fst (Put c x q)) = iq_sizes q"
  by (simp add: Put_def Let_def)

lemma iq_exec_refines:
  "iq_abs q l \<Longrightarrow> iq_sizes q = sizes \<Longrightarrow> snd (iq_exec ops q) = spec_exec sizes ops l"
proof (induction ops q arbitrary: l rule: iq_exec.induct)
  case (1 q)
  then show ?case by simp
next
  case (2 c x ops q)
  show ?case
  proof (cases "0 \<le> c \<and> c < int NumTrafficClasses")
    case True
    with 2 iq_abs_Put [of q l c x] show ?thesis by simp
  next
    case False
    then have "fst (Put c x q) = q" by (auto simp: Put_def)
    with 2 False show ?thesis by auto
  qed
next
  case (3 ops q)
  show ?case
  proof (cases "scan_classes (iq_queues q)")
    case None
    then have get: "TryGet q = (q, GetError InboundQueueEmpty)" by (simp add: TryGet_def get_pass_def)
    have "l = []" by (rule iq_abs_scan_None [OF 3(2) None])
    with 3(1) [OF get [symmetric] 3(2,3)] get show ?thesis
      by (simp add: spec_get_def case_prod_beta)
  next
    case (Some r)
    obtain x qs where r: "r = (x, qs)" by force
    then have get: "TryGet q = (q\<lparr>iq_queues := qs\<rparr>, Got x)" using Some by (simp add: TryGet_def get_pass_def)
    obtain l' where "spec_get l = Some (x, l')" "iq_abs (q\<lparr>iq_queues := qs\<rparr>) l'"
      using iq_abs_scan_Some [OF 3(2) Some [unfolded r]] by blast
    with 3(1) [OF get [symmetric], of l'] 3(3) get show ?thesis by (simp add: case_prod_beta)
  qed
qed

lemma iq_abs_New: "iq_abs (NewInboundQueues sizes) []"
  by (simp add: iq_abs_def NewInboundQueues_def class_items_def)

section \<open>Bounds and drop counters\<close>

text \<open>The number of \<^verbatim>\<open>Put\<close> calls of a class that were refused during an execution.\<close>

fun refused :: "nat \<Rightarrow> 'a iq_op list \<Rightarrow> 'a inbound_queues \<Rightarrow> int" where
  "refused c [] q = 0"
| "refused c (OpPut k x # ops) q =
     (if snd (Put k x q) = Some InboundQueueFull \<and> k = int c then 1 else 0) + refused c ops (fst (Put k x q))"
| "refused c (OpGet # ops) q = refused c ops (fst (TryGet q))"

definition iq_wf :: "'a inbound_queues \<Rightarrow> bool" where
  "iq_wf q \<longleftrightarrow> length (iq_queues q) = NumTrafficClasses \<and> length (iq_sizes q) = NumTrafficClasses
     \<and> length (iq_dropped q) = NumTrafficClasses
     \<and> (\<forall>c<NumTrafficClasses. int (length (iq_queues q ! c)) \<le> max 0 (iq_sizes q ! c))"

lemma iq_wf_Put: "iq_wf q \<Longrightarrow> iq_wf (fst (Put k x q))"
  by (auto simp: iq_wf_def Put_def Let_def nth_list_update nat_less_iff)

lemma iq_wf_scan:
  assumes "iq_wf q" and "scan_classes (iq_queues q) = Some (x, qs)"
  shows "iq_wf (q\<lparr>iq_queues := qs\<rparr>)"
proof -
  obtain c where "c < length (iq_queues q)" "qs = (iq_queues q)[c := tl (iq_queues q ! c)]"
    using scan_classes_SomeD [OF assms(2)] by blast
  with assms(1) show ?thesis
    by (auto simp: iq_wf_def nth_list_update)
qed

lemma iq_wf_TryGet: "iq_wf q \<Longrightarrow> iq_wf (fst (TryGet q))"
  by (auto simp: TryGet_def get_pass_def iq_wf_scan split: option.splits)

lemma TryGet_dropped [simp]: "iq_dropped (fst (TryGet q)) = iq_dropped q" "iq_sizes (fst (TryGet q)) = iq_sizes q"
  by (auto simp: TryGet_def get_pass_def split: option.splits)

lemma Put_dropped:
  assumes "iq_wf q" and "c < NumTrafficClasses"
  shows "iq_dropped (fst (Put k x q)) ! c =
    iq_dropped q ! c + (if snd (Put k x q) = Some InboundQueueFull \<and> k = int c then 1 else 0)"
  using assms by (auto simp: Put_def Let_def iq_wf_def nth_list_update)

lemma iq_exec_invariant:
  "iq_wf q \<Longrightarrow> c < NumTrafficClasses \<Longrightarrow>
     iq_wf (fst (iq_exec ops q)) \<and> iq_sizes (fst (iq_exec ops q)) = iq_sizes q
     \<and> iq_dropped (fst (iq_exec ops q)) ! c = iq_dropped q ! c + refused c ops q"
proof (induction ops q rule: iq_exec.induct)
  case (2 k x ops q)
  then show ?case by (simp add: iq_wf_Put Put_dropped)
next
  case (3 ops q)
  obtain q' out where get: "TryGet q = (q', out)" by force
  with iq_wf_TryGet [OF 3(2)] TryGet_dropped [of q] 3(1) [OF get [symmetric]] 3(3)
  show ?case by (simp add: case_prod_beta)
qed auto

lemma iq_wf_New: "length sizes = NumTrafficClasses \<Longrightarrow> iq_wf (NewInboundQueues sizes)"
  by (simp add: iq_wf_def NewInboundQueues_def)

lemma New_fields:
  "length sizes = NumTrafficClasses \<Longrightarrow> iq_sizes (NewInboundQueues sizes) = sizes"
  "c < NumTrafficClasses \<Longrightarrow> iq_dropped (NewInboundQueues sizes) ! c = 0"
  by (simp_all add: NewInboundQueues_def)

section \<open>Properties\<close>

text \<open>
  C23: The four bounded queues and their scan implement one queue of classed items: for every
  sequence of puts and gets, what the gets return is what the abstract queue returns, the oldest
  item of the most urgent class that has one, with the items of a class in arrival order.
\<close>

theorem inbound_queue_refinement:
  "snd (iq_exec ops (NewInboundQueues sizes)) = spec_exec (take NumTrafficClasses sizes) ops []"
  by (rule iq_exec_refines [OF iq_abs_New]) (simp add: NewInboundQueues_def)

text \<open>
  After any sequence of operations no class holds more items than its configured size, and
  the drop counter of every class is the number of packets that were refused because it was full.
\<close>

theorem inbound_queue_bounded:
  assumes "length sizes = NumTrafficClasses" and "c < NumTrafficClasses"
  shows "int (length (iq_queues (fst (iq_exec ops (NewInboundQueues sizes))) ! c)) \<le> max 0 (sizes ! c)
    \<and> iq_dropped (fst (iq_exec ops (NewInboundQueues sizes))) ! c = refused c ops (NewInboundQueues sizes)"
  using iq_exec_invariant [OF iq_wf_New [OF assms(1)] assms(2), of ops] assms
  by (auto simp: iq_wf_def New_fields)

theorem inbound_queue_bounded_witness:
  "iq_dropped (fst (iq_exec [OpPut 0 ''a'', OpPut 0 ''b''] (NewInboundQueues [1, 1, 1, 1]))) ! 0 = 1"
  using inbound_queue_bounded [of "[1, 1, 1, 1]" 0 "[OpPut 0 ''a'', OpPut 0 ''b'']"]
  by (simp add: NewInboundQueues_def Put_def Let_def)

lemma data_first: "iq_exec (concat (replicate n [OpPut 0 d, OpGet])) q = (q, replicate n (Got d))"
  if "iq_queues q = [] # rest" "iq_sizes q = s # ss" "1 \<le> s" for q
  using that
proof (induction n)
  case (Suc n)
  have "fst (Put 0 d q) = q\<lparr>iq_queues := [d] # rest\<rparr>"
    using Suc.prems by (simp add: Put_def Let_def)
  moreover have "TryGet (q\<lparr>iq_queues := [d] # rest\<rparr>) = (q\<lparr>iq_queues := [] # rest\<rparr>, Got d)"
    by (simp add: TryGet_def get_pass_def)
  moreover have "q\<lparr>iq_queues := [] # rest\<rparr> = q" using Suc.prems by (cases q) simp
  ultimately show ?case using Suc by simp
qed simp

text \<open>
  The priority is strict. An announce that waits behind a stream of data packets, one arriving
  before every get, is never returned, however long the stream is: the data class starves it.
\<close>

theorem data_stream_starves_announces:
  assumes "1 \<le> s0" and "1 \<le> s1"
  shows "snd (iq_exec (OpPut 1 announce # concat (replicate n [OpPut 0 packet, OpGet]))
      (NewInboundQueues [s0, s1, s2, s3])) = replicate n (Got packet)
    \<and> iq_queues (fst (iq_exec (OpPut 1 announce # concat (replicate n [OpPut 0 packet, OpGet]))
      (NewInboundQueues [s0, s1, s2, s3]))) ! 1 = [announce]"
proof -
  have "fst (Put 1 announce (NewInboundQueues [s0, s1, s2, s3])) =
      \<lparr>iq_queues = [[], [announce], [], []], iq_sizes = [s0, s1, s2, s3], iq_dropped = [0, 0, 0, 0]\<rparr>"
    using assms by (simp add: Put_def NewInboundQueues_def Let_def numeral_eq_Suc)
  with data_first [of _ "[[announce], [], []]" s0 "[s1, s2, s3]" n packet] assms(1) show ?thesis by simp
qed

theorem data_stream_starves_announces_witness:
  "snd (iq_exec (OpPut 1 ''announce'' # concat (replicate 9 [OpPut 0 ''data'', OpGet]))
      (NewInboundQueues [4096, 256, 256, 128])) = replicate 9 (Got ''data'')"
  using data_stream_starves_announces [of 4096 256 "''announce''" 9 "''data''" 256 128] by simp

end
