(* ===== verification/Inbound.thy ===== *)
theory Inbound
  imports Forwarding InboundQueues
begin

text \<open>
  The inbound path of a transport node (\<^verbatim>\<open>rns/transport.go\<close>): the packet filter and the
  two-generation table of packet hashes, the classification of a received frame into the inbound
  queue, and the transport of packets that are for someone else: to the next hop of a path, along
  a link, and the relay of link-request proofs. Sending on an interface is an output; the
  interface's own access-code check is an argument. Logging is left out.
\<close>

section \<open>Remembered packet hashes\<close>

abbreviation (input) packetHashRotateDefault :: int where "packetHashRotateDefault \<equiv> 50000"

text \<open>The part of \<^verbatim>\<open>ensureStateLocked\<close> that these operations see.\<close>

definition ensureStateLocked :: "transport \<Rightarrow> transport" where
  "ensureStateLocked ts =
     (if ts_packetHashRotateAt ts \<le> 0 then ts\<lparr>ts_packetHashRotateAt := packetHashRotateDefault\<rparr> else ts)"

definition packetHashSeenLocked :: "bytes \<Rightarrow> transport \<Rightarrow> bool" where
  "packetHashSeenLocked packetHash ts \<longleftrightarrow>
     packetHash \<in> set (ts_packetHashes ts) \<or> packetHash \<in> set (ts_packetHashesPrev ts)"

definition ForgetPacketHash :: "bytes \<Rightarrow> transport \<Rightarrow> transport" where
  "ForgetPacketHash packetHash ts =
     (let ts = ensureStateLocked ts in
      ts\<lparr>ts_packetHashes := removeAll packetHash (ts_packetHashes ts),
         ts_packetHashesPrev := removeAll packetHash (ts_packetHashesPrev ts)\<rparr>)"

definition seenOrRememberPacketHashLocked :: "bytes \<Rightarrow> transport \<Rightarrow> transport \<times> bool" where
  "seenOrRememberPacketHashLocked packetHash ts =
     (let ts = ensureStateLocked ts in
      if packetHash \<in> set (ts_packetHashes ts) then (ts, True)
      else if packetHash \<in> set (ts_packetHashesPrev ts) then (ts, True)
      else
        let ts = (if int (length (ts_packetHashes ts)) \<ge> ts_packetHashRotateAt ts
                  then ts\<lparr>ts_packetHashesPrev := ts_packetHashes ts, ts_packetHashes := []\<rparr> else ts)
        in (ts\<lparr>ts_packetHashes := packetHash # ts_packetHashes ts\<rparr>, False))"

section \<open>The packet filter\<close>

text \<open>The decision, and whether a protocol violation is recorded on the receiving interface.\<close>

definition context_exempt :: "packet \<Rightarrow> bool" where
  "context_exempt p \<longleftrightarrow> Context p = ContextKeepalive \<or> Context p = ContextResource
     \<or> Context p = ContextResourceReq \<or> Context p = ContextResourcePrf
     \<or> Context p = ContextCacheRequest \<or> Context p = ContextChannel"

definition packetFilter :: "transport \<Rightarrow> packet \<Rightarrow> bool \<times> bool" where
  "packetFilter ts p =
     (let ts = ensureStateLocked ts in
      if ts_connectedToSharedInstance ts then (True, False)
      else if TransportID p \<noteq> None \<and> PacketType p \<noteq> PacketAnnounce \<and> ts_identity ts \<noteq> None
              \<and> TransportID p \<noteq> ts_identity ts then (False, False)
      else if context_exempt p then (True, False)
      else if DestinationType p = DestinationPlain \<or> DestinationType p = DestinationGroup then
        (if PacketType p \<noteq> PacketAnnounce then
           (if Hops p > 1 then (False, True) else (True, False))
         else (False, True))
      else if \<not> packetHashSeenLocked (PacketHash p) ts then (True, False)
      else if PacketType p = PacketAnnounce then
        (if DestinationType p = DestinationSingle then (True, False) else (False, True))
      else (False, False))"

section \<open>From a frame to the queue\<close>

abbreviation (input) TCData :: int where "TCData \<equiv> 0x00"
abbreviation (input) TCAnnounce :: int where "TCAnnounce \<equiv> 0x01"
abbreviation (input) TCPathRequest :: int where "TCPathRequest \<equiv> 0x02"
abbreviation (input) TCIngressLimited :: int where "TCIngressLimited \<equiv> 0x03"
abbreviation (input) noTrafficClass :: int where "noTrafficClass \<equiv> -1"

definition isPathRequestPacket :: "transport \<Rightarrow> packet \<Rightarrow> bool" where
  "isPathRequestPacket ts p \<longleftrightarrow> PacketType p = PacketData \<and> length (ts_pathRequestHash ts) > 0
     \<and> DestinationHash p = ts_pathRequestHash ts"

datatype inbound_drop =
    DropNotReady
  | DropEmpty
  | DropIFAC
  | DropMTU
  | DropMalformed packet_error
  | DropFiltered bool
  | DropDuplicate
  | DropQueue iq_error

datatype inbound_outcome = InboundDropped inbound_drop | InboundAccepted int packet

text \<open>Duplicate detection after the filter; the second component tells a duplicate.\<close>

definition dedup :: "transport \<Rightarrow> packet \<Rightarrow> transport \<times> bool" where
  "dedup ts p =
     (if PacketType p = PacketProof \<and> Context p = ContextLrproof then
        (ts, packetHashSeenLocked (PacketHash p) ts)
      else if ts_connectedToSharedInstance ts then (ts, False)
      else if context_exempt p then (ts, False)
      else if ts_linkTable ts (DestinationHash p) \<noteq> None then (ts, False)
      else seenOrRememberPacketHashLocked (PacketHash p) ts)"

definition classify :: "transport \<Rightarrow> packet \<Rightarrow> int \<Rightarrow> int" where
  "classify ts p tc =
     (let trafficClass =
          (if PacketType p = PacketAnnounce then (if tc = noTrafficClass then TCAnnounce else tc)
           else if isPathRequestPacket ts p then TCPathRequest else tc)
      in if trafficClass = noTrafficClass then TCData else trafficClass)"

text \<open>The filter and the duplicate check of an unpacked packet.\<close>

definition accept_packet :: "transport \<Rightarrow> packet \<Rightarrow> int \<Rightarrow> transport \<times> inbound_outcome" where
  "accept_packet ts p tc =
     (case packetFilter ts p of
        (accepted, violation) \<Rightarrow>
          if \<not> accepted then (ts, InboundDropped (DropFiltered violation))
          else
            (case dedup ts p of
               (ts, isDup) \<Rightarrow>
                 if isDup \<and> \<not> (PacketType p = PacketAnnounce \<and> DestinationType p = DestinationSingle)
                 then (ts, InboundDropped DropDuplicate)
                 else (ts, InboundAccepted (classify ts p tc) p)))"

text \<open>The hop count of an arriving packet; the two shared-instance planes do not count a hop.\<close>

definition arrival_hops :: "iface_env \<Rightarrow> nat \<Rightarrow> int \<Rightarrow> int" where
  "arrival_hops env iface h =
     (let h = h + 1 in
      if IsSpawnedLocalClient env iface then h - 1
      else if IsConnectedToSharedInstance env iface then h - 1 else h)"

definition accept_frame :: "iface_env \<Rightarrow> transport \<Rightarrow> bytes \<Rightarrow> nat \<Rightarrow> int \<Rightarrow> transport \<times> inbound_outcome" where
  "accept_frame env ts raw iface tc =
     (case Unpack (NewPacketFromRaw raw) of
        (p, Some e) \<Rightarrow> (ts, InboundDropped (DropMalformed e))
      | (p, None) \<Rightarrow>
          accept_packet ts (p\<lparr>packet_transport := True, Hops := arrival_hops env iface (Hops p)\<rparr>) tc)"

definition inbound ::
  "iface_env \<Rightarrow> (nat \<Rightarrow> (bytes \<Rightarrow> bytes option) option) \<Rightarrow> bool \<Rightarrow> transport \<Rightarrow> bytes \<Rightarrow> nat \<Rightarrow> int \<Rightarrow> bool
     \<Rightarrow> transport \<times> inbound_outcome" where
  "inbound env ifac_hook ready ts raw iface tc ifacHandled =
     (if \<not> ready then (ts, InboundDropped DropNotReady)
      else if raw = [] then (ts, InboundDropped DropEmpty)
      else
        (case (case ifac_hook iface of
                 None \<Rightarrow> Some raw
               | Some hook \<Rightarrow> if ifacHandled then Some raw else hook raw) of
           None \<Rightarrow> (ts, InboundDropped DropIFAC)
         | Some raw \<Rightarrow>
             if (case iface_HWMTU env iface of
                   None \<Rightarrow> False
                 | Some hw \<Rightarrow> int (length raw) > hw + iface_IFACSize env iface)
             then (ts, InboundDropped DropMTU)
             else accept_frame env ts raw iface tc))"

definition inbound_enqueue ::
  "inbound_outcome \<Rightarrow> nat \<Rightarrow> (packet \<times> nat) inbound_queues \<Rightarrow> (packet \<times> nat) inbound_queues \<times> inbound_drop option" where
  "inbound_enqueue out iface q =
     (case out of
        InboundDropped d \<Rightarrow> (q, Some d)
      | InboundAccepted tc p \<Rightarrow>
          (case Put tc (p, iface) q of
             (q', None) \<Rightarrow> (q', None)
           | (q', Some e) \<Rightarrow> (q', Some (DropQueue e))))"

section \<open>Transport to the next hop\<close>

abbreviation (input) establishmentTimeoutPerHop :: rat where "establishmentTimeoutPerHop \<equiv> 6"

definition extraLinkProofTimeout :: "iface_env \<Rightarrow> nat \<Rightarrow> rat" where
  "extraLinkProofTimeout env iface =
     (let bitrate = iface_Bitrate env iface in
      if bitrate \<le> 0 then 0 else 1 / of_int bitrate * 8 * of_int MTU)"

definition isForLocalClient :: "transport \<Rightarrow> packet \<Rightarrow> bool" where
  "isForLocalClient ts p =
     (case ts_pathTable ts (DestinationHash p) of None \<Rightarrow> False | Some entry \<Rightarrow> pe_Hops entry = 0)"

definition isForLocalClientLink :: "iface_env \<Rightarrow> transport \<Rightarrow> packet \<Rightarrow> bool" where
  "isForLocalClientLink env ts p =
     (case ts_linkTable ts (DestinationHash p) of
        None \<Rightarrow> False
      | Some entry \<Rightarrow> IsSpawnedLocalClient env (le_ReceivedInterface entry)
                      \<or> IsSpawnedLocalClient env (le_OutboundInterface entry))"

definition proofForLocalClientLocked :: "iface_env \<Rightarrow> transport \<Rightarrow> packet \<Rightarrow> bool" where
  "proofForLocalClientLocked env ts p =
     (case ts_reverseTable ts (DestinationHash p) of
        None \<Rightarrow> False | Some entry \<Rightarrow> IsSpawnedLocalClient env (re_ReceivedInterface entry))"

definition instanceLocalLink :: "iface_env \<Rightarrow> link_entry \<Rightarrow> bool" where
  "instanceLocalLink env entry \<longleftrightarrow> IsSpawnedLocalClient env (le_ReceivedInterface entry)
     \<and> IsSpawnedLocalClient env (le_OutboundInterface entry)"

datatype forward_outcome = FwdContinue | FwdDrop | FwdViolation | FwdSend nat bytes | FwdPanic

text \<open>
  A packet whose transport id is this node's: rewrite it towards the path's next hop and leave a
  link-table entry (a link request) or a reverse-table entry (anything else) behind.
\<close>

definition forward_next_hop ::
  "iface_env \<Rightarrow> rat \<Rightarrow> transport \<Rightarrow> packet \<Rightarrow> nat \<Rightarrow> transport \<times> forward_outcome" where
  "forward_next_hop env now ts p iface =
     (let fromLocalClient = IsSpawnedLocalClient env iface;
          forLocalClient = isForLocalClient ts p;
          proofForLocalClient = proofForLocalClientLocked env ts p;
          p = (if TransportID p = None \<and> forLocalClient \<and> ts_identity ts \<noteq> None
               then p\<lparr>TransportID := ts_identity ts\<rparr> else p)
      in
      if TransportID p \<noteq> None \<and> ts_identity ts \<noteq> None \<and> TransportID p = ts_identity ts then
        (case ts_pathTable ts (DestinationHash p) of
           None \<Rightarrow> (ts, FwdContinue)
         | Some entry \<Rightarrow>
             (case pe_Interface entry of
                None \<Rightarrow> (ts, FwdDrop)
              | Some out \<Rightarrow>
                  let newRaw = mangleForwardedRaw ts (forward_raw ts p entry) fromLocalClient
                                 (forLocalClient \<or> proofForLocalClient) in
                  if PacketType p = PacketLinkRequest then
                    (case LinkIDFromLR p of
                       None \<Rightarrow> (ts, FwdPanic)
                     | Some linkID \<Rightarrow>
                         (ts\<lparr>ts_linkTable := (ts_linkTable ts)(linkID \<mapsto>
                            \<lparr>le_Timestamp = now, le_NextHop = pe_NextHop entry, le_OutboundInterface = out,
                             le_RemainingHops = pe_Hops entry, le_ReceivedInterface = iface, le_Hops = Hops p,
                             le_DestinationHash = DestinationHash p, le_Validated = False,
                             le_ProofTimeout = now + (extraLinkProofTimeout env iface
                               + of_int (max 1 (pe_Hops entry)) * establishmentTimeoutPerHop)\<rparr>)\<rparr>,
                          FwdSend out newRaw))
                  else
                    (case GetTruncatedHash p of
                       None \<Rightarrow> (ts, FwdPanic)
                     | Some th \<Rightarrow>
                         (ts\<lparr>ts_reverseTable := (ts_reverseTable ts)(th \<mapsto>
                            \<lparr>re_ReceivedInterface = iface, re_OutboundInterface = out, re_Timestamp = now\<rparr>)\<rparr>,
                          FwdSend out newRaw))))
      else (ts, FwdContinue))"

text \<open>A packet addressed to a link in transit travels to the opposite interface of the link.\<close>

definition link_outbound :: "link_entry \<Rightarrow> packet \<Rightarrow> nat \<Rightarrow> nat option" where
  "link_outbound e p iface =
     (if le_OutboundInterface e = le_ReceivedInterface e then
        (if Hops p = le_RemainingHops e \<or> Hops p = le_Hops e then Some (le_OutboundInterface e) else None)
      else if iface = le_OutboundInterface e then
        (if Hops p = le_RemainingHops e then Some (le_ReceivedInterface e) else None)
      else if iface = le_ReceivedInterface e then
        (if Hops p = le_Hops e then Some (le_OutboundInterface e) else None)
      else None)"

definition forward_link :: "iface_env \<Rightarrow> rat \<Rightarrow> transport \<Rightarrow> packet \<Rightarrow> nat \<Rightarrow> transport \<times> forward_outcome" where
  "forward_link env now ts p iface =
     (if PacketType p \<noteq> PacketAnnounce \<and> PacketType p \<noteq> PacketLinkRequest \<and> Context p \<noteq> ContextLrproof then
        (case ts_linkTable ts (DestinationHash p) of
           None \<Rightarrow> (ts, FwdContinue)
         | Some e \<Rightarrow>
             if \<not> le_Validated e then (ts, FwdViolation)
             else
               (case link_outbound e p iface of
                  None \<Rightarrow> (ts, FwdContinue)
                | Some out \<Rightarrow>
                    (ts\<lparr>ts_linkTable := (ts_linkTable ts)(DestinationHash p \<mapsto> e\<lparr>le_Timestamp := now\<rparr>)\<rparr>,
                     FwdSend out ((Raw p)[1 := forwardedHopByteLocked ts p (IsSpawnedLocalClient env iface)
                                                 (instanceLocalLink env e)]))))
      else (ts, FwdContinue))"

definition transport_packet :: "iface_env \<Rightarrow> rat \<Rightarrow> transport \<Rightarrow> packet \<Rightarrow> nat \<Rightarrow> transport \<times> forward_outcome" where
  "transport_packet env now ts p iface =
     (if PacketType p \<noteq> PacketAnnounce
         \<and> (ts_enabled ts \<or> IsSpawnedLocalClient env iface \<or> isForLocalClient ts p \<or> isForLocalClientLink env ts p)
      then
        (case forward_next_hop env now ts p iface of
           (ts', FwdContinue) \<Rightarrow> forward_link env now ts' p iface
         | r \<Rightarrow> r)
      else (ts, FwdContinue))"

section \<open>Relayed link-request proofs\<close>

abbreviation (input) LinkMTUSize :: nat where "LinkMTUSize \<equiv> 3"

text \<open>
  \<open>recall\<close> is the public key known for a destination (64 bytes, the signing half last) and
  \<open>verify\<close> the Ed25519 check under that key.
\<close>

definition validateRelayLinkProofLocked ::
  "(bytes \<Rightarrow> bytes option) \<Rightarrow> (bytes \<Rightarrow> bytes \<Rightarrow> bytes \<Rightarrow> bool) \<Rightarrow> packet \<Rightarrow> bytes \<Rightarrow> bool" where
  "validateRelayLinkProofLocked recall verify p destHash =
     (if length (Data p) < 64 + 32 then False
      else
        (case recall destHash of
           None \<Rightarrow> False
         | Some pub \<Rightarrow>
             let signature = take 64 (Data p);
                 peerPubBytes = go_slice 64 96 (Data p);
                 sigBytes = (if length (Data p) = 64 + 32 + LinkMTUSize
                             then go_slice 96 (96 + LinkMTUSize) (Data p) else []);
                 peerSigPubBytes = go_slice 32 64 pub
             in verify pub signature (DestinationHash p @ peerPubBytes @ peerSigPubBytes @ sigBytes)))"

datatype relay_outcome = RelayNone | RelayDropped | RelaySent nat bytes

text \<open>The adoption of the proof's hop count, in the link entry and in the path table.\<close>

definition rebalance_link :: "packet \<Rightarrow> link_entry \<Rightarrow> transport \<Rightarrow> transport" where
  "rebalance_link p e ts =
     ts\<lparr>ts_linkTable := (ts_linkTable ts)(DestinationHash p \<mapsto> e\<lparr>le_RemainingHops := Hops p\<rparr>),
        ts_pathTable :=
          (case ts_pathTable ts (le_DestinationHash e) of
             None \<Rightarrow> ts_pathTable ts
           | Some pe \<Rightarrow> (ts_pathTable ts)(le_DestinationHash e \<mapsto> pe\<lparr>pe_Hops := Hops p\<rparr>))\<rparr>"

definition relayLinkProof ::
  "iface_env \<Rightarrow> (bytes \<Rightarrow> bytes option) \<Rightarrow> (bytes \<Rightarrow> bytes \<Rightarrow> bytes \<Rightarrow> bool) \<Rightarrow> transport \<Rightarrow> packet \<Rightarrow> nat
     \<Rightarrow> transport \<times> relay_outcome" where
  "relayLinkProof env recall verify ts p iface =
     (case ts_linkTable ts (DestinationHash p) of
        None \<Rightarrow> (ts, RelayNone)
      | Some e \<Rightarrow>
          let valid = validateRelayLinkProofLocked recall verify p (le_DestinationHash e);
              rebalance = (Hops p \<noteq> le_RemainingHops e \<and> ts_allowLinkPathRebalance ts \<and> \<not> le_Validated e)
          in
          if iface \<noteq> le_OutboundInterface e then (ForgetPacketHash (PacketHash p) ts, RelayDropped)
          else if rebalance \<and> \<not> valid then (ForgetPacketHash (PacketHash p) ts, RelayDropped)
          else
            let ts = (if rebalance then rebalance_link p e ts else ts);
                e = (if rebalance then e\<lparr>le_RemainingHops := Hops p\<rparr> else e)
            in
            if Hops p \<noteq> le_RemainingHops e then (ForgetPacketHash (PacketHash p) ts, RelayDropped)
            else if \<not> valid then (ts, RelayDropped)
            else
              (ts\<lparr>ts_linkTable := (ts_linkTable ts)(DestinationHash p \<mapsto> e\<lparr>le_Validated := True\<rparr>)\<rparr>,
               RelaySent (le_ReceivedInterface e)
                 ((Raw p)[1 := forwardedHopByteLocked ts p (IsSpawnedLocalClient env iface) (instanceLocalLink env e)])))"

section \<open>The two generations of remembered hashes\<close>

definition hashes_wf :: "transport \<Rightarrow> bool" where
  "hashes_wf ts \<longleftrightarrow> 0 < ts_packetHashRotateAt ts
     \<and> int (length (ts_packetHashes ts)) \<le> ts_packetHashRotateAt ts
     \<and> int (length (ts_packetHashesPrev ts)) \<le> ts_packetHashRotateAt ts"

lemma ensureStateLocked_wf [simp]: "hashes_wf ts \<Longrightarrow> ensureStateLocked ts = ts"
  by (simp add: hashes_wf_def ensureStateLocked_def)

lemma hashes_wf_remember:
  "hashes_wf ts \<Longrightarrow> hashes_wf (fst (seenOrRememberPacketHashLocked h ts))
     \<and> ts_packetHashRotateAt (fst (seenOrRememberPacketHashLocked h ts)) = ts_packetHashRotateAt ts"
  by (auto simp: seenOrRememberPacketHashLocked_def Let_def) (auto simp: hashes_wf_def)

lemma remember_seen:
  "packetHashSeenLocked h (fst (seenOrRememberPacketHashLocked h ts))"
  by (auto simp: seenOrRememberPacketHashLocked_def Let_def packetHashSeenLocked_def)

lemma seen_remember:
  "snd (seenOrRememberPacketHashLocked h ts) \<longleftrightarrow> packetHashSeenLocked h ts"
  by (auto simp: seenOrRememberPacketHashLocked_def Let_def packetHashSeenLocked_def ensureStateLocked_def)

text \<open>\<open>h\<close> survives \<open>n\<close> further insertions: it is in the current generation, or the current generation has room for them.\<close>

definition survives :: "nat \<Rightarrow> bytes \<Rightarrow> transport \<Rightarrow> bool" where
  "survives n h ts \<longleftrightarrow>
     (h \<in> set (ts_packetHashes ts) \<and> int n \<le> ts_packetHashRotateAt ts)
   \<or> (h \<in> set (ts_packetHashesPrev ts) \<and> int (length (ts_packetHashes ts)) + int n \<le> ts_packetHashRotateAt ts)"

lemma survives_seen: "survives n h ts \<Longrightarrow> packetHashSeenLocked h ts"
  by (auto simp: survives_def packetHashSeenLocked_def)

lemma survives_mono: "survives n h ts \<Longrightarrow> m \<le> n \<Longrightarrow> survives m h ts"
  by (auto simp: survives_def)

lemma survives_remember:
  assumes "hashes_wf ts" and "survives (Suc n) h ts"
  shows "survives n h (fst (seenOrRememberPacketHashLocked k ts))"
  using assms
  by (auto simp: seenOrRememberPacketHashLocked_def Let_def survives_def)

lemma remember_survives:
  assumes "hashes_wf ts" and "\<not> packetHashSeenLocked h ts" and "int n \<le> ts_packetHashRotateAt ts"
  shows "survives n h (fst (seenOrRememberPacketHashLocked h ts))"
  using assms by (simp add: seenOrRememberPacketHashLocked_def Let_def survives_def packetHashSeenLocked_def)

text \<open>A frame changes the hash tables only through one call of \<open>seenOrRememberPacketHashLocked\<close>.\<close>

lemma accept_packet_state:
  "fst (accept_packet ts p tc) = ts \<or> (\<exists>k. fst (accept_packet ts p tc) = fst (seenOrRememberPacketHashLocked k ts))"
proof -
  have "fst (accept_packet ts p tc) = ts \<or> fst (accept_packet ts p tc) = fst (dedup ts p)"
    by (simp add: accept_packet_def case_prod_beta)
  moreover have "fst (dedup ts p) = ts \<or> fst (dedup ts p) = fst (seenOrRememberPacketHashLocked (PacketHash p) ts)"
    by (simp add: dedup_def)
  ultimately show ?thesis by metis
qed

lemma accept_frame_state:
  "fst (accept_frame env ts raw iface tc) = ts
   \<or> (\<exists>k. fst (accept_frame env ts raw iface tc) = fst (seenOrRememberPacketHashLocked k ts))"
  using accept_packet_state by (simp add: accept_frame_def split: prod.split option.split)

definition accept_frames :: "iface_env \<Rightarrow> (bytes \<times> nat \<times> int) list \<Rightarrow> transport \<Rightarrow> transport" where
  "accept_frames env fs ts = foldl (\<lambda>ts (raw, iface, tc). fst (accept_frame env ts raw iface tc)) ts fs"

lemma hashes_wf_accept: "hashes_wf ts \<Longrightarrow> hashes_wf (fst (accept_frame env ts raw iface tc))
     \<and> ts_packetHashRotateAt (fst (accept_frame env ts raw iface tc)) = ts_packetHashRotateAt ts"
  using accept_frame_state [of env ts raw iface tc] hashes_wf_remember by auto

lemma survives_accept:
  "hashes_wf ts \<Longrightarrow> survives (Suc n) h ts \<Longrightarrow> survives n h (fst (accept_frame env ts raw iface tc))"
  using accept_frame_state [of env ts raw iface tc] survives_remember survives_mono by (metis le_SucI order_refl)

lemma survives_accepts:
  "hashes_wf ts \<Longrightarrow> survives n h ts \<Longrightarrow> length fs \<le> n \<Longrightarrow>
     hashes_wf (accept_frames env fs ts) \<and> survives (n - length fs) h (accept_frames env fs ts)"
proof (induction fs arbitrary: ts n)
  case Nil
  then show ?case by (simp add: accept_frames_def)
next
  case (Cons f fs)
  obtain raw iface tc where f: "f = (raw, iface, tc)" by (cases f)
  obtain m where n: "n = Suc m" using Cons.prems(3) by (cases n) auto
  let ?ts = "fst (accept_frame env ts raw iface tc)"
  have "hashes_wf ?ts" "survives m h ?ts"
    using hashes_wf_accept [OF Cons.prems(1)] survives_accept [OF Cons.prems(1)] Cons.prems(2) n by auto
  from Cons.IH [OF this] Cons.prems(3) n show ?case by (simp add: accept_frames_def f)
qed

lemma remember_tables:
  "ts_linkTable (fst (seenOrRememberPacketHashLocked k ts)) = ts_linkTable ts"
  "ts_connectedToSharedInstance (fst (seenOrRememberPacketHashLocked k ts)) = ts_connectedToSharedInstance ts"
  by (simp_all add: seenOrRememberPacketHashLocked_def Let_def ensureStateLocked_def)

lemma accept_tables:
  "ts_linkTable (fst (accept_frame env ts raw iface tc)) = ts_linkTable ts
   \<and> ts_connectedToSharedInstance (fst (accept_frame env ts raw iface tc)) = ts_connectedToSharedInstance ts"
  using accept_frame_state [of env ts raw iface tc] remember_tables by auto

lemma accepts_tables:
  "ts_linkTable (accept_frames env fs ts) = ts_linkTable ts
   \<and> ts_connectedToSharedInstance (accept_frames env fs ts) = ts_connectedToSharedInstance ts"
  unfolding accept_frames_def
  by (induction fs arbitrary: ts) (simp_all add: accept_tables case_prod_beta)

lemma accepts_wf:
  "hashes_wf ts \<Longrightarrow> hashes_wf (accept_frames env fs ts)
     \<and> ts_packetHashRotateAt (accept_frames env fs ts) = ts_packetHashRotateAt ts"
  unfolding accept_frames_def
  by (induction fs arbitrary: ts) (use hashes_wf_accept in \<open>auto simp: case_prod_beta\<close>)

text \<open>The packets whose hash is remembered and checked.\<close>

definition deduplicated :: "transport \<Rightarrow> packet \<Rightarrow> bool" where
  "deduplicated ts p \<longleftrightarrow> \<not> (PacketType p = PacketAnnounce \<and> DestinationType p = DestinationSingle)
     \<and> \<not> (PacketType p = PacketProof \<and> Context p = ContextLrproof)
     \<and> \<not> ts_connectedToSharedInstance ts \<and> \<not> context_exempt p \<and> ts_linkTable ts (DestinationHash p) = None"

lemma dedup_deduplicated: "deduplicated ts p \<Longrightarrow> dedup ts p = seenOrRememberPacketHashLocked (PacketHash p) ts"
  by (auto simp: deduplicated_def dedup_def)

lemma deduplicated_cong:
  assumes "same_packet p q" and "ts_linkTable ts' = ts_linkTable ts"
    and "ts_connectedToSharedInstance ts' = ts_connectedToSharedInstance ts"
  shows "deduplicated ts' q \<longleftrightarrow> deduplicated ts p"
  using assms by (simp add: deduplicated_def same_packet_def context_exempt_def)

lemma accept_packet_first:
  assumes "accept_packet ts p tc = (ts1, InboundAccepted c q)" and "deduplicated ts p"
  shows "q = p \<and> ts1 = fst (seenOrRememberPacketHashLocked (PacketHash p) ts) \<and> \<not> packetHashSeenLocked (PacketHash p) ts"
  using assms seen_remember [of "PacketHash p" ts]
  by (auto simp: accept_packet_def dedup_deduplicated case_prod_beta deduplicated_def split: if_splits)

lemma accept_packet_seen:
  assumes "deduplicated ts p" and "packetHashSeenLocked (PacketHash p) ts"
  shows "\<exists>d. snd (accept_packet ts p tc) = InboundDropped d"
  using assms seen_remember [of "PacketHash p" ts]
  by (auto simp: accept_packet_def dedup_deduplicated case_prod_beta deduplicated_def)

section \<open>Properties\<close>


text \<open>
  The memory of the duplicate filter is bounded: whatever frames arrive, each of the two
  generations of remembered hashes keeps at most the rotation size.
\<close>

theorem remembered_hashes_bounded:
  assumes "hashes_wf ts"
  shows "int (length (ts_packetHashes (accept_frames env fs ts))) \<le> ts_packetHashRotateAt ts
    \<and> int (length (ts_packetHashesPrev (accept_frames env fs ts))) \<le> ts_packetHashRotateAt ts"
  using accepts_wf [OF assms, of env fs] by (simp add: hashes_wf_def)

definition demo_env :: iface_env where
  "demo_env = \<lparr>IsSpawnedLocalClient = (\<lambda>i. i = 9), IsLocalServer = \<lambda>_. False,
     IsConnectedToSharedInstance = \<lambda>_. False, iface_HWMTU = \<lambda>_. None, iface_IFACSize = \<lambda>_. 0,
     iface_Bitrate = \<lambda>_. 1000\<rparr>"

lemma demo_accept:
  "\<exists>p. Unpack (NewPacketFromRaw demo_frame1) = (p, None)
     \<and> accept_frame demo_env demo_ts demo_frame1 1 (-1) =
        (demo_ts\<lparr>ts_packetHashes := [PacketHash p]\<rparr>, InboundAccepted 0 (p\<lparr>packet_transport := True, Hops := 1\<rparr>))
     \<and> deduplicated demo_ts (p\<lparr>packet_transport := True, Hops := 1\<rparr>)"
  by (simp add: Unpack_layout1 [of _ 0 0 "replicate 16 7" 0 "[1, 2, 3]"] demo_frame1_def frame1_def
      NewPacketFromRaw_def accept_frame_def accept_packet_def packetFilter_def dedup_def classify_def
      demo_ts_def demo_env_def arrival_hops_def ensureStateLocked_def context_exempt_def packet_consts
      empty_packet_def packetHashSeenLocked_def seenOrRememberPacketHashLocked_def
      deduplicated_def isPathRequestPacket_def Let_def)

theorem remembered_hashes_bounded_witness:
  "int (length (ts_packetHashes (accept_frames demo_env [(demo_frame1, 1, -1), (demo_frame1, 2, -1)] demo_ts))) \<le> 2"
  using remembered_hashes_bounded [of demo_ts demo_env "[(demo_frame1, 1, -1), (demo_frame1, 2, -1)]"]
  by (simp add: hashes_wf_def demo_ts_def)


section \<open>Links in transit\<close>

text \<open>
  The node as a state machine: the events that reach the transport tables are frames entering the
  duplicate filter, packets to be transported, and link-request proofs to be relayed. A state is
  reached by a history of events, latest first.
\<close>

datatype node_event =
    NFrame bytes nat int
  | NTransport rat packet nat
  | NProof packet nat

inductive reached ::
  "iface_env \<Rightarrow> (bytes \<Rightarrow> bytes option) \<Rightarrow> (bytes \<Rightarrow> bytes \<Rightarrow> bytes \<Rightarrow> bool) \<Rightarrow> node_event list \<Rightarrow> transport \<Rightarrow> bool"
  for env recall verify where
  start: "ts_linkTable ts = Map.empty \<Longrightarrow> reached env recall verify [] ts"
| frame: "reached env recall verify evs ts \<Longrightarrow>
     reached env recall verify (NFrame raw iface tc # evs) (fst (accept_frame env ts raw iface tc))"
| transport: "reached env recall verify evs ts \<Longrightarrow>
     reached env recall verify (NTransport now p iface # evs) (fst (transport_packet env now ts p iface))"
| proof_packet: "reached env recall verify evs ts \<Longrightarrow>
     reached env recall verify (NProof p iface # evs) (fst (relayLinkProof env recall verify ts p iface))"

text \<open>A valid proof for the entry was in the history, on the interface the request went out on.\<close>

definition proven ::
  "(bytes \<Rightarrow> bytes option) \<Rightarrow> (bytes \<Rightarrow> bytes \<Rightarrow> bytes \<Rightarrow> bool) \<Rightarrow> node_event list \<Rightarrow> bytes \<Rightarrow> link_entry \<Rightarrow> bool" where
  "proven recall verify evs k e \<longleftrightarrow>
     (\<exists>p. NProof p (le_OutboundInterface e) \<in> set evs \<and> DestinationHash p = k
        \<and> validateRelayLinkProofLocked recall verify p (le_DestinationHash e))"

lemma proven_mono: "proven recall verify evs k e \<Longrightarrow> proven recall verify (ev # evs) k e"
  by (auto simp: proven_def)

lemma proven_timestamp [simp]:
  "proven recall verify evs k (e\<lparr>le_Timestamp := t\<rparr>) = proven recall verify evs k e"
  by (simp add: proven_def)

lemma forward_next_hop_links:
  assumes "ts_linkTable (fst (forward_next_hop env now ts p iface)) k = Some e" and "le_Validated e"
  shows "ts_linkTable ts k = Some e"
  using assms
  by (auto simp: forward_next_hop_def Let_def split: if_splits option.splits)

lemma forward_link_links:
  assumes "ts_linkTable (fst (forward_link env now ts p iface)) k = Some e" and "le_Validated e"
  shows "\<exists>t e0. ts_linkTable ts k = Some e0 \<and> le_Validated e0 \<and> (e = e0 \<or> e = e0\<lparr>le_Timestamp := t\<rparr>)"
  using assms
  by (auto simp: forward_link_def split: if_splits option.splits)

lemma transport_packet_links:
  assumes "ts_linkTable (fst (transport_packet env now ts p iface)) k = Some e" and "le_Validated e"
  shows "\<exists>t e0. ts_linkTable ts k = Some e0 \<and> le_Validated e0 \<and> (e = e0 \<or> e = e0\<lparr>le_Timestamp := t\<rparr>)"
proof -
  obtain ts1 out where f: "forward_next_hop env now ts p iface = (ts1, out)" by force
  have "fst (transport_packet env now ts p iface) \<in> {ts, ts1, fst (forward_link env now ts1 p iface)}"
    using f by (auto simp: transport_packet_def split: forward_outcome.splits)
  with assms f forward_next_hop_links [of env now ts p iface k] forward_link_links [of env now ts1 p iface k]
  show ?thesis by fastforce
qed

lemma ForgetPacketHash_links [simp]: "ts_linkTable (ForgetPacketHash h ts) = ts_linkTable ts"
  by (simp add: ForgetPacketHash_def Let_def ensureStateLocked_def)

lemma relayLinkProof_links:
  assumes "ts_linkTable (fst (relayLinkProof env recall verify ts p iface)) k = Some e" and "le_Validated e"
  shows "(ts_linkTable ts k = Some e) \<or>
    (\<exists>e0. ts_linkTable ts k = Some e0 \<and> k = DestinationHash p \<and> iface = le_OutboundInterface e0
       \<and> validateRelayLinkProofLocked recall verify p (le_DestinationHash e0)
       \<and> le_OutboundInterface e = le_OutboundInterface e0 \<and> le_DestinationHash e = le_DestinationHash e0)"
  using assms
  by (auto simp: relayLinkProof_def rebalance_link_def Let_def split: if_splits option.splits)

lemma reached_proven:
  "reached env recall verify evs ts \<Longrightarrow> ts_linkTable ts k = Some e \<Longrightarrow> le_Validated e \<Longrightarrow>
     proven recall verify evs k e"
proof (induction arbitrary: e rule: reached.induct)
  case (start ts)
  then show ?case by simp
next
  case (frame evs ts raw iface tc)
  then show ?case using accept_tables [of env ts raw iface tc] by (auto intro: proven_mono)
next
  case (transport evs ts now p iface)
  from transport_packet_links [OF transport.prems] transport.IH show ?case by (fastforce intro: proven_mono)
next
  case (proof_packet evs ts p iface)
  from relayLinkProof_links [OF proof_packet.prems] show ?case
  proof
    assume "ts_linkTable ts k = Some e"
    with proof_packet show ?case by (blast intro: proven_mono)
  qed (auto simp: proven_def)
qed

text \<open>
  C16: A transport node carries link traffic only for links it has seen proven. In every reachable
  state, if a packet is forwarded along a link, it leaves on the other interface of the link, and
  earlier there was a link-request proof for that link, received on the interface the request was
  sent out on, whose signature verified under the key of the link's destination.
\<close>

theorem link_traffic_needs_proof:
  assumes "reached env recall verify evs ts"
    and "forward_link env now ts p iface = (ts', FwdSend out raw)"
  shows "\<exists>e. ts_linkTable ts (DestinationHash p) = Some e \<and> proven recall verify evs (DestinationHash p) e
    \<and> (out = le_ReceivedInterface e \<or> out = le_OutboundInterface e)
    \<and> (le_OutboundInterface e \<noteq> le_ReceivedInterface e \<longrightarrow> out \<noteq> iface)
    \<and> length raw = length (Raw p)"
proof -
  obtain e where e: "ts_linkTable ts (DestinationHash p) = Some e" "le_Validated e" "link_outbound e p iface = Some out"
    "length raw = length (Raw p)"
    using assms(2) by (auto simp: forward_link_def split: if_splits option.splits)
  have "proven recall verify evs (DestinationHash p) e" by (rule reached_proven [OF assms(1) e(1,2)])
  moreover have "(out = le_ReceivedInterface e \<or> out = le_OutboundInterface e)
      \<and> (le_OutboundInterface e \<noteq> le_ReceivedInterface e \<longrightarrow> out \<noteq> iface)"
    using e(3) by (auto simp: link_outbound_def split: if_splits)
  ultimately show ?thesis using e by blast
qed

text \<open>A concrete history: a link request is transported from interface 1 to interface 2, its proof returns, and data follows.\<close>

definition demo_node :: transport where
  "demo_node = demo_ts\<lparr>ts_pathTable := [replicate 16 7 \<mapsto>
     \<lparr>pe_NextHop = replicate 16 8, pe_Hops = 1, pe_Interface = Some 2\<rparr>]\<rparr>"

definition demo_request :: packet where
  "demo_request = empty_packet\<lparr>PacketType := PacketLinkRequest, TransportID := Some (replicate 16 9),
     DestinationHash := replicate 16 7, Raw := [2, 0, 0], Hops := 1\<rparr>"

definition demo_link_id :: bytes where
  "demo_link_id = TruncatedHash [2, 0]"

definition demo_proof :: packet where
  "demo_proof = empty_packet\<lparr>PacketType := PacketProof, Context := ContextLrproof,
     DestinationHash := demo_link_id, Raw := [3, 0, 0], Data := replicate 96 0, Hops := 1\<rparr>"

definition demo_data :: packet where
  "demo_data = empty_packet\<lparr>PacketType := PacketData, DestinationHash := demo_link_id, Raw := [0, 0, 5], Hops := 1\<rparr>"

theorem link_traffic_needs_proof_witness:
  "\<exists>ts ts' raw e. reached demo_env (\<lambda>_. Some (replicate 64 1)) (\<lambda>_ _ _. True)
      [NProof demo_proof 2, NTransport 0 demo_request 1] ts
    \<and> forward_link demo_env 0 ts demo_data 2 = (ts', FwdSend 1 raw)
    \<and> proven (\<lambda>_. Some (replicate 64 1)) (\<lambda>_ _ _. True) [NProof demo_proof 2, NTransport 0 demo_request 1] demo_link_id e"
proof -
  let ?rec = "\<lambda>_ :: bytes. Some (replicate 64 1 :: bytes)" and ?ver = "\<lambda>(_ :: bytes) (_ :: bytes) (_ :: bytes). True"
  let ?t1 = "fst (transport_packet demo_env 0 demo_node demo_request 1)"
  let ?t2 = "fst (relayLinkProof demo_env ?rec ?ver ?t1 demo_proof 2)"
  have "reached demo_env ?rec ?ver [] demo_node"
    by (rule reached.start) (simp add: demo_node_def demo_ts_def)
  then have r: "reached demo_env ?rec ?ver [NProof demo_proof 2, NTransport 0 demo_request 1] ?t2"
    by (intro reached.proof_packet reached.transport)
  have t1: "ts_linkTable ?t1 demo_link_id = Some \<lparr>le_Timestamp = 0, le_NextHop = replicate 16 8,
      le_OutboundInterface = 2, le_RemainingHops = 1, le_ReceivedInterface = 1, le_Hops = 1,
      le_DestinationHash = replicate 16 7, le_Validated = False,
      le_ProofTimeout = extraLinkProofTimeout demo_env 1 + establishmentTimeoutPerHop\<rparr>"
    by (simp add: transport_packet_def forward_next_hop_def demo_node_def demo_ts_def demo_request_def
        demo_env_def Let_def isForLocalClient_def isForLocalClientLink_def packet_consts empty_packet_def
        LinkIDFromLR_def GetHashablePart_def demo_link_id_def)
  then have "\<exists>e. ts_linkTable ?t2 demo_link_id = Some e \<and> le_Validated e \<and> le_OutboundInterface e = 2
      \<and> le_ReceivedInterface e = 1 \<and> le_RemainingHops e = 1"
    by (simp add: relayLinkProof_def demo_proof_def empty_packet_def Let_def validateRelayLinkProofLocked_def)
  then have "\<exists>ts' raw. forward_link demo_env 0 ?t2 demo_data 2 = (ts', FwdSend 1 raw)"
    by (auto simp: forward_link_def demo_data_def empty_packet_def packet_consts link_outbound_def)
  then obtain ts' raw where "forward_link demo_env 0 ?t2 demo_data 2 = (ts', FwdSend 1 raw)" by blast
  moreover from link_traffic_needs_proof [OF r this]
  obtain e where "proven ?rec ?ver [NProof demo_proof 2, NTransport 0 demo_request 1] demo_link_id e"
    by (auto simp: demo_data_def)
  ultimately show ?thesis using r by blast
qed

end
