(* ===== verification/Identity.thy ===== *)
theory Identity
  imports Packet
begin

text \<open>
  Identities (\<^verbatim>\<open>rns/identity.go\<close>, \<^verbatim>\<open>rns/crypto/x25519.go\<close>, \<^verbatim>\<open>rns/crypto/ed25519.go\<close>): key material
  and its serialisation, signing, encryption to an identity or one of its ratchets, and the
  validation of announces.

  The elliptic-curve operations of the Go library are fields of the record \<open>curves\<close>; \<open>curves_law\<close> states
  what the code relies on: key and signature lengths, agreement of both sides of a key exchange and
  that a signature verifies under the key that made it. Random bytes are an argument.
\<close>

section \<open>Curves\<close>

record curves =
  x25519_pub :: "bytes \<Rightarrow> bytes"
  x25519_exchange :: "bytes \<Rightarrow> bytes \<Rightarrow> bytes option"
  ed25519_pub :: "bytes \<Rightarrow> bytes"
  ed25519_sign :: "bytes \<Rightarrow> bytes \<Rightarrow> bytes"
  ed25519_verify :: "bytes \<Rightarrow> bytes \<Rightarrow> bytes \<Rightarrow> bool"

definition curves_law :: "curves \<Rightarrow> bool" where
  "curves_law cs \<longleftrightarrow>
     (\<forall>k. length (x25519_pub cs k) = 32) \<and> (\<forall>k. length (ed25519_pub cs k) = 32) \<and>
     (\<forall>k m. length (ed25519_sign cs k m) = 64) \<and>
     (\<forall>k m. ed25519_verify cs (ed25519_pub cs k) m (ed25519_sign cs k m)) \<and>
     (\<forall>a b. x25519_exchange cs a (x25519_pub cs b) = x25519_exchange cs b (x25519_pub cs a)) \<and>
     (\<forall>a P s. x25519_exchange cs a P = Some s \<longrightarrow> length s = 32)"

datatype identity_error =
    RandomFailed
  | InvalidPrivateKeyLength nat
  | InvalidPublicKeyLength nat
  | NoSigningKey
  | NoPublicKey
  | NoPrivateKey
  | CiphertextTooShort
  | ExchangeFailed
  | IdentityCrypto crypto_error
  | RatchetEnforced

type_synonym 'a identity_result = "identity_error + 'a"

definition NewX25519PrivateKeyFromBytes :: "bytes \<Rightarrow> bytes identity_result" where
  "NewX25519PrivateKeyFromBytes data = (if length data \<noteq> 32 then Inl (InvalidPrivateKeyLength (length data)) else Inr data)"

definition NewX25519PublicKeyFromBytes :: "bytes \<Rightarrow> bytes identity_result" where
  "NewX25519PublicKeyFromBytes data = (if length data \<noteq> 32 then Inl (InvalidPublicKeyLength (length data)) else Inr data)"

definition NewEd25519PrivateKeyFromBytes :: "bytes \<Rightarrow> bytes identity_result" where
  "NewEd25519PrivateKeyFromBytes data = (if length data \<noteq> 32 then Inl (InvalidPrivateKeyLength (length data)) else Inr data)"

definition NewEd25519PublicKeyFromBytes :: "bytes \<Rightarrow> bytes identity_result" where
  "NewEd25519PublicKeyFromBytes data = (if length data \<noteq> 32 then Inl (InvalidPublicKeyLength (length data)) else Inr data)"

definition GenerateX25519PrivateKey :: "(nat \<Rightarrow> bytes option) \<Rightarrow> bytes identity_result" where
  "GenerateX25519PrivateKey randomBytes =
     (case randomBytes 32 of None \<Rightarrow> Inl RandomFailed | Some seed \<Rightarrow> NewX25519PrivateKeyFromBytes seed)"

definition GenerateEd25519PrivateKey :: "(nat \<Rightarrow> bytes option) \<Rightarrow> bytes identity_result" where
  "GenerateEd25519PrivateKey randomBytes =
     (case randomBytes 32 of None \<Rightarrow> Inl RandomFailed | Some seed \<Rightarrow> NewEd25519PrivateKeyFromBytes seed)"

section \<open>Identities\<close>

abbreviation (input) IdentityKeySize :: nat where "IdentityKeySize \<equiv> 256 * 2"
abbreviation (input) NameHashLength :: nat where "NameHashLength \<equiv> 80"

record identity =
  prv :: "bytes option"
  pub :: "bytes option"
  sigPrv :: "bytes option"
  sigPub :: "bytes option"
  id_Hash :: bytes

definition empty_identity :: identity where
  "empty_identity = \<lparr>prv = None, pub = None, sigPrv = None, sigPub = None, id_Hash = []\<rparr>"

definition GetPublicKey :: "identity \<Rightarrow> bytes option" where
  "GetPublicKey i = (case (pub i, sigPub i) of (Some p, Some s) \<Rightarrow> Some (p @ s) | _ \<Rightarrow> None)"

definition GetPrivateKey :: "identity \<Rightarrow> bytes option" where
  "GetPrivateKey i = (case (prv i, sigPrv i) of (Some p, Some s) \<Rightarrow> Some (p @ s) | _ \<Rightarrow> None)"

text \<open>The hash of a missing public key is the hash of the empty slice.\<close>

definition UpdateHashes :: "identity \<Rightarrow> identity" where
  "UpdateHashes i = i\<lparr>id_Hash := TruncatedHash (case GetPublicKey i of None \<Rightarrow> [] | Some k \<Rightarrow> k)\<rparr>"

text \<open>The two key pairs are drawn one after the other; \<open>rx\<close> and \<open>rs\<close> are the random sources of the two draws.\<close>

definition CreateKeys ::
  "curves \<Rightarrow> (nat \<Rightarrow> bytes option) \<Rightarrow> (nat \<Rightarrow> bytes option) \<Rightarrow> identity \<Rightarrow> identity \<times> identity_error option" where
  "CreateKeys cs rx rs i =
     (case GenerateX25519PrivateKey rx of
        Inl e \<Rightarrow> (i, Some e)
      | Inr k \<Rightarrow>
          let i = i\<lparr>prv := Some k, pub := Some (x25519_pub cs k)\<rparr> in
          (case GenerateEd25519PrivateKey rs of
             Inl e \<Rightarrow> (i, Some e)
           | Inr s \<Rightarrow> (UpdateHashes (i\<lparr>sigPrv := Some s, sigPub := Some (ed25519_pub cs s)\<rparr>), None)))"

definition LoadPrivateKey :: "curves \<Rightarrow> bytes \<Rightarrow> identity \<Rightarrow> identity \<times> identity_error option" where
  "LoadPrivateKey cs data i =
     (let half = IdentityKeySize div 8 div 2 in
      if length data \<noteq> half * 2 then (i, Some (InvalidPrivateKeyLength (length data)))
      else
        (case NewX25519PrivateKeyFromBytes (take half data) of
           Inl e \<Rightarrow> (i, Some e)
         | Inr k \<Rightarrow>
             let i = i\<lparr>prv := Some k, pub := Some (x25519_pub cs k)\<rparr> in
             (case NewEd25519PrivateKeyFromBytes (drop half data) of
                Inl e \<Rightarrow> (i, Some e)
              | Inr s \<Rightarrow> (UpdateHashes (i\<lparr>sigPrv := Some s, sigPub := Some (ed25519_pub cs s)\<rparr>), None))))"

definition LoadPublicKey :: "bytes \<Rightarrow> identity \<Rightarrow> identity \<times> identity_error option" where
  "LoadPublicKey data i =
     (let half = IdentityKeySize div 8 div 2 in
      if length data \<noteq> half * 2 then (i, Some (InvalidPublicKeyLength (length data)))
      else
        (case NewX25519PublicKeyFromBytes (take half data) of
           Inl e \<Rightarrow> (i, Some e)
         | Inr k \<Rightarrow>
             let i = i\<lparr>pub := Some k\<rparr> in
             (case NewEd25519PublicKeyFromBytes (drop half data) of
                Inl e \<Rightarrow> (i, Some e)
              | Inr s \<Rightarrow> (UpdateHashes (i\<lparr>sigPub := Some s\<rparr>), None))))"

definition FromBytes :: "curves \<Rightarrow> bytes \<Rightarrow> identity identity_result" where
  "FromBytes cs prvBytes =
     (case LoadPrivateKey cs prvBytes empty_identity of (i, None) \<Rightarrow> Inr i | (i, Some e) \<Rightarrow> Inl e)"

definition RandomHash :: "(nat \<Rightarrow> bytes option) \<Rightarrow> bytes identity_result" where
  "RandomHash randomBytes =
     (case randomBytes dstLen of None \<Rightarrow> Inl RandomFailed | Some r \<Rightarrow> Inr (TruncatedHash r))"

definition RatchetID :: "bytes \<Rightarrow> bytes" where
  "RatchetID ratchetPubBytes = take (NameHashLength div 8) (FullHash ratchetPubBytes)"

definition identity_Sign :: "curves \<Rightarrow> identity \<Rightarrow> bytes \<Rightarrow> bytes identity_result" where
  "identity_Sign cs i message =
     (case sigPrv i of None \<Rightarrow> Inl NoSigningKey | Some s \<Rightarrow> Inr (ed25519_sign cs s message))"

definition identity_Verify :: "curves \<Rightarrow> identity \<Rightarrow> bytes \<Rightarrow> bytes \<Rightarrow> bool" where
  "identity_Verify cs i signature message =
     (case sigPub i of None \<Rightarrow> False | Some k \<Rightarrow> ed25519_verify cs k message signature)"

section \<open>Announces\<close>

text \<open>What a valid announce makes the transport remember.\<close>

datatype announce_effect =
    Remember bytes bytes bytes "bytes option"
  | SetRatchet bytes bytes

definition ValidateAnnounce :: "curves \<Rightarrow> packet \<Rightarrow> announce_effect list option" where
  "ValidateAnnounce cs p =
     (if PacketType p \<noteq> PacketAnnounce then None
      else
        let keySize = IdentityKeySize div 8;
            nameHashLen = NameHashLength div 8;
            sigLen = 64;
            ratchetSize = 32;
            minLen = keySize + nameHashLen + 10 + sigLen;
            minLen = (if ContextFlag p = FlagSet then minLen + ratchetSize else minLen)
        in
        if length (Data p) < minLen then None
        else
          let publicKey = take keySize (Data p);
              nameHash = go_slice keySize (keySize + nameHashLen) (Data p);
              randomHash = go_slice (keySize + nameHashLen) (keySize + nameHashLen + 10) (Data p);
              offset = keySize + nameHashLen + 10;
              ratchet = (if ContextFlag p = FlagSet then go_slice offset (offset + ratchetSize) (Data p) else []);
              offset = (if ContextFlag p = FlagSet then offset + ratchetSize else offset);
              signature = go_slice offset (offset + sigLen) (Data p);
              offset = offset + sigLen;
              appData = (if length (Data p) > offset then Some (drop offset (Data p)) else None);
              signedData = DestinationHash p @ publicKey @ nameHash @ randomHash @ ratchet
                @ (case appData of None \<Rightarrow> [] | Some d \<Rightarrow> d)
          in
          (case LoadPublicKey publicKey empty_identity of
             (i, Some e) \<Rightarrow> None
           | (i, None) \<Rightarrow>
               if \<not> identity_Verify cs i signature signedData then None
               else
                 let hashMaterial = nameHash @ id_Hash i;
                     expectedHash = take dstLen (FullHash hashMaterial)
                 in if DestinationHash p \<noteq> expectedHash then None
                    else Some (Remember (PacketHash p) (DestinationHash p) publicKey appData
                               # (if ratchet \<noteq> [] then [SetRatchet (DestinationHash p) ratchet] else []))))"

section \<open>Encryption\<close>

text \<open>The key both sides derive from a shared secret, and the token for it.\<close>

definition derive_token :: "bytes \<Rightarrow> bytes \<Rightarrow> token identity_result" where
  "derive_token sharedKey salt =
     (case HKDF 64 sharedKey salt [] of
        Inl e \<Rightarrow> Inl (IdentityCrypto e)
      | Inr derivedKey \<Rightarrow> (case NewToken derivedKey of Inl e \<Rightarrow> Inl (IdentityCrypto e) | Inr t \<Rightarrow> Inr t))"

text \<open>\<open>rk\<close> supplies the ephemeral key and \<open>rt\<close> the token's initialisation vector.\<close>

definition identity_Encrypt ::
  "curves \<Rightarrow> (nat \<Rightarrow> bytes option) \<Rightarrow> (nat \<Rightarrow> bytes option) \<Rightarrow> identity \<Rightarrow> bytes \<Rightarrow> bytes \<Rightarrow> bytes identity_result" where
  "identity_Encrypt cs rk rt i plaintext ratchetPubBytes =
     (case (if length ratchetPubBytes > 0 then NewX25519PublicKeyFromBytes ratchetPubBytes
            else (case pub i of None \<Rightarrow> Inl NoPublicKey | Some k \<Rightarrow> Inr k)) of
        Inl e \<Rightarrow> Inl e
      | Inr targetPub \<Rightarrow>
          (case GenerateX25519PrivateKey rk of
             Inl e \<Rightarrow> Inl e
           | Inr ephemeralKey \<Rightarrow>
               (case x25519_exchange cs ephemeralKey targetPub of
                  None \<Rightarrow> Inl ExchangeFailed
                | Some sharedKey \<Rightarrow>
                    (case derive_token sharedKey (id_Hash i) of
                       Inl e \<Rightarrow> Inl e
                     | Inr t \<Rightarrow>
                         (case TokenEncrypt rt t plaintext of
                            Inl e \<Rightarrow> Inl (IdentityCrypto e)
                          | Inr ciphertext \<Rightarrow> Inr (x25519_pub cs ephemeralKey @ ciphertext))))))"

definition decrypt_with :: "curves \<Rightarrow> bytes \<Rightarrow> bytes \<Rightarrow> bytes \<Rightarrow> bytes \<Rightarrow> bytes identity_result" where
  "decrypt_with cs salt ephemeralPub tokenCiphertext key =
     (case x25519_exchange cs key ephemeralPub of
        None \<Rightarrow> Inl ExchangeFailed
      | Some sharedKey \<Rightarrow>
          (case derive_token sharedKey salt of
             Inl e \<Rightarrow> Inl e
           | Inr t \<Rightarrow>
               (case TokenDecryptData t tokenCiphertext of Inl e \<Rightarrow> Inl (IdentityCrypto e) | Inr p \<Rightarrow> Inr p)))"

text \<open>The first ratchet that decrypts wins; a run-time panic in a trial ends everything.\<close>

fun try_ratchets :: "curves \<Rightarrow> bytes \<Rightarrow> bytes \<Rightarrow> bytes \<Rightarrow> bytes list \<Rightarrow> bytes identity_result option" where
  "try_ratchets cs salt ephemeralPub tokenCiphertext [] = None"
| "try_ratchets cs salt ephemeralPub tokenCiphertext (ratchet # ratchets) =
     (case decrypt_with cs salt ephemeralPub tokenCiphertext ratchet of
        Inr plaintext \<Rightarrow> Some (Inr plaintext)
      | Inl (IdentityCrypto CryptoPanic) \<Rightarrow> Some (Inl (IdentityCrypto CryptoPanic))
      | Inl _ \<Rightarrow> try_ratchets cs salt ephemeralPub tokenCiphertext ratchets)"

definition identity_Decrypt ::
  "curves \<Rightarrow> identity \<Rightarrow> bytes \<Rightarrow> bytes list \<Rightarrow> bool \<Rightarrow> bytes identity_result" where
  "identity_Decrypt cs i ciphertext ratchets enforceRatchets =
     (let half = IdentityKeySize div 8 div 2 in
      if length ciphertext < half then Inl CiphertextTooShort
      else
        let ephemeralPubBytes = take half ciphertext; tokenCiphertext = drop half ciphertext in
        (case NewX25519PublicKeyFromBytes ephemeralPubBytes of
           Inl e \<Rightarrow> Inl e
         | Inr ephemeralPub \<Rightarrow>
             (case try_ratchets cs (id_Hash i) ephemeralPub tokenCiphertext ratchets of
                Some res \<Rightarrow> res
              | None \<Rightarrow>
                  if enforceRatchets then Inl RatchetEnforced
                  else (case prv i of
                          None \<Rightarrow> Inl NoPrivateKey
                        | Some k \<Rightarrow> decrypt_with cs (id_Hash i) ephemeralPub tokenCiphertext k))))"

section \<open>Proofs of packets\<close>

definition proofDestination :: "packet \<Rightarrow> packet_dest" where
  "proofDestination p =
     \<lparr>dest_hash = take dstLen (PacketHash p), dest_type = DestinationSingle, dest_transport = packet_transport p,
      dest_encrypt = Some, dest_link_closed = None\<rparr>"

text \<open>
  \<^verbatim>\<open>Prove\<close>: the proof packet after \<^verbatim>\<open>Send\<close>; \<open>useImplicitProof\<close> is the setting of the packet's transport.
  The interface the proof is attached to, that of the proven packet, is no field of the packet record.
\<close>

definition identity_Prove ::
  "curves \<Rightarrow> bool \<Rightarrow> identity \<Rightarrow> packet \<Rightarrow> packet_dest option \<Rightarrow> (packet \<times> send_outcome \<times> (nat \<times> bool) option) option" where
  "identity_Prove cs useImplicitProof i p destination =
     (case sigPrv i of
        None \<Rightarrow> None
      | Some s \<Rightarrow>
          let signature = ed25519_sign cs s (PacketHash p);
              proofData = (if packet_transport p \<and> useImplicitProof then signature else PacketHash p @ signature);
              destination = (case destination of None \<Rightarrow> proofDestination p | Some d \<Rightarrow> d);
              ts = (packet_transport p \<or> (case Destination p of None \<Rightarrow> False | Some d \<Rightarrow> dest_transport d))
          in Some (packet_Send ((NewPacketWithTransport ts (Some destination) proofData)\<lparr>PacketType := PacketProof\<rparr>)))"

section \<open>Key material\<close>

lemma identity_sizes: "IdentityKeySize div 8 = 64" "IdentityKeySize div 8 div 2 = 32" "NameHashLength div 8 = 10"
  by simp_all

lemma LoadPublicKey_ok:
  assumes "length data = 64"
  shows "LoadPublicKey data i =
    (i\<lparr>pub := Some (take 32 data), sigPub := Some (drop 32 data), id_Hash := TruncatedHash data\<rparr>, None)"
  using assms by (simp add: LoadPublicKey_def Let_def identity_sizes NewX25519PublicKeyFromBytes_def
      NewEd25519PublicKeyFromBytes_def UpdateHashes_def GetPublicKey_def)

lemma LoadPrivateKey_ok:
  assumes "length x = 32" and "length s = 32"
  shows "LoadPrivateKey cs (x @ s) i =
    (i\<lparr>prv := Some x, pub := Some (x25519_pub cs x), sigPrv := Some s, sigPub := Some (ed25519_pub cs s),
       id_Hash := TruncatedHash (x25519_pub cs x @ ed25519_pub cs s)\<rparr>, None)"
  using assms by (simp add: LoadPrivateKey_def Let_def identity_sizes NewX25519PrivateKeyFromBytes_def
      NewEd25519PrivateKeyFromBytes_def UpdateHashes_def GetPublicKey_def)

text \<open>An identity that holds both private keys, as \<open>CreateKeys\<close> and \<open>LoadPrivateKey\<close> leave it.\<close>

definition full_identity :: "curves \<Rightarrow> identity \<Rightarrow> bool" where
  "full_identity cs i \<longleftrightarrow> (\<exists>x s. length x = 32 \<and> length s = 32 \<and> prv i = Some x \<and> sigPrv i = Some s \<and>
     pub i = Some (x25519_pub cs x) \<and> sigPub i = Some (ed25519_pub cs s) \<and>
     id_Hash i = TruncatedHash (x25519_pub cs x @ ed25519_pub cs s))"

lemma CreateKeys_full: "CreateKeys cs rx rs i = (i', None) \<Longrightarrow> full_identity cs i'"
  by (auto simp: CreateKeys_def GenerateX25519PrivateKey_def GenerateEd25519PrivateKey_def NewX25519PrivateKeyFromBytes_def
      NewEd25519PrivateKeyFromBytes_def UpdateHashes_def GetPublicKey_def full_identity_def Let_def split: option.splits if_splits)

lemma FromBytes_full: "FromBytes cs data = Inr i \<Longrightarrow> full_identity cs i \<and> GetPrivateKey i = Some data"
  by (auto simp: FromBytes_def LoadPrivateKey_def NewX25519PrivateKeyFromBytes_def NewEd25519PrivateKeyFromBytes_def
      identity_sizes UpdateHashes_def GetPublicKey_def GetPrivateKey_def full_identity_def Let_def split: option.splits if_splits)

lemma FromBytes_GetPrivateKey:
  assumes "full_identity cs i" and "GetPrivateKey i = Some data"
  shows "FromBytes cs data = Inr i"
proof -
  obtain x s where k: "length x = 32" "length s = 32" "prv i = Some x" "sigPrv i = Some s" "pub i = Some (x25519_pub cs x)"
      "sigPub i = Some (ed25519_pub cs s)" "id_Hash i = TruncatedHash (x25519_pub cs x @ ed25519_pub cs s)"
    using assms(1) by (auto simp: full_identity_def)
  then have "data = x @ s" using assms(2) by (simp add: GetPrivateKey_def)
  with k show ?thesis by (cases i) (simp add: FromBytes_def LoadPrivateKey_ok empty_identity_def)
qed

section \<open>A concrete instance of the curves\<close>

definition pad32 :: "bytes \<Rightarrow> bytes" where "pad32 k = take 32 (k @ replicate 32 0)"

definition demo_curves :: curves where
  "demo_curves = \<lparr>x25519_pub = pad32, x25519_exchange = (\<lambda>a P. Some (map2 (XOR) (pad32 a) (pad32 P))), ed25519_pub = pad32,
     ed25519_sign = (\<lambda>k m. pad32 k @ sha256 m), ed25519_verify = (\<lambda>P m s. s = P @ sha256 m)\<rparr>"

lemma length_pad32 [simp]: "length (pad32 k) = 32"
  by (simp add: pad32_def)

lemma pad32_id: "length k = 32 \<Longrightarrow> pad32 k = k"
  by (simp add: pad32_def)

lemma demo_curves_law: "curves_law demo_curves"
proof -
  have "map2 (XOR) u v = map2 (XOR) v (u :: bytes)" for u v by (induction u v rule: list_induct2') (auto simp: xor.commute)
  then show ?thesis by (simp add: curves_law_def demo_curves_def pad32_id)
qed

definition demo_identity :: identity where
  "demo_identity = fst (LoadPrivateKey demo_curves (replicate 32 1 @ replicate 32 2) empty_identity)"

lemma demo_identity_full: "full_identity demo_curves demo_identity"
  by (auto simp: demo_identity_def LoadPrivateKey_ok full_identity_def)

section \<open>Announces\<close>

text \<open>The fields of an announce, as they lie in the packet's data.\<close>

definition announce_parts :: "bytes \<Rightarrow> bool \<Rightarrow> bytes \<Rightarrow> bytes \<Rightarrow> bytes \<Rightarrow> bytes \<Rightarrow> bytes \<Rightarrow> bytes \<Rightarrow> bool" where
  "announce_parts data flag pk nh rh ratchet sig app \<longleftrightarrow>
     data = pk @ nh @ rh @ ratchet @ sig @ app \<and> length pk = 64 \<and> length nh = 10 \<and> length rh = 10 \<and>
     length ratchet = (if flag then 32 else 0) \<and> length sig = 64"

definition announce_signed :: "curves \<Rightarrow> bytes \<Rightarrow> bytes \<Rightarrow> bytes \<Rightarrow> bytes \<Rightarrow> bytes \<Rightarrow> bytes \<Rightarrow> bytes \<Rightarrow> bool" where
  "announce_signed cs dest pk nh rh ratchet sig app \<longleftrightarrow>
     ed25519_verify cs (drop 32 pk) (dest @ pk @ nh @ rh @ ratchet @ app) sig \<and>
     dest = take dstLen (FullHash (nh @ TruncatedHash pk))"

definition announce_effects :: "packet \<Rightarrow> bytes \<Rightarrow> bytes \<Rightarrow> bytes \<Rightarrow> announce_effect list" where
  "announce_effects p pk ratchet app =
     Remember (PacketHash p) (DestinationHash p) pk (if app = [] then None else Some app)
       # (if ratchet \<noteq> [] then [SetRatchet (DestinationHash p) ratchet] else [])"

lemma ValidateAnnounce_parts:
  assumes "announce_parts (Data p) (ContextFlag p = FlagSet) pk nh rh ratchet sig app" and "PacketType p = PacketAnnounce"
  shows "ValidateAnnounce cs p =
    (if announce_signed cs (DestinationHash p) pk nh rh ratchet sig app then Some (announce_effects p pk ratchet app) else None)"
proof -
  have d: "Data p = pk @ nh @ rh @ ratchet @ sig @ app"
    and l: "length pk = 64" "length nh = 10" "length rh = 10" "length sig = 64"
    and lr: "length ratchet = (if ContextFlag p = FlagSet then 32 else 0)"
    using assms(1) by (auto simp: announce_parts_def)
  have s: "take 64 (Data p) = pk" "go_slice 64 (64 + 10) (Data p) = nh" "go_slice (64 + 10) (64 + 10 + 10) (Data p) = rh"
    by (simp_all add: d l go_slice_def)
  show ?thesis
  proof (cases "ContextFlag p = FlagSet")
    case True
    with lr have "length ratchet = 32" by simp
    then have "go_slice (64 + 10 + 10) (64 + 10 + 10 + 32) (Data p) = ratchet" "ratchet \<noteq> []"
        "go_slice (64 + 10 + 10 + 32) (64 + 10 + 10 + 32 + 64) (Data p) = sig" "drop (64 + 10 + 10 + 32 + 64) (Data p) = app"
        "length (Data p) = 64 + 10 + 10 + 32 + 64 + length app"
      by (auto simp: d l go_slice_def)
    then show ?thesis using assms(2) True
      unfolding ValidateAnnounce_def Let_def identity_sizes s
      by (auto simp: LoadPublicKey_ok l identity_Verify_def announce_signed_def announce_effects_def)
  next
    case False
    with lr have "ratchet = []" by simp
    then have "ratchet = []" "go_slice (64 + 10 + 10) (64 + 10 + 10 + 64) (Data p) = sig" "drop (64 + 10 + 10 + 64) (Data p) = app"
        "length (Data p) = 64 + 10 + 10 + 64 + length app"
      by (auto simp: d l go_slice_def)
    then show ?thesis using assms(2) False
      unfolding ValidateAnnounce_def Let_def identity_sizes s
      by (auto simp: LoadPublicKey_ok l identity_Verify_def announce_signed_def announce_effects_def)
  qed
qed

lemma split_at: "n \<le> length xs \<Longrightarrow> \<exists>ys zs. xs = ys @ zs \<and> length ys = n"
  by (intro exI [of _ "take n xs"] exI [of _ "drop n xs"]) simp

lemma announce_split:
  assumes "length data \<ge> 148 + (if flag then 32 else 0)"
  shows "\<exists>pk nh rh ratchet sig app. announce_parts data flag pk nh rh ratchet sig app"
proof -
  obtain pk d1 where 1: "data = pk @ d1" "length pk = 64" using split_at [of 64 data] assms by (auto split: if_splits)
  obtain nh d2 where 2: "d1 = nh @ d2" "length nh = 10" using split_at [of 10 d1] assms 1 by (auto split: if_splits)
  obtain rh d3 where 3: "d2 = rh @ d3" "length rh = 10" using split_at [of 10 d2] assms 1 2 by (auto split: if_splits)
  obtain ratchet d4 where 4: "d3 = ratchet @ d4" "length ratchet = (if flag then 32 else 0)"
    using split_at [of "if flag then 32 else 0" d3] assms 1 2 3 by (auto split: if_splits)
  obtain sig app where 5: "d4 = sig @ app" "length sig = 64" using split_at [of 64 d4] assms 1 2 3 4 by (auto split: if_splits)
  have "announce_parts data flag pk nh rh ratchet sig app" using 1 2 3 4 5 by (simp add: announce_parts_def)
  then show ?thesis by blast
qed

lemma ValidateAnnounce_short:
  "PacketType p \<noteq> PacketAnnounce \<or> length (Data p) < 148 + (if ContextFlag p = FlagSet then 32 else 0) \<Longrightarrow> ValidateAnnounce cs p = None"
  by (auto simp: ValidateAnnounce_def Let_def identity_sizes)

text \<open>
  C35: What makes an announce valid. The validation accepts exactly the announce packets whose data is a
  public key, a name hash, a random blob, a ratchet key if the context flag is set, a signature and
  application data, such that the signature by the announced key covers the destination hash and all
  other fields, and the destination hash is the one derived from the name hash and the announced
  identity. What it makes the transport remember are these fields.
\<close>

theorem announce_valid_iff:
  "ValidateAnnounce cs p = Some effects \<longleftrightarrow>
     PacketType p = PacketAnnounce \<and>
     (\<exists>pk nh rh ratchet sig app.
        announce_parts (Data p) (ContextFlag p = FlagSet) pk nh rh ratchet sig app \<and>
        announce_signed cs (DestinationHash p) pk nh rh ratchet sig app \<and> effects = announce_effects p pk ratchet app)"
proof (cases "PacketType p \<noteq> PacketAnnounce \<or> length (Data p) < 148 + (if ContextFlag p = FlagSet then 32 else 0)")
  case True
  then show ?thesis using ValidateAnnounce_short [OF True] by (auto simp: announce_parts_def)
next
  case False
  then obtain pk nh rh ratchet sig app where parts:
    "announce_parts (Data p) (ContextFlag p = FlagSet) pk nh rh ratchet sig app"
    using announce_split [of "ContextFlag p = FlagSet" "Data p"] by auto
  show ?thesis
  proof
    assume "ValidateAnnounce cs p = Some effects"
    moreover have "PacketType p = PacketAnnounce" using False by simp
    ultimately have "announce_signed cs (DestinationHash p) pk nh rh ratchet sig app \<and> effects = announce_effects p pk ratchet app"
      using ValidateAnnounce_parts [OF parts, of cs] by (auto split: if_splits)
    with parts False show "PacketType p = PacketAnnounce \<and> (\<exists>pk nh rh ratchet sig app.
        announce_parts (Data p) (ContextFlag p = FlagSet) pk nh rh ratchet sig app \<and>
        announce_signed cs (DestinationHash p) pk nh rh ratchet sig app \<and> effects = announce_effects p pk ratchet app)"
      by blast
  next
    assume "PacketType p = PacketAnnounce \<and> (\<exists>pk nh rh ratchet sig app.
        announce_parts (Data p) (ContextFlag p = FlagSet) pk nh rh ratchet sig app \<and>
        announce_signed cs (DestinationHash p) pk nh rh ratchet sig app \<and> effects = announce_effects p pk ratchet app)"
    then show "ValidateAnnounce cs p = Some effects" using ValidateAnnounce_parts by fastforce
  qed
qed

text \<open>
  C36: The signature does not tell a ratchet key from application data. Take any valid announce that
  carries a ratchet: clearing the context flag and moving the ratchet behind the signature gives a
  valid announce without a ratchet, whose application data starts with the ratchet key. Conversely, 32
  bytes of application data can be turned into a ratchet key that the receiver stores.
\<close>

theorem announce_ratchet_ambiguous:
  assumes "PacketType p = PacketAnnounce" and "length pk = 64" and "length nh = 10" and "length rh = 10"
    and "length ratchet = 32" and "length sig = 64"
    and "ContextFlag p = FlagSet" and "Data p = pk @ nh @ rh @ ratchet @ sig @ app"
  shows "(ValidateAnnounce cs p = Some (announce_effects p pk ratchet app)) \<longleftrightarrow>
         (ValidateAnnounce cs (p\<lparr>ContextFlag := FlagUnset, Data := pk @ nh @ rh @ sig @ ratchet @ app\<rparr>)
            = Some (announce_effects p pk [] (ratchet @ app)))"
proof -
  let ?q = "p\<lparr>ContextFlag := FlagUnset, Data := pk @ nh @ rh @ sig @ ratchet @ app\<rparr>"
  have "announce_parts (Data p) (ContextFlag p = FlagSet) pk nh rh ratchet sig app"
    using assms by (simp add: announce_parts_def)
  moreover have "announce_parts (Data ?q) (ContextFlag ?q = FlagSet) pk nh rh [] sig (ratchet @ app)"
    using assms by (simp add: announce_parts_def packet_consts)
  moreover have "announce_effects ?q pk [] (ratchet @ app) = announce_effects p pk [] (ratchet @ app)"
    by (simp add: announce_effects_def)
  moreover have "announce_signed cs (DestinationHash ?q) pk nh rh [] sig (ratchet @ app) =
      announce_signed cs (DestinationHash p) pk nh rh ratchet sig app"
    by (simp add: announce_signed_def)
  ultimately show ?thesis
    using ValidateAnnounce_parts [of p pk nh rh ratchet sig app cs] ValidateAnnounce_parts [of ?q pk nh rh "[]" sig "ratchet @ app" cs] assms(1)
    by simp
qed

definition demo_announced :: "bytes \<Rightarrow> bytes \<Rightarrow> packet" where
  "demo_announced ratchet app =
     (let pk = replicate 64 1; nh = replicate 10 2; rh = replicate 10 3; dest = take dstLen (FullHash (nh @ TruncatedHash pk));
          sig = replicate 32 1 @ sha256 (dest @ pk @ nh @ rh @ ratchet @ app)
      in empty_packet\<lparr>PacketType := PacketAnnounce, ContextFlag := FlagSet, DestinationHash := dest,
           Data := pk @ nh @ rh @ ratchet @ sig @ app\<rparr>)"

lemma demo_announced_signed:
  assumes "length ratchet = 32"
  shows "\<exists>sig. length sig = 64 \<and> Data (demo_announced ratchet app) = replicate 64 1 @ replicate 10 2 @ replicate 10 3 @ ratchet @ sig @ app
    \<and> announce_signed demo_curves (DestinationHash (demo_announced ratchet app)) (replicate 64 1) (replicate 10 2) (replicate 10 3) ratchet sig app"
  by (simp add: demo_announced_def Let_def announce_signed_def demo_curves_def)

theorem announce_ratchet_ambiguous_witness:
  "\<exists>sig. ValidateAnnounce demo_curves (demo_announced (replicate 32 7) [5])
        = Some (announce_effects (demo_announced (replicate 32 7) [5]) (replicate 64 1) (replicate 32 7) [5]) \<and>
     ValidateAnnounce demo_curves ((demo_announced (replicate 32 7) [5])
         \<lparr>ContextFlag := FlagUnset, Data := replicate 64 1 @ replicate 10 2 @ replicate 10 3 @ sig @ replicate 32 7 @ [5]\<rparr>)
        = Some (announce_effects (demo_announced (replicate 32 7) [5]) (replicate 64 1) [] (replicate 32 7 @ [5]))"
proof -
  let ?p = "demo_announced (replicate 32 7) [5]"
  obtain sig where sig: "length sig = 64" "Data ?p = replicate 64 1 @ replicate 10 2 @ replicate 10 3 @ replicate 32 7 @ sig @ [5]"
      "announce_signed demo_curves (DestinationHash ?p) (replicate 64 1) (replicate 10 2) (replicate 10 3) (replicate 32 7) sig [5]"
    using demo_announced_signed [of "replicate 32 7" "[5]"] by auto
  have p: "PacketType ?p = PacketAnnounce" "ContextFlag ?p = FlagSet" by (simp_all add: demo_announced_def Let_def)
  have "announce_parts (Data ?p) (ContextFlag ?p = FlagSet) (replicate 64 1) (replicate 10 2) (replicate 10 3) (replicate 32 7) sig [5]"
    using sig p by (simp add: announce_parts_def)
  then have "ValidateAnnounce demo_curves ?p = Some (announce_effects ?p (replicate 64 1) (replicate 32 7) [5])"
    using ValidateAnnounce_parts [of ?p "replicate 64 1" "replicate 10 2" "replicate 10 3" "replicate 32 7" sig "[5]" demo_curves] sig(3) p by simp
  then show ?thesis
    using announce_ratchet_ambiguous [of ?p "replicate 64 1" "replicate 10 2" "replicate 10 3" "replicate 32 7" sig "[5]" demo_curves]
      p sig(1,2) by auto
qed

section \<open>Encrypting and decrypting\<close>

lemma derive_token_ok:
  assumes "length shared = 32"
  shows "\<exists>t. derive_token shared salt = Inr t \<and> token_wf t"
proof -
  have "shared \<noteq> []" using assms by auto
  then have "HKDF 64 shared salt [] = Inr (hkdf_out 64 shared salt [])" by (intro HKDF_ok) simp_all
  moreover have "length (hkdf_out 64 shared salt []) = 64" by (simp add: length_hkdf_out)
  moreover from this obtain t where "NewToken (hkdf_out 64 shared salt []) = Inr t" by (auto simp: NewToken_def)
  ultimately show ?thesis using NewToken_wf by (auto simp: derive_token_def)
qed

lemma token_open:
  assumes "token_wf t" and "TokenEncrypt randomBytes t data = Inr tok" and "\<And>n r. randomBytes n = Some r \<Longrightarrow> length r = n"
  shows "TokenDecryptData t tok = Inr data"
proof -
  obtain iv where iv: "randomBytes 16 = Some iv" "length iv = 16"
    using assms(2,3) by (auto simp: TokenEncrypt_def split: option.splits)
  obtain ct where ct: "length ct = (length data div 16 + 1) * 16"
      "cbc_decrypt (aes_decrypt (encryptionKey t)) (length ct div 16) iv ct = PKCS7Pad data 16"
      "TokenEncrypt randomBytes t data = Inr (iv @ ct @ HMAC (signingKey t) (iv @ ct))"
    using TokenEncrypt_form [where t = t and randomBytes = randomBytes and iv = iv and data = data] assms(1) iv by blast
  then show ?thesis using assms(1,2) iv(2) TokenDecryptData_sealed [OF assms(1) iv(2), of ct]
    by (simp add: PKCS7Unpad_PKCS7Pad)
qed

text \<open>The ciphertext for a target key, taken apart.\<close>

lemma encrypt_form:
  assumes "identity_Encrypt cs rk rt i plaintext ratchetPub = Inr ct" and law: "curves_law cs"
    and "\<And>n r. rt n = Some r \<Longrightarrow> length r = n" and "if ratchetPub = [] then pub i = Some target else target = ratchetPub"
  shows "\<exists>e tok. ct = x25519_pub cs e @ tok \<and>
    (\<forall>k. target = x25519_pub cs k \<longrightarrow> decrypt_with cs (id_Hash i) (x25519_pub cs e) tok k = Inr plaintext)"
proof -
  from assms(1,4) obtain e shared t tok where e: "x25519_exchange cs e target = Some shared"
      "derive_token shared (id_Hash i) = Inr t" "TokenEncrypt rt t plaintext = Inr tok" "ct = x25519_pub cs e @ tok"
    by (auto simp: identity_Encrypt_def NewX25519PublicKeyFromBytes_def split: sum.splits option.splits if_splits)
  have "length shared = 32" using law e(1) by (auto simp: curves_law_def)
  then have "token_wf t" using derive_token_ok [of shared "id_Hash i"] e(2) by auto
  then have "TokenDecryptData t tok = Inr plaintext" by (rule token_open [OF _ e(3) assms(3)])
  moreover have "x25519_exchange cs k (x25519_pub cs e) = Some shared" if "target = x25519_pub cs k" for k
    using law e(1) that by (auto simp: curves_law_def)
  ultimately show ?thesis using e by (intro exI [of _ e] exI [of _ tok]) (simp add: decrypt_with_def)
qed

lemma try_ratchets_skip:
  assumes "\<And>k. k \<in> set before \<Longrightarrow> \<exists>e. decrypt_with cs salt eph tok k = Inl e \<and> e \<noteq> IdentityCrypto CryptoPanic"
  shows "try_ratchets cs salt eph tok (before @ rest) = try_ratchets cs salt eph tok rest"
  using assms
proof (induction before)
  case (Cons k ks)
  obtain e where "decrypt_with cs salt eph tok k = Inl e" "e \<noteq> IdentityCrypto CryptoPanic" using Cons.prems [of k] by auto
  with Cons show ?case by (auto split: identity_error.splits crypto_error.splits)
qed simp

text \<open>
  C37: What was encrypted for an identity or for one of its ratchets decrypts. Encrypted to the identity's
  own key, it decrypts without ratchets and with ratchets that fail on it, unless ratchets are enforced;
  encrypted to a ratchet key, it decrypts with that ratchet among the retained ones, whatever fails
  before it, even when ratchets are enforced.
\<close>

theorem identity_decrypts_encrypted:
  assumes law: "curves_law cs" and full: "full_identity cs i" and rt: "\<And>n r. rt n = Some r \<Longrightarrow> length r = n"
    and enc: "identity_Encrypt cs rk rt i plaintext (if use_ratchet then x25519_pub cs ratchet else []) = Inr ct"
    and before: "\<And>k. k \<in> set before \<Longrightarrow>
      \<exists>e. decrypt_with cs (id_Hash i) (take 32 ct) (drop 32 ct) k = Inl e \<and> e \<noteq> IdentityCrypto CryptoPanic"
  shows "identity_Decrypt cs i ct (before @ (if use_ratchet then ratchet # after else [])) (use_ratchet \<and> enforce) = Inr plaintext"
proof -
  obtain x where x: "prv i = Some x" "pub i = Some (x25519_pub cs x)" using full by (auto simp: full_identity_def)
  let ?k = "if use_ratchet then ratchet else x" and ?r = "if use_ratchet then x25519_pub cs ratchet else []"
  have "length (x25519_pub cs ratchet) = 32" using law by (simp add: curves_law_def)
  then have ne: "x25519_pub cs ratchet \<noteq> []" by auto
  obtain e tok where e: "ct = x25519_pub cs e @ tok"
      "\<forall>k. x25519_pub cs ?k = x25519_pub cs k \<longrightarrow> decrypt_with cs (id_Hash i) (x25519_pub cs e) tok k = Inr plaintext"
    using encrypt_form [OF enc law rt, of "x25519_pub cs ?k"] x ne by (cases use_ratchet) force+
  have l: "length (x25519_pub cs e) = 32" using law by (simp add: curves_law_def)
  then have parts: "take 32 ct = x25519_pub cs e" "drop 32 ct = tok" "\<not> length ct < 32" by (simp_all add: e(1))
  have skip: "try_ratchets cs (id_Hash i) (x25519_pub cs e) tok (before @ rest) = try_ratchets cs (id_Hash i) (x25519_pub cs e) tok rest" for rest
    by (rule try_ratchets_skip) (use before parts in auto)
  have "decrypt_with cs (id_Hash i) (x25519_pub cs e) tok ?k = Inr plaintext" using e(2) by blast
  then show ?thesis
    using x l by (cases use_ratchet) (simp_all add: identity_Decrypt_def Let_def identity_sizes parts NewX25519PublicKeyFromBytes_def skip
        skip [of "[]", simplified])
qed

lemma demo_Encrypt_ok:
  assumes "length ratchetPub = 32"
  shows "\<exists>ct. identity_Encrypt demo_curves (\<lambda>n. Some (replicate n 9)) (\<lambda>n. Some (replicate n 8)) i plaintext ratchetPub = Inr ct"
proof -
  let ?shared = "map2 (XOR) (pad32 (replicate 32 9)) (pad32 ratchetPub)"
  obtain t where t: "derive_token ?shared (id_Hash i) = Inr t" "token_wf t"
    using derive_token_ok [of ?shared "id_Hash i"] by auto
  obtain c where "TokenEncrypt (\<lambda>n. Some (replicate n 8)) t plaintext = Inr c"
    using TokenEncrypt_form [where t = t and randomBytes = "\<lambda>n. Some (replicate n 8)" and iv = "replicate 16 8" and data = plaintext] t(2) by auto
  then show ?thesis using assms t(1)
    by (simp add: identity_Encrypt_def demo_curves_def GenerateX25519PrivateKey_def NewX25519PublicKeyFromBytes_def NewX25519PrivateKeyFromBytes_def)
qed

theorem identity_decrypts_encrypted_witness:
  "\<exists>ct. identity_Encrypt demo_curves (\<lambda>n. Some (replicate n 9)) (\<lambda>n. Some (replicate n 8)) demo_identity [1, 2, 3] (pad32 [7]) = Inr ct
    \<and> identity_Decrypt demo_curves demo_identity ct [[7], [6]] True = Inr [1, 2, 3]"
proof -
  obtain ct where "identity_Encrypt demo_curves (\<lambda>n. Some (replicate n 9)) (\<lambda>n. Some (replicate n 8)) demo_identity [1, 2, 3] (pad32 [7]) = Inr ct"
    using demo_Encrypt_ok [of "pad32 [7]"] by auto
  moreover have "x25519_pub demo_curves [7] = pad32 [7]" by (simp add: demo_curves_def)
  ultimately show ?thesis
    using identity_decrypts_encrypted [of demo_curves demo_identity "\<lambda>n. Some (replicate n 8)" "\<lambda>n. Some (replicate n 9)"
        "[1, 2, 3]" True "[7]" ct "[]" "[[6]]" True] demo_curves_law demo_identity_full by auto
qed

section \<open>Proving packets\<close>

lemma Pack_plain:
  assumes "Destination p = Some d" and "HeaderType p = Header1" and "dest_encrypt d = Some"
    and "int (length (dest_hash d) + length (Data p) + 3) \<le> packet_MTU p"
  shows "\<exists>q. Pack p = (q, None) \<and> Ciphertext q = Data p \<and> DestinationHash q = dest_hash d \<and> Destination q = Some d
    \<and> packet_transport q = packet_transport p \<and> Receipt q = Receipt p \<and> Raw q \<noteq> [] \<and> HeaderType q = Header1 \<and> length (Raw q) \<ge> 2"
  using assms by (auto simp: Pack_def Let_def pack_finish_def UpdateHash_def packet_GetHash_def GetHashablePart_def packet_consts)

lemma Send_proof:
  assumes "dest_encrypt d = Some" and "dest_link_closed d = None" and "length (dest_hash d) = 16" and "length data \<le> 96"
  shows "\<exists>q. packet_Send ((NewPacketWithTransport True (Some d) data)\<lparr>PacketType := PacketProof\<rparr>) = (q, SendOutbound, None)
    \<and> Ciphertext q = data \<and> DestinationHash q = dest_hash d"
proof -
  let ?p = "(NewPacketWithTransport True (Some d) data)\<lparr>PacketType := PacketProof\<rparr>"
  have new: "Destination ?p = Some d" "HeaderType ?p = Header1" "Data ?p = data" "packet_MTU ?p = MTU" "packet_transport ?p"
      "\<not> Sent ?p" "Hops ?p = 0" "\<not> Packed ?p" "Receipt ?p = None"
    by (simp_all add: NewPacketWithTransport_def Let_def empty_packet_def)
  obtain q where q: "Pack ?p = (q, None)" "Ciphertext q = data" "DestinationHash q = dest_hash d" "Destination q = Some d"
      "packet_transport q" "Receipt q = None" "Raw q \<noteq> []" "HeaderType q = Header1" "length (Raw q) \<ge> 2"
    using Pack_plain [OF new(1,2) assms(1)] assms(3,4) new by (auto simp: MTU_def)
  have "\<exists>r. send_receipt q = (q\<lparr>Receipt := r\<rparr>, SendOutbound)"
  proof (cases "CreateReceipt q")
    case True
    obtain r where "new_receipt q = Some r" using q by (auto simp: new_receipt_def GetTruncatedHash_def GetHashablePart_def packet_consts)
    with True q show ?thesis by (auto simp: send_receipt_def send_transport_def)
  next
    case False
    with q show ?thesis by (intro exI [of _ "Receipt q"]) (simp add: send_receipt_def send_transport_def)
  qed
  then show ?thesis using q new assms(2) by (auto simp: packet_Send_def PathfinderM_def)
qed

text \<open>
  A proof proves. The identity that signs a received packet sends a proof addressed to the packet's
  truncated hash, implicit or explicit as the transport is set, and the sender's receipt for that packet
  accepts the data of either form with the identity's public key: the receipt becomes delivered and its
  delivery callback runs.
\<close>

theorem sent_proof_validates:
  assumes "curves_law cs" and "full_identity cs i" and "length (PacketHash p) = 32" and "packet_transport p"
    and "rcpt_Hash r = PacketHash p"
  shows "\<exists>q. identity_Prove cs useImplicitProof i p None = Some (q, SendOutbound, None) \<and>
    DestinationHash q = take 16 (PacketHash p) \<and>
    ValidateProof (Some (identity_Verify cs i)) now (Ciphertext q) r = (receipt_delivered now r, fire_delivery r, True)"
proof -
  obtain s where s: "sigPrv i = Some s" "sigPub i = Some (ed25519_pub cs s)" using assms(2) by (auto simp: full_identity_def)
  let ?sig = "ed25519_sign cs s (PacketHash p)"
  let ?data = "if useImplicitProof then ?sig else PacketHash p @ ?sig"
  have sig: "length ?sig = 64" "identity_Verify cs i ?sig (PacketHash p)" using assms(1) s by (simp_all add: curves_law_def identity_Verify_def)
  have "length ?data \<le> 96" using sig assms(3) by simp
  then obtain q where q: "packet_Send ((NewPacketWithTransport True (Some (proofDestination p)) ?data)\<lparr>PacketType := PacketProof\<rparr>) = (q, SendOutbound, None)"
      "Ciphertext q = ?data" "DestinationHash q = dest_hash (proofDestination p)"
    using Send_proof [of "proofDestination p" ?data] assms(3) by (auto simp: proofDestination_def dstLen_def)
  have "ValidateProof (Some (identity_Verify cs i)) now ?data r = (receipt_delivered now r, fire_delivery r, True)"
    using sig assms(3,5) by (simp add: ValidateProof_def go_slice_def)
  moreover have "identity_Prove cs useImplicitProof i p None = Some (q, SendOutbound, None)"
    using q(1) s(1) assms(4) by (simp add: identity_Prove_def)
  ultimately show ?thesis using q(2,3) by (simp add: proofDestination_def dstLen_def)
qed

definition demo_receipt :: packet_receipt where
  "demo_receipt = \<lparr>rcpt_Hash = replicate 32 4, rcpt_TruncatedHash = replicate 16 4, rcpt_Sent = True, rcpt_SentAt = 10,
      rcpt_Timeout = 5, rcpt_Proved = False, rcpt_Status = ReceiptSent, rcpt_ConcludedAt = 0,
      rcpt_timeoutCallback = False, rcpt_deliveryCallback = True\<rparr>"

theorem sent_proof_validates_witness:
  "\<exists>q. identity_Prove demo_curves True demo_identity (empty_packet\<lparr>PacketHash := replicate 32 4, packet_transport := True\<rparr>) None
      = Some (q, SendOutbound, None) \<and>
    ValidateProof (Some (identity_Verify demo_curves demo_identity)) 12 (Ciphertext q) demo_receipt
      = (receipt_delivered 12 demo_receipt, [DeliveryCallback], True)"
  using sent_proof_validates [OF demo_curves_law demo_identity_full, of "empty_packet\<lparr>PacketHash := replicate 32 4, packet_transport := True\<rparr>"
      demo_receipt True 12]
  by (auto simp: demo_receipt_def fire_delivery_def)

end
