(* ===== verification/Ifac.thy ===== *)
theory Ifac
  imports Inbound Identity
begin

text \<open>
  Interface access codes (\<^verbatim>\<open>rns/interfaces/base.go\<close>): the keys an interface derives from its network
  name and key, the code it adds to every outgoing frame and masks the frame with, and the check of
  incoming frames. The code is the tail of an Ed25519 signature of the frame; the signer is the seed
  of the signing key. The last section follows a frame through a transport node: what the transport
  forwards is handed to the interface without the code.
\<close>

section \<open>Configuration\<close>

record ifac_config =
  ifac_Enabled :: bool
  ifac_NetName :: bytes
  ifac_NetKey :: bytes
  ifac_Size :: int

record ifac_iface =
  ifacConfig :: ifac_config
  ifacKey :: bytes
  ifacSigner :: "bytes option"
  defaultIFACSize :: int

abbreviation (input) IFACMaxSize :: int where "IFACMaxSize \<equiv> 64"

definition DefaultIFACSize :: "ifac_iface \<Rightarrow> int" where
  "DefaultIFACSize bi = (if defaultIFACSize bi > 0 then defaultIFACSize bi else 16)"

definition ifacSalt :: bytes where
  "ifacSalt =
     [0xad, 0xf5, 0x4d, 0x88, 0x2c, 0x9a, 0x9b, 0x80,
      0x77, 0x1e, 0xb4, 0x99, 0x5d, 0x70, 0x2d, 0x4a,
      0x3e, 0x73, 0x33, 0x91, 0xb2, 0xa0, 0xf5, 0x3f,
      0x41, 0x6d, 0x9f, 0x90, 0x7e, 0x55, 0xcf, 0xf8]"

definition SetIFACConfig :: "ifac_config \<Rightarrow> ifac_iface \<Rightarrow> ifac_iface" where
  "SetIFACConfig cfg bi =
     (let bi = bi\<lparr>ifacConfig := cfg, ifacKey := [], ifacSigner := None\<rparr> in
      if \<not> ifac_Enabled cfg then bi
      else
        let size = (if ifac_Size cfg < 1 then DefaultIFACSize bi else ifac_Size cfg);
            size = (if size > IFACMaxSize then IFACMaxSize else size);
            bi = bi\<lparr>ifacConfig := cfg\<lparr>ifac_Size := size\<rparr>\<rparr>;
            off = bi\<lparr>ifacConfig := (ifacConfig bi)\<lparr>ifac_Enabled := False\<rparr>\<rparr>;
            origin = (if ifac_NetName cfg \<noteq> [] then sha256 (ifac_NetName cfg) else [])
                     @ (if ifac_NetKey cfg \<noteq> [] then sha256 (ifac_NetKey cfg) else [])
        in
        if origin = [] then off
        else
          (case HKDF 64 (sha256 origin) ifacSalt [] of
             Inl _ \<Rightarrow> off
           | Inr key \<Rightarrow>
               if length key \<noteq> 64 then off
               else
                 (case NewEd25519PrivateKeyFromBytes (drop 32 key) of
                    Inl _ \<Rightarrow> off
                  | Inr signer \<Rightarrow> bi\<lparr>ifacKey := key, ifacSigner := Some signer\<rparr>)))"

section \<open>Frames\<close>

text \<open>The size of an enabled configuration is between 1 and 64; the code slices with it.\<close>

definition ApplyIFACInbound :: "curves \<Rightarrow> ifac_iface \<Rightarrow> bytes \<Rightarrow> bytes option" where
  "ApplyIFACInbound cs bi data =
     (if length data \<le> 2 then None
      else
        let hasIFACFlag = (data ! 0 AND 0x80 = 0x80) in
        (case ifacSigner bi of
           Some signer \<Rightarrow>
             if ifac_Enabled (ifacConfig bi) \<and> length (ifacKey bi) = 64 then
               if \<not> hasIFACFlag then None
               else
                 let ifacSize = nat (ifac_Size (ifacConfig bi)) in
                 if length data \<le> 2 + ifacSize then None
                 else
                   let ifac = go_slice 2 (2 + ifacSize) data in
                   (case HKDF (int (length data)) ifac (ifacKey bi) [] of
                      Inl _ \<Rightarrow> None
                    | Inr msk \<Rightarrow>
                        let unmasked = map (\<lambda>i. if i \<le> 1 \<or> i > ifacSize + 1 then data ! i XOR msk ! i else data ! i)
                                         [0..<length data];
                            newRaw = [unmasked ! 0 AND 0x7f, unmasked ! 1] @ drop (2 + ifacSize) unmasked;
                            sig = ed25519_sign cs signer newRaw
                        in if ifacSize > length sig then None
                           else if ifac \<noteq> drop (length sig - ifacSize) sig then None
                           else Some newRaw)
             else if hasIFACFlag then None else Some data
         | None \<Rightarrow> if hasIFACFlag then None else Some data))"

datatype ifac_error = IFACSizeExceeds int nat | IFACMask crypto_error

definition ApplyIFACOutbound :: "curves \<Rightarrow> ifac_iface \<Rightarrow> bytes \<Rightarrow> ifac_error + bytes" where
  "ApplyIFACOutbound cs bi data =
     (case ifacSigner bi of
        None \<Rightarrow> Inr data
      | Some signer \<Rightarrow>
          if length data \<le> 2 \<or> \<not> ifac_Enabled (ifacConfig bi) \<or> length (ifacKey bi) \<noteq> 64 then Inr data
          else
            let ifacSize = nat (ifac_Size (ifacConfig bi));
                sig = ed25519_sign cs signer data
            in if ifacSize > length sig then Inl (IFACSizeExceeds (ifac_Size (ifacConfig bi)) (length sig))
               else
                 let ifac = drop (length sig - ifacSize) sig in
                 (case HKDF (int (length data + ifacSize)) ifac (ifacKey bi) [] of
                    Inl e \<Rightarrow> Inl (IFACMask e)
                  | Inr msk \<Rightarrow>
                      let newRaw = [data ! 0 OR 0x80, data ! 1] @ ifac @ drop 2 data in
                      Inr (map (\<lambda>i. if i = 0 then (newRaw ! i XOR msk ! i) OR 0x80
                                    else if i = 1 \<or> i > ifacSize + 1 then newRaw ! i XOR msk ! i
                                    else newRaw ! i) [0..<length newRaw])))"

section \<open>The code on the wire\<close>

definition ifac_active :: "ifac_iface \<Rightarrow> bool" where
  "ifac_active bi \<longleftrightarrow> ifac_Enabled (ifacConfig bi) \<and> length (ifacKey bi) = 64 \<and> ifacSigner bi \<noteq> None
     \<and> 1 \<le> ifac_Size (ifacConfig bi) \<and> ifac_Size (ifacConfig bi) \<le> IFACMaxSize"

lemma SetIFACConfig_active:
  assumes "ifac_Enabled cfg" and "ifac_NetName cfg \<noteq> [] \<or> ifac_NetKey cfg \<noteq> []"
  shows "ifac_active (SetIFACConfig cfg bi)"
proof -
  define origin where "origin = (if ifac_NetName cfg \<noteq> [] then sha256 (ifac_NetName cfg) else [])
    @ (if ifac_NetKey cfg \<noteq> [] then sha256 (ifac_NetKey cfg) else [])"
  have ne: "sha256 x \<noteq> []" for x using length_sha256 [of x] by (auto simp del: length_sha256)
  then have o: "origin \<noteq> []" using assms(2) by (auto simp: origin_def)
  have "HKDF 64 (sha256 origin) ifacSalt [] = Inr (hkdf_out 64 (sha256 origin) ifacSalt [])"
    using ne by (intro HKDF_ok) simp_all
  then show ?thesis
    using assms(1) o unfolding SetIFACConfig_def Let_def origin_def [symmetric]
    by (simp add: ifac_active_def length_hkdf_out NewEd25519PrivateKeyFromBytes_def DefaultIFACSize_def)
qed

text \<open>The two masking loops on a frame given by its parts.\<close>

definition masked :: "(byte \<Rightarrow> byte) \<Rightarrow> bytes \<Rightarrow> byte \<Rightarrow> byte \<Rightarrow> bytes \<Rightarrow> bytes \<Rightarrow> bytes" where
  "masked f msk a b ifac rest =
     f (a XOR msk ! 0) # (b XOR msk ! 1) # ifac @ map2 (XOR) rest (drop (length ifac + 2) msk)"

lemma mask_loop:
  assumes "xs = a # b # ifac @ rest" and "length ifac = n" and "length msk = length xs"
  shows "map (\<lambda>i. if i = 0 then f (xs ! i XOR msk ! i) else if i = 1 \<or> i > n + 1 then xs ! i XOR msk ! i else xs ! i)
      [0..<length xs] = masked f msk a b ifac rest" (is "map ?g _ = _")
proof (rule nth_equalityI)
  show "length (map ?g [0..<length xs]) = length (masked f msk a b ifac rest)"
    using assms by (simp add: masked_def)
  fix i assume "i < length (map ?g [0..<length xs])"
  then have i: "i < length xs" by simp
  then have g: "map ?g [0..<length xs] ! i = ?g i" by (subst nth_map) (simp_all only: length_upt nth_upt diff_zero add_0)
  have "i < n + 2 + length rest" using i assms by simp
  then have "i = 0 \<or> i = 1 \<or> (\<exists>j. i = j + 2 \<and> j < n) \<or> (\<exists>j. i = j + n + 2 \<and> j < length rest)" by presburger
  then consider "i = 0" | "i = 1" | j where "i = j + 2" "j < n" | j where "i = j + n + 2" "j < length rest" by blast
  then show "map ?g [0..<length xs] ! i = masked f msk a b ifac rest ! i"
    unfolding g using assms by cases (simp_all add: masked_def nth_append add.commute)
qed

lemma mask_loop_in:
  assumes "xs = a # b # ifac @ rest" and "length ifac = n" and "length msk = length xs"
  shows "map (\<lambda>i. if i \<le> 1 \<or> i > n + 1 then xs ! i XOR msk ! i else xs ! i) [0..<length xs] = masked id msk a b ifac rest"
proof -
  have "map (\<lambda>i. if i \<le> 1 \<or> i > n + 1 then xs ! i XOR msk ! i else xs ! i) [0..<length xs]
      = map (\<lambda>i. if i = 0 then id (xs ! i XOR msk ! i) else if i = 1 \<or> i > n + 1 then xs ! i XOR msk ! i else xs ! i)
      [0..<length xs]" by (rule map_cong) auto
  with mask_loop [OF assms, of id] show ?thesis by simp
qed

lemma xor_twice: "length m = length (xs :: bytes) \<Longrightarrow> map2 (XOR) (map2 (XOR) xs m) m = xs"
  by (induction m xs rule: list_induct2) (simp_all add: xor.assoc)

lemma bit_flag: "bit (0x80 :: byte) n \<longleftrightarrow> n = 7" "bit (0x7f :: byte) n \<longleftrightarrow> n < 7"
proof -
  have e: "(0x80 :: byte) = push_bit 7 1" "(0x7f :: byte) = mask 7" by (simp_all add: push_bit_eq_mult mask_eq_exp_minus_1)
  show "bit (0x80 :: byte) n \<longleftrightarrow> n = 7" "bit (0x7f :: byte) n \<longleftrightarrow> n < 7"
    unfolding e by (auto simp only: bit_push_bit_iff bit_mask_iff bit_1_iff possible_bit_word) simp_all
qed

lemma flag_iff:
  fixes w :: byte
  shows "w AND 0x80 = 0x80 \<longleftrightarrow> bit w 7" "w AND 0x80 = 0 \<longleftrightarrow> \<not> bit w 7"
proof -
  have b: "bit (w AND 0x80) n \<longleftrightarrow> bit w 7 \<and> n = 7" for n by (auto simp only: bit_and_iff bit_flag)
  have "w AND 0x80 = 0x80" if "bit w 7" using that by (intro bit_eqI) (simp only: b bit_flag simp_thms)
  moreover have "w AND 0x80 = 0" if "\<not> bit w 7" using that by (intro bit_eqI) (simp add: b)
  moreover have "(0x80 :: byte) \<noteq> 0" by simp
  ultimately show "w AND 0x80 = 0x80 \<longleftrightarrow> bit w 7" "w AND 0x80 = 0 \<longleftrightarrow> \<not> bit w 7" by metis+
qed

lemma first_byte_bits:
  fixes w m :: byte
  shows "bit w 7 \<Longrightarrow> (((w XOR m) AND 0x7f OR 0x80) XOR m) OR 0x80 = w"
    and "\<not> bit w 7 \<Longrightarrow> ((((w OR 0x80) XOR m) OR 0x80) XOR m) AND 0x7f = w"
    and "bit (w OR 0x80) 7" and "\<not> bit (w AND 0x7f) 7"
proof -
  have n: "n = 7 \<or> n < 7" if "possible_bit TYPE(byte) n" for n using that by (auto simp: possible_bit_word)
  show "bit w 7 \<Longrightarrow> (((w XOR m) AND 0x7f OR 0x80) XOR m) OR 0x80 = w"
    "\<not> bit w 7 \<Longrightarrow> ((((w OR 0x80) XOR m) OR 0x80) XOR m) AND 0x7f = w"
    by (rule bit_eqI, drule n, auto simp only: bit_or_iff bit_and_iff bit_xor_iff bit_flag)+
  show "bit (w OR 0x80) 7" "\<not> bit (w AND 0x7f) 7" by (simp_all only: bit_or_iff bit_and_iff bit_flag) simp_all
qed

lemma frame_parts:
  assumes "length xs > 2 + n"
  obtains a b ifac rest where "xs = a # b # ifac @ rest" "length ifac = n" "rest \<noteq> []"
proof -
  obtain a b ys where y: "xs = a # b # ys" using assms by (cases xs; cases "tl xs") auto
  have "xs = a # b # take n ys @ drop n ys" "length (take n ys) = n" "drop n ys \<noteq> []" using y assms by simp_all
  then show thesis by (rule that)
qed

text \<open>What an active interface emits and accepts, on the parts of a frame.\<close>

definition coded :: "curves \<Rightarrow> bytes \<Rightarrow> nat \<Rightarrow> bytes \<Rightarrow> bytes" where
  "coded cs k n p = drop (64 - n) (ed25519_sign cs k p)"

definition ifac_mask :: "ifac_iface \<Rightarrow> bytes \<Rightarrow> bytes \<Rightarrow> bytes" where
  "ifac_mask bi ifac rest = hkdf_out (int (length rest + length ifac + 2)) ifac (ifacKey bi) []"

lemma length_coded: "curves_law cs \<Longrightarrow> n \<le> 64 \<Longrightarrow> length (coded cs k n p) = n"
  by (simp add: coded_def curves_law_def)

lemma length_ifac_mask [simp]: "length (ifac_mask bi ifac rest) = length rest + length ifac + 2"
  by (simp add: ifac_mask_def length_hkdf_out)

lemma inbound_parts:
  assumes act: "ifac_active bi" and law: "curves_law cs" and k: "ifacSigner bi = Some k"
    and l: "length ifac = nat (ifac_Size (ifacConfig bi))" and r: "rest \<noteq> []"
  shows "ApplyIFACInbound cs bi (a # b # ifac @ rest) =
     (let msk = ifac_mask bi ifac rest;
          p = ((a XOR msk ! 0) AND 0x7f) # (b XOR msk ! 1) # map2 (XOR) rest (drop (length ifac + 2) msk)
      in if bit a 7 \<and> ifac = coded cs k (length ifac) p then Some p else None)"
proof -
  define xs where "xs = a # b # ifac @ rest"
  define msk where "msk = ifac_mask bi ifac rest"
  define n where "n = length ifac"
  have n: "0 < n" "n \<le> 64" using act l by (auto simp: ifac_active_def n_def)
  have s: "go_slice 2 (2 + n) xs = ifac" by (simp add: xs_def go_slice_def n_def)
  have "ifac \<noteq> []" using n by (auto simp: n_def)
  then have h: "HKDF (int (length xs)) ifac (ifacKey bi) [] = Inr msk"
    using HKDF_ok [of "int (length xs)" ifac] by (simp add: xs_def msk_def ifac_mask_def add.commute)
  have m: "map (\<lambda>i. if i \<le> 1 \<or> i > n + 1 then xs ! i XOR msk ! i else xs ! i) [0..<length xs] = masked id msk a b ifac rest"
    by (rule mask_loop_in [OF xs_def n_def [symmetric]]) (simp add: msk_def xs_def)
  have len: "\<not> length xs \<le> 2" "\<not> length xs \<le> 2 + n" "xs ! 0 = a" using r by (simp_all add: xs_def n_def)
  have e: "ifac_Enabled (ifacConfig bi)" "length (ifacKey bi) = 64" "\<And>m. length (ed25519_sign cs k m) = 64"
    using act law by (simp_all add: ifac_active_def curves_law_def)
  show ?thesis
    unfolding xs_def [symmetric] ApplyIFACInbound_def k option.case Let_def l [symmetric] n_def [symmetric] s h sum.case m
      msk_def [symmetric] if_not_P [OF len(1)] if_not_P [OF len(2)] len(3) flag_iff coded_def
    using n n_def e by (simp add: masked_def)
qed

lemma outbound_parts:
  fixes a b :: byte
  assumes act: "ifac_active bi" and law: "curves_law cs" and k: "ifacSigner bi = Some k" and r: "rest \<noteq> []"
  defines "n \<equiv> nat (ifac_Size (ifacConfig bi))"
  defines "ifac \<equiv> coded cs k n (a # b # rest)"
  shows "ApplyIFACOutbound cs bi (a # b # rest) =
     Inr (masked (\<lambda>x. x OR 0x80) (ifac_mask bi ifac rest) (a OR 0x80) b ifac rest)"
proof -
  define d where "d = a # b # rest"
  define xs where "xs = (a OR 0x80) # b # ifac @ rest"
  define msk where "msk = ifac_mask bi ifac rest"
  have n: "0 < n" "n \<le> 64" using act by (auto simp: ifac_active_def n_def)
  have l: "length ifac = n" unfolding ifac_def by (rule length_coded [OF law n(2)])
  then have "ifac \<noteq> []" using n by auto
  then have h: "HKDF (int (length xs)) ifac (ifacKey bi) [] = Inr msk"
    using HKDF_ok [of "int (length xs)" ifac] by (simp add: xs_def msk_def ifac_mask_def add.commute)
  have x: "[d ! 0 OR 0x80, d ! 1] @ ifac @ drop 2 d = xs" "length d + n = length xs" using l by (simp_all add: d_def xs_def)
  have m: "map (\<lambda>i. if i = 0 then (xs ! i XOR msk ! i) OR 0x80 else if i = 1 \<or> i > n + 1 then xs ! i XOR msk ! i else xs ! i)
      [0..<length xs] = masked (\<lambda>x. x OR 0x80) msk (a OR 0x80) b ifac rest"
    by (rule mask_loop [OF xs_def l]) (simp add: msk_def xs_def)
  have sig: "length (ed25519_sign cs k d) = 64" using law by (simp add: curves_law_def)
  have "2 < length d" using r by (cases rest) (simp_all add: d_def)
  then have g: "\<not> (length d \<le> 2 \<or> \<not> ifac_Enabled (ifacConfig bi) \<or> length (ifacKey bi) \<noteq> 64)" "\<not> n > 64"
    using act n by (auto simp: ifac_active_def)
  have c: "drop (64 - n) (ed25519_sign cs k d) = ifac" by (simp add: ifac_def coded_def d_def)
  show ?thesis
    unfolding d_def [symmetric] ApplyIFACOutbound_def k option.case Let_def n_def [symmetric] sig if_not_P [OF g(1)] if_not_P [OF g(2)]
      c x h sum.case m msk_def [symmetric] ..
qed

text \<open>
  C10: An interface with access codes accepts a frame exactly when it would itself have produced that
  frame for the payload it extracts: sealing and checking are inverse to each other, a frame of two
  ends with the same network name and key gets through unchanged, and nothing else does.
\<close>

theorem access_code_exact:
  assumes law: "curves_law cs" and "ifac_Enabled cfg" and "ifac_NetName cfg \<noteq> [] \<or> ifac_NetKey cfg \<noteq> []"
    and bi: "bi = SetIFACConfig cfg b0"
  shows "ApplyIFACInbound cs bi frame = Some payload \<longleftrightarrow>
     length payload > 2 \<and> payload ! 0 AND 0x80 = 0 \<and> ApplyIFACOutbound cs bi payload = Inr frame"
proof -
  have act: "ifac_active bi" unfolding bi by (rule SetIFACConfig_active [OF assms(2,3)])
  then obtain k where k: "ifacSigner bi = Some k" by (auto simp: ifac_active_def)
  define n where "n = nat (ifac_Size (ifacConfig bi))"
  have n: "0 < n" "n \<le> 64" using act by (auto simp: ifac_active_def n_def)
  note ib = inbound_parts [OF act law k, folded n_def] and ob = outbound_parts [OF act law k, folded n_def]
  show ?thesis
  proof
    assume acc: "ApplyIFACInbound cs bi frame = Some payload"
    then have "length frame > 2 + n"
      using act k by (auto simp: ApplyIFACInbound_def ifac_active_def Let_def n_def split: if_splits)
    then obtain a b ifac rest where f: "frame = a # b # ifac @ rest" "length ifac = n" "rest \<noteq> []" by (rule frame_parts)
    define msk where "msk = ifac_mask bi ifac rest"
    define q where "q = map2 (XOR) rest (drop (n + 2) msk)"
    define p where "p = ((a XOR msk ! 0) AND 0x7f) # (b XOR msk ! 1) # q"
    have m: "length (drop (n + 2) msk) = length rest" using f(2) by (simp add: msk_def)
    then have q: "q \<noteq> []" "length q = length rest" "map2 (XOR) q (drop (n + 2) msk) = rest"
      using f(3) xor_twice [OF m] by (auto simp: q_def)
    have a: "bit a 7" "ifac = coded cs k n p" "payload = p"
      using acc ib [OF f(2,3), of a b] f(1,2) by (auto simp: Let_def msk_def q_def p_def split: if_splits)
    have "ifac_mask bi ifac q = msk" using q(2) by (simp add: ifac_mask_def msk_def)
    then have "ApplyIFACOutbound cs bi payload = Inr (masked (\<lambda>x. x OR 0x80) msk ((a XOR msk ! 0) AND 0x7f OR 0x80) (b XOR msk ! 1) ifac q)"
      using ob [OF q(1), of "(a XOR msk ! 0) AND 0x7f" "b XOR msk ! 1"] a(2,3) by (simp add: p_def)
    also have "\<dots> = Inr frame" using f(1,2) q(3) a(1) by (simp add: masked_def first_byte_bits xor.assoc)
    finally show "length payload > 2 \<and> payload ! 0 AND 0x80 = 0 \<and> ApplyIFACOutbound cs bi payload = Inr frame"
      using a(3) q(1) by (cases q) (simp_all add: p_def flag_iff first_byte_bits)
  next
    assume out: "length payload > 2 \<and> payload ! 0 AND 0x80 = 0 \<and> ApplyIFACOutbound cs bi payload = Inr frame"
    then have "length payload > 2 + 0" by simp
    then obtain a b rest where f: "payload = a # b # rest" "rest \<noteq> []" by (metis append_Nil frame_parts length_0_conv)
    define ifac where "ifac = coded cs k n payload"
    define msk where "msk = ifac_mask bi ifac rest"
    define q where "q = map2 (XOR) rest (drop (n + 2) msk)"
    have l: "length ifac = n" unfolding ifac_def by (rule length_coded [OF law n(2)])
    have m: "length (drop (n + 2) msk) = length rest" using l by (simp add: msk_def)
    then have q: "q \<noteq> []" "length q = length rest" "map2 (XOR) q (drop (n + 2) msk) = rest"
      using f(2) xor_twice [OF m] by (auto simp: q_def)
    have a: "\<not> bit a 7" using out f(1) by (simp add: flag_iff)
    have "frame = (((a OR 0x80) XOR msk ! 0) OR 0x80) # (b XOR msk ! 1) # ifac @ q"
      using out ob [OF f(2), of a b] f(1) l by (simp add: masked_def q_def msk_def ifac_def)
    moreover have "ifac_mask bi ifac q = msk" using q(2) by (simp add: ifac_mask_def msk_def)
    ultimately show "ApplyIFACInbound cs bi frame = Some payload"
      using ib [OF l q(1)] l q(3) a f(1) by (simp add: Let_def first_byte_bits xor.assoc ifac_def)
  qed
qed

definition demo_ifac :: ifac_iface where
  "demo_ifac = \<lparr>ifacConfig = \<lparr>ifac_Enabled = False, ifac_NetName = [], ifac_NetKey = [], ifac_Size = 0\<rparr>,
     ifacKey = [], ifacSigner = None, defaultIFACSize = 16\<rparr>"

definition demo_ifac_config :: ifac_config where
  "demo_ifac_config = \<lparr>ifac_Enabled = True, ifac_NetName = [0x6e], ifac_NetKey = [], ifac_Size = 8\<rparr>"

theorem access_code_exact_witness:
  "\<exists>frame. ApplyIFACOutbound demo_curves (SetIFACConfig demo_ifac_config demo_ifac) [0x10, 0, 5] = Inr frame
     \<and> ApplyIFACInbound demo_curves (SetIFACConfig demo_ifac_config demo_ifac) frame = Some [0x10, 0, 5]"
proof -
  have e: "ifac_Enabled demo_ifac_config" "ifac_NetName demo_ifac_config \<noteq> [] \<or> ifac_NetKey demo_ifac_config \<noteq> []"
    by (simp_all add: demo_ifac_config_def)
  have act: "ifac_active (SetIFACConfig demo_ifac_config demo_ifac)" by (rule SetIFACConfig_active [OF e])
  then obtain k where k: "ifacSigner (SetIFACConfig demo_ifac_config demo_ifac) = Some k" by (auto simp: ifac_active_def)
  obtain frame where f: "ApplyIFACOutbound demo_curves (SetIFACConfig demo_ifac_config demo_ifac) [0x10, 0, 5] = Inr frame"
    using outbound_parts [OF act demo_curves_law k, where rest = "[5]" and a = "0x10" and b = "0"] by auto
  with access_code_exact [OF demo_curves_law e refl, of demo_ifac frame "[0x10, 0, 5]"] show ?thesis by auto
qed

section \<open>Forwarded frames\<close>

definition unflagged :: "bytes \<Rightarrow> bool" where
  "unflagged raw \<longleftrightarrow> raw \<noteq> [] \<and> \<not> bit (raw ! 0) 7"

lemma inbound_unflagged:
  assumes "ApplyIFACInbound cs bi data = Some payload"
  shows "unflagged payload"
  using assms
  by (auto simp: ApplyIFACInbound_def Let_def unflagged_def flag_iff first_byte_bits split: option.splits if_splits sum.splits)

lemma low_flags_unflagged: "\<not> bit ((f :: byte) AND 0b00001111) 7"
proof -
  have "(0b00001111 :: byte) = mask 4" by (simp add: mask_eq_exp_minus_1)
  then show ?thesis by (simp only: bit_and_iff bit_mask_iff) simp
qed

lemma mangleForwardedRaw_unflagged:
  "unflagged raw \<Longrightarrow> unflagged (mangleForwardedRaw ts raw a b)"
  by (simp add: mangleForwardedRaw_def mangleHops_def unflagged_def Let_def)

lemma update_unflagged [simp]: "unflagged (raw[Suc 0 := x]) \<longleftrightarrow> unflagged raw"
  by (cases raw) (simp_all add: unflagged_def)

lemma go_copy_unflagged: "unflagged raw \<Longrightarrow> unflagged (go_copy_at 2 h src raw)"
  by (cases raw) (simp_all add: unflagged_def go_copy_at_def Let_def numeral_2_eq_2)

lemma forward_raw_unflagged: "unflagged (Raw p) \<Longrightarrow> unflagged (forward_raw ts p pe)"
  using low_flags_unflagged [of "Flags p"]
  by (auto simp: forward_raw_def Let_def packet_consts intro: go_copy_unflagged) (simp_all add: unflagged_def)

lemma transport_packet_unflagged:
  assumes "unflagged (Raw p)" and "transport_packet env now ts p iface = (ts', FwdSend out frame)"
  shows "unflagged frame"
proof -
  have "unflagged frame" if "forward_next_hop env now ts1 p iface = (ts2, FwdSend out frame)" for ts1 ts2
    using that assms(1) mangleForwardedRaw_unflagged [OF forward_raw_unflagged]
    by (auto simp: forward_next_hop_def Let_def split: if_splits option.splits)
  moreover have "unflagged frame" if "forward_link env now ts1 p iface = (ts2, FwdSend out frame)" for ts1 ts2
    using that assms(1) by (auto simp: forward_link_def split: if_splits option.splits)
  ultimately show ?thesis
    using assms(2) by (auto simp: transport_packet_def split: if_splits prod.splits forward_outcome.splits)
qed

lemma relayLinkProof_unflagged:
  assumes "unflagged (Raw p)" and "relayLinkProof env recall verify ts p iface = (ts', RelaySent out frame)"
  shows "unflagged frame"
  using assms by (auto simp: relayLinkProof_def Let_def split: if_splits option.splits)

lemma accepted_raw:
  assumes "accept_frame env ts raw iface tc = (ts', InboundAccepted c p)"
  shows "Raw p = raw"
proof -
  obtain u where u: "Unpack (NewPacketFromRaw raw) = (u, None)" "Raw p = Raw u"
    using assms by (auto simp: accept_frame_def accept_packet_def split: prod.splits option.splits if_splits)
  then show ?thesis by (cases rule: parsed_cases) simp_all
qed

lemma unflagged_rejected: "unflagged frame \<Longrightarrow> ifac_active bi \<Longrightarrow> ApplyIFACInbound cs bi frame = None"
  by (auto simp: unflagged_def ApplyIFACInbound_def ifac_active_def flag_iff Let_def)


lemma demo_forwarded:
  "\<exists>p ts1 ts2 frame. accept_frame demo_env demo_node demo_frame2 1 (-1) = (ts1, InboundAccepted 0 p)
     \<and> transport_packet demo_env 0 ts1 p 1 = (ts2, FwdSend 2 frame)"
  by (simp add: Unpack_layout2 [of _ "0x50" 4 "replicate 16 9" "replicate 16 7" 0 "[1, 2, 3]"] demo_frame2_def frame2_def
      NewPacketFromRaw_def accept_frame_def accept_packet_def packetFilter_def dedup_def classify_def demo_node_def
      demo_ts_def demo_env_def arrival_hops_def ensureStateLocked_def context_exempt_def packet_consts
      empty_packet_def packetHashSeenLocked_def seenOrRememberPacketHashLocked_def isPathRequestPacket_def
      transport_packet_def forward_next_hop_def isForLocalClient_def GetTruncatedHash_def GetHashablePart_def Let_def)


end
