(* ===== verification/Msgpack.thy ===== *)
theory Msgpack
  imports Prelude "HOL-Library.List_Lexorder" "HOL-Library.Multiset"
begin

text \<open>
  The MessagePack codec (\<^verbatim>\<open>rns/msgpack/msgpack.go\<close>). A value of Go's \<^verbatim>\<open>any\<close> that the codec
  handles is a constructor of \<open>mvalue\<close>: 64-bit integers are words, floats are their IEEE bit
  patterns, a Go map is the list of its entries in the order an iteration visits them. Pointers and
  interfaces are transparent to \<^verbatim>\<open>pack\<close> and have no constructor; \<^verbatim>\<open>int\<close> is 64 bits wide.

  The decoder recurses on nested values. Its fuel is one more than the number of bytes left, and
  each level reads a byte before it recurses, so the fuel is never used up.
\<close>

section \<open>Values\<close>

datatype mvalue =
    MNil
  | MBool bool
  | MInt uint64
  | MUint uint64
  | MFloat32 uint32
  | MFloat64 uint64
  | MStr bytes
  | MBin bytes
  | MArray "mvalue list"
  | MMap "(mvalue \<times> mvalue) list"
  | OrderedMap "(mvalue \<times> mvalue) list"
  | Ext byte bytes
  | binaryMapKey bytes
  | collectionMapKey bytes
  | extMapKey byte bytes

datatype mp_error =
    EOF
  | UnexpectedEOF
  | ReservedCode
  | UnknownType byte
  | StrictMapKey string
  | UnhashableKey mvalue string
  | IncompleteInput
  | ExtraData
  | OutOfFuel

section \<open>Encoding\<close>

abbreviation (input) nilVal :: byte where "nilVal \<equiv> 0xc0"
abbreviation (input) falseVal :: byte where "falseVal \<equiv> 0xc2"
abbreviation (input) trueVal :: byte where "trueVal \<equiv> 0xc3"

text \<open>A header with the length in a 4- or 5-bit field of the lead byte, or in 1, 2 or 4 further bytes.\<close>

definition packInt :: "int \<Rightarrow> bytes" where
  "packInt i =
     (if i \<ge> - 32 \<and> i \<le> 127 then [word_of_int i]
      else if i \<ge> - 128 \<and> i \<le> 127 then [0xd0, word_of_int i]
      else if i \<ge> - 32768 \<and> i \<le> 32767 then 0xd1 # be_enc 2 (unat (word_of_int i :: uint16))
      else if i \<ge> - 2147483648 \<and> i \<le> 2147483647 then 0xd2 # be_enc 4 (unat (word_of_int i :: uint32))
      else 0xd3 # be_enc 8 (unat (word_of_int i :: uint64)))"

definition packUint :: "nat \<Rightarrow> bytes" where
  "packUint i =
     (if i \<le> 127 then [word_of_nat i]
      else if i \<le> 255 then [0xcc, word_of_nat i]
      else if i \<le> 65535 then 0xcd # be_enc 2 i
      else if i \<le> 4294967295 then 0xce # be_enc 4 i
      else 0xcf # be_enc 8 i)"

definition packStr :: "bytes \<Rightarrow> bytes" where
  "packStr s =
     (let l = length s in
      (if l < 32 then [0xa0 OR word_of_nat l]
       else if l < 256 then [0xd9, word_of_nat l]
       else if l < 65536 then 0xda # be_enc 2 l
       else 0xdb # be_enc 4 l) @ s)"

definition packBin :: "bytes \<Rightarrow> bytes" where
  "packBin b =
     (let l = length b in
      (if l < 256 then [0xc4, word_of_nat l]
       else if l < 65536 then 0xc5 # be_enc 2 l
       else 0xc6 # be_enc 4 l) @ b)"

definition array_header :: "nat \<Rightarrow> bytes" where
  "array_header l =
     (if l < 16 then [0x90 OR word_of_nat l]
      else if l < 65536 then 0xdc # be_enc 2 l
      else 0xdd # be_enc 4 l)"

definition map_header :: "nat \<Rightarrow> bytes" where
  "map_header l =
     (if l < 16 then [0x80 OR word_of_nat l]
      else if l < 65536 then 0xde # be_enc 2 l
      else 0xdf # be_enc 4 l)"

definition packExt :: "byte \<Rightarrow> bytes \<Rightarrow> bytes" where
  "packExt t data =
     (let n = length data in
      (if n = 1 then [0xd4] else if n = 2 then [0xd5] else if n = 4 then [0xd6]
       else if n = 8 then [0xd7] else if n = 16 then [0xd8]
       else if n < 256 then [0xc7, word_of_nat n]
       else if n < 65536 then [0xc8, word_of_nat (n div 256), word_of_nat n]
       else [0xc9, word_of_nat (n div 2 ^ 24), word_of_nat (n div 2 ^ 16), word_of_nat (n div 256), word_of_nat n])
      @ t # data)"

text \<open>
  \<^verbatim>\<open>float32(v.Float())\<close> widens the value and narrows it again, which sets the quiet bit of a NaN.
\<close>

definition float32_bits :: "uint32 \<Rightarrow> uint32" where
  "float32_bits f =
     (if f AND 0x7f800000 = 0x7f800000 \<and> f AND 0x007fffff \<noteq> 0 then f OR 0x00400000 else f)"

text \<open>
  Entries of a map with the packed key, the packed entry after it; \<^verbatim>\<open>sortMapKeys\<close> is the stable sort
  by the packed key in lexicographic order.
\<close>

definition sortMapKeys :: "(bytes \<times> bytes) list \<Rightarrow> (bytes \<times> bytes) list" where
  "sortMapKeys entries = sort_key fst entries"

definition packArray :: "bytes list \<Rightarrow> bytes" where
  "packArray elems = array_header (length elems) @ concat elems"

definition packMap :: "bool \<Rightarrow> (bytes \<times> bytes) list \<Rightarrow> bytes" where
  "packMap srt entries =
     map_header (length entries) @ concat (map (\<lambda>(k, v). k @ v) (if srt then sortMapKeys entries else entries))"

definition marshalMsgpackTo :: "(bytes \<times> bytes) list \<Rightarrow> bytes" where
  "marshalMsgpackTo entries = map_header (length entries) @ concat (map (\<lambda>(k, v). k @ v) entries)"

lemma entry_size [termination_simp]:
  "e \<in> set es \<Longrightarrow> size (fst e) < Suc (size_list (size_prod size size) es)"
  "e \<in> set es \<Longrightarrow> size (snd e) < Suc (size_list (size_prod size size) es)"
proof -
  assume e: "e \<in> set es"
  then have "size_prod size size e \<le> size_list (size_prod size size) es"
    by (rule size_list_estimation') simp
  then show "size (fst e) < Suc (size_list (size_prod size size) es)" by (cases e) simp
next
  assume e: "e \<in> set es"
  then have "size_prod size size e \<le> size_list (size_prod size size) es"
    by (rule size_list_estimation') simp
  then show "size (snd e) < Suc (size_list (size_prod size size) es)" by (cases e) simp
qed

fun pack :: "bool \<Rightarrow> mvalue \<Rightarrow> bytes" where
  "pack srt MNil = [nilVal]"
| "pack srt (MBool b) = [if b then trueVal else falseVal]"
| "pack srt (MInt i) = packInt (sint i)"
| "pack srt (MUint i) = packUint (unat i)"
| "pack srt (MFloat32 f) = 0xca # be_enc 4 (unat (float32_bits f))"
| "pack srt (MFloat64 f) = 0xcb # be_enc 8 (unat f)"
| "pack srt (MStr s) = packStr s"
| "pack srt (MBin b) = packBin b"
| "pack srt (MArray xs) = packArray (map (pack srt) xs)"
| "pack srt (MMap es) = packMap srt (map (\<lambda>e. (pack srt (fst e), pack srt (snd e))) es)"
| "pack srt (OrderedMap es) = marshalMsgpackTo (map (\<lambda>e. (pack False (fst e), pack False (snd e))) es)"
| "pack srt (Ext t data) = packExt t data"
| "pack srt (binaryMapKey s) = packStr s"
| "pack srt (collectionMapKey enc) = enc"
| "pack srt (extMapKey t data) = packExt t data"

lemma pack_containers [simp]:
  "packArray (map f xs) = array_header (length xs) @ concat (map f xs)"
  "packMap False (map g es) = map_header (length es) @ concat (map (\<lambda>(k, v). k @ v) (map g es))"
  "packMap True (map g es) = map_header (length es) @ concat (map (\<lambda>(k, v). k @ v) (sortMapKeys (map g es)))"
  "marshalMsgpackTo (map (\<lambda>e. (h e, k e)) es) = map_header (length es) @ concat (map (\<lambda>e. h e @ k e) es)"
  by (simp_all add: packArray_def packMap_def marshalMsgpackTo_def sortMapKeys_def comp_def)

definition msgpack_Pack :: "mvalue \<Rightarrow> bytes" where "msgpack_Pack v = pack False v"

definition PackSorted :: "mvalue \<Rightarrow> bytes" where "PackSorted v = pack True v"

section \<open>Decoding\<close>

type_synonym 'a mp_result = "mp_error + 'a \<times> bytes"

definition ReadByte :: "bytes \<Rightarrow> byte mp_result" where
  "ReadByte r = (case r of [] \<Rightarrow> Inl EOF | b # r' \<Rightarrow> Inr (b, r'))"

text \<open>\<^verbatim>\<open>binary.Read\<close> of an \<open>n\<close>-byte big-endian integer: an empty reader and a short one fail differently.\<close>

definition read_be :: "nat \<Rightarrow> bytes \<Rightarrow> nat mp_result" where
  "read_be n r =
     (if length r < n then Inl (if r = [] then EOF else UnexpectedEOF)
      else Inr (be_dec (take n r), drop n r))"

definition mp_bind :: "'a mp_result \<Rightarrow> ('a \<Rightarrow> bytes \<Rightarrow> 'b mp_result) \<Rightarrow> 'b mp_result" where
  "mp_bind m f = (case m of Inl e \<Rightarrow> Inl e | Inr (a, r) \<Rightarrow> f a r)"

definition unpackBin :: "nat \<Rightarrow> bytes \<Rightarrow> bytes mp_result" where
  "unpackBin l r =
     (if l = 0 then Inr ([], r)
      else if l > length r then Inl UnexpectedEOF
      else Inr (take l r, drop l r))"

definition unpackStr :: "nat \<Rightarrow> bytes \<Rightarrow> bytes mp_result" where
  "unpackStr l r =
     (if l = 0 then Inr ([], r)
      else if l > length r then Inl UnexpectedEOF
      else Inr (take l r, drop l r))"

definition unpackExt :: "nat \<Rightarrow> bytes \<Rightarrow> mvalue mp_result" where
  "unpackExt l r =
     mp_bind (ReadByte r) (\<lambda>typeByte r. mp_bind (unpackBin l r) (\<lambda>data r. Inr (Ext typeByte data, r)))"

record unpackOptions =
  strictMapKeys :: bool
  preserveBinMapKey :: bool
  orderedMap :: bool

fun pythonTypeName :: "mvalue \<Rightarrow> string" where
  "pythonTypeName MNil = ''NoneType''"
| "pythonTypeName (MBool _) = ''bool''"
| "pythonTypeName (MFloat32 _) = ''float''"
| "pythonTypeName (MFloat64 _) = ''float''"
| "pythonTypeName (MInt _) = ''int''"
| "pythonTypeName (MUint _) = ''int''"
| "pythonTypeName (MStr _) = ''str''"
| "pythonTypeName (MBin _) = ''bytes''"
| "pythonTypeName (MArray _) = ''list''"
| "pythonTypeName (MMap _) = ''dict''"
| "pythonTypeName (OrderedMap _) = ''dict''"
| "pythonTypeName (Ext _ _) = ''Ext''"
| "pythonTypeName (binaryMapKey _) = ''msgpack.binaryMapKey''"
| "pythonTypeName (collectionMapKey _) = ''msgpack.collectionMapKey''"
| "pythonTypeName (extMapKey _ _) = ''msgpack.extMapKey''"

fun makeMapKeyHashable :: "mvalue \<Rightarrow> mp_error + mvalue" where
  "makeMapKeyHashable (MArray xs) = Inr (collectionMapKey (PackSorted (MArray xs)))"
| "makeMapKeyHashable (Ext t data) = Inr (extMapKey t data)"
| "makeMapKeyHashable (MMap es) = Inl (UnhashableKey (MMap es) (pythonTypeName (MMap es)))"
| "makeMapKeyHashable (OrderedMap es) = Inl (UnhashableKey (OrderedMap es) (pythonTypeName (OrderedMap es)))"
| "makeMapKeyHashable key = Inr key"

text \<open>The treatment of a decoded key, shared by both kinds of map.\<close>

definition is_str_or_bin :: "mvalue \<Rightarrow> bool" where
  "is_str_or_bin k = (case k of MStr _ \<Rightarrow> True | MBin _ \<Rightarrow> True | _ \<Rightarrow> False)"

definition map_key :: "unpackOptions \<Rightarrow> mvalue \<Rightarrow> mp_error + mvalue" where
  "map_key opts k =
     (if strictMapKeys opts \<and> \<not> is_str_or_bin k then Inl (StrictMapKey (pythonTypeName k))
      else
        let k = (case k of
                   MBin b \<Rightarrow> if preserveBinMapKey opts then binaryMapKey b else MStr b
                 | _ \<Rightarrow> k)
        in makeMapKeyHashable k)"

text \<open>
  Go's equality of map keys: dynamic types and values agree; a NaN differs from itself and the two
  zeros are equal.
\<close>

definition float32_eq :: "uint32 \<Rightarrow> uint32 \<Rightarrow> bool" where
  "float32_eq a b =
     (let nan = (\<lambda>f. f AND 0x7f800000 = 0x7f800000 \<and> f AND 0x007fffff \<noteq> 0)
      in \<not> nan a \<and> \<not> nan b \<and> (a = b \<or> (a AND 0x7fffffff = 0 \<and> b AND 0x7fffffff = 0)))"

definition float64_eq :: "uint64 \<Rightarrow> uint64 \<Rightarrow> bool" where
  "float64_eq a b =
     (let nan = (\<lambda>f. f AND 0x7ff0000000000000 = 0x7ff0000000000000 \<and> f AND 0x000fffffffffffff \<noteq> 0)
      in \<not> nan a \<and> \<not> nan b \<and> (a = b \<or> (a AND 0x7fffffffffffffff = 0 \<and> b AND 0x7fffffffffffffff = 0)))"

fun key_eq :: "mvalue \<Rightarrow> mvalue \<Rightarrow> bool" where
  "key_eq (MFloat32 a) (MFloat32 b) = float32_eq a b"
| "key_eq (MFloat64 a) (MFloat64 b) = float64_eq a b"
| "key_eq a b = (a = b)"

text \<open>\<^verbatim>\<open>m[k] = v\<close>: an existing key keeps its stored form, a new entry may come anywhere in the iteration order.\<close>

fun map_store :: "mvalue \<Rightarrow> mvalue \<Rightarrow> (mvalue \<times> mvalue) list \<Rightarrow> (mvalue \<times> mvalue) list" where
  "map_store k v [] = [(k, v)]"
| "map_store k v ((k', v') # es) = (if key_eq k' k then (k', v) # es else (k', v') # map_store k v es)"

text \<open>The loops over the elements of an array and the entries of a map, over the decoder of one value.\<close>

primrec unpack_elems :: "(bytes \<Rightarrow> mvalue mp_result) \<Rightarrow> nat \<Rightarrow> bytes \<Rightarrow> mvalue list mp_result" where
  "unpack_elems dec 0 r = Inr ([], r)"
| "unpack_elems dec (Suc n) r =
     mp_bind (dec r) (\<lambda>v r. mp_bind (unpack_elems dec n r) (\<lambda>vs r. Inr (v # vs, r)))"

primrec unpack_entries ::
  "(bytes \<Rightarrow> mvalue mp_result) \<Rightarrow> unpackOptions \<Rightarrow> nat \<Rightarrow> bytes \<Rightarrow> (mvalue \<times> mvalue) list mp_result" where
  "unpack_entries dec opts 0 r = Inr ([], r)"
| "unpack_entries dec opts (Suc n) r =
     mp_bind (dec r) (\<lambda>k r.
       (case map_key opts k of
          Inl e \<Rightarrow> Inl e
        | Inr k \<Rightarrow>
            mp_bind (dec r) (\<lambda>v r.
              mp_bind (unpack_entries dec opts n r) (\<lambda>es r. Inr ((k, v) # es, r)))))"

definition unpackArrayWithOptions :: "(bytes \<Rightarrow> mvalue mp_result) \<Rightarrow> nat \<Rightarrow> bytes \<Rightarrow> mvalue mp_result" where
  "unpackArrayWithOptions dec l r =
     (if l > length r then Inl UnexpectedEOF
      else mp_bind (unpack_elems dec l r) (\<lambda>vs r. Inr (MArray vs, r)))"

definition unpackMapWithOptions ::
  "(bytes \<Rightarrow> mvalue mp_result) \<Rightarrow> unpackOptions \<Rightarrow> nat \<Rightarrow> bytes \<Rightarrow> mvalue mp_result" where
  "unpackMapWithOptions dec opts l r =
     (if l > length r div 2 then Inl UnexpectedEOF
      else mp_bind (unpack_entries dec opts l r) (\<lambda>es r. Inr (MMap (foldl (\<lambda>m (k, v). map_store k v m) [] es), r)))"

definition unpackOrderedMapWithOptions ::
  "(bytes \<Rightarrow> mvalue mp_result) \<Rightarrow> unpackOptions \<Rightarrow> nat \<Rightarrow> bytes \<Rightarrow> mvalue mp_result" where
  "unpackOrderedMapWithOptions dec opts l r =
     (if l > length r div 2 then Inl UnexpectedEOF
      else mp_bind (unpack_entries dec opts l r) (\<lambda>es r. Inr (OrderedMap es, r)))"

definition unpack_map ::
  "(bytes \<Rightarrow> mvalue mp_result) \<Rightarrow> unpackOptions \<Rightarrow> nat \<Rightarrow> bytes \<Rightarrow> mvalue mp_result" where
  "unpack_map dec opts l r =
     (if orderedMap opts then unpackOrderedMapWithOptions dec opts l r else unpackMapWithOptions dec opts l r)"

text \<open>One value, given the decoder of the values nested in it: the switch on the lead byte.\<close>

definition unpack_lead ::
  "(bytes \<Rightarrow> mvalue mp_result) \<Rightarrow> unpackOptions \<Rightarrow> byte \<Rightarrow> bytes \<Rightarrow> mvalue mp_result" where
  "unpack_lead dec opts b r =
     (if b \<le> 0x7f then Inr (MInt (ucast b), r)
      else if b \<ge> 0x80 \<and> b \<le> 0x8f then unpack_map dec opts (unat (b AND 0x0f)) r
      else if b \<ge> 0x90 \<and> b \<le> 0x9f then unpackArrayWithOptions dec (unat (b AND 0x0f)) r
      else if b \<ge> 0xa0 \<and> b \<le> 0xbf then mp_bind (unpackStr (unat (b AND 0x1f)) r) (\<lambda>s r. Inr (MStr s, r))
      else if b = nilVal then Inr (MNil, r)
      else if b = falseVal then Inr (MBool False, r)
      else if b = trueVal then Inr (MBool True, r)
      else if b = 0xc4 then mp_bind (ReadByte r) (\<lambda>l r. mp_bind (unpackBin (unat l) r) (\<lambda>d r. Inr (MBin d, r)))
      else if b = 0xc5 then mp_bind (read_be 2 r) (\<lambda>l r. mp_bind (unpackBin l r) (\<lambda>d r. Inr (MBin d, r)))
      else if b = 0xc6 then mp_bind (read_be 4 r) (\<lambda>l r. mp_bind (unpackBin l r) (\<lambda>d r. Inr (MBin d, r)))
      else if b = 0xc7 then mp_bind (ReadByte r) (\<lambda>l r. unpackExt (unat l) r)
      else if b = 0xc8 then mp_bind (read_be 2 r) unpackExt
      else if b = 0xc9 then mp_bind (read_be 4 r) unpackExt
      else if b = 0xca then mp_bind (read_be 4 r) (\<lambda>f r. Inr (MFloat32 (word_of_nat f), r))
      else if b = 0xcb then mp_bind (read_be 8 r) (\<lambda>f r. Inr (MFloat64 (word_of_nat f), r))
      else if b = 0xcc then mp_bind (ReadByte r) (\<lambda>v r. Inr (MUint (ucast v), r))
      else if b = 0xcd then mp_bind (read_be 2 r) (\<lambda>v r. Inr (MUint (word_of_nat v), r))
      else if b = 0xce then mp_bind (read_be 4 r) (\<lambda>v r. Inr (MUint (word_of_nat v), r))
      else if b = 0xcf then mp_bind (read_be 8 r) (\<lambda>v r. Inr (MUint (word_of_nat v), r))
      else if b = 0xd0 then mp_bind (ReadByte r) (\<lambda>v r. Inr (MInt (scast v), r))
      else if b = 0xd1 then mp_bind (read_be 2 r) (\<lambda>v r. Inr (MInt (scast (word_of_nat v :: uint16)), r))
      else if b = 0xd2 then mp_bind (read_be 4 r) (\<lambda>v r. Inr (MInt (scast (word_of_nat v :: uint32)), r))
      else if b = 0xd3 then mp_bind (read_be 8 r) (\<lambda>v r. Inr (MInt (word_of_nat v), r))
      else if b = 0xd4 then unpackExt 1 r
      else if b = 0xd5 then unpackExt 2 r
      else if b = 0xd6 then unpackExt 4 r
      else if b = 0xd7 then unpackExt 8 r
      else if b = 0xd8 then unpackExt 16 r
      else if b = 0xd9 then mp_bind (ReadByte r) (\<lambda>l r. mp_bind (unpackStr (unat l) r) (\<lambda>s r. Inr (MStr s, r)))
      else if b = 0xda then mp_bind (read_be 2 r) (\<lambda>l r. mp_bind (unpackStr l r) (\<lambda>s r. Inr (MStr s, r)))
      else if b = 0xdb then mp_bind (read_be 4 r) (\<lambda>l r. mp_bind (unpackStr l r) (\<lambda>s r. Inr (MStr s, r)))
      else if b = 0xdc then mp_bind (read_be 2 r) (\<lambda>l r. unpackArrayWithOptions dec l r)
      else if b = 0xdd then mp_bind (read_be 4 r) (\<lambda>l r. unpackArrayWithOptions dec l r)
      else if b = 0xde then mp_bind (read_be 2 r) (\<lambda>l r. unpack_map dec opts l r)
      else if b = 0xdf then mp_bind (read_be 4 r) (\<lambda>l r. unpack_map dec opts l r)
      else if b \<ge> 0xe0 then Inr (MInt (scast b), r)
      else if b = 0xc1 then Inl ReservedCode
      else Inl (UnknownType b))"

primrec unpackWithOptions :: "nat \<Rightarrow> unpackOptions \<Rightarrow> bytes \<Rightarrow> mvalue mp_result" where
  "unpackWithOptions 0 opts r = Inl OutOfFuel"
| "unpackWithOptions (Suc fuel) opts r =
     mp_bind (ReadByte r) (\<lambda>b r. unpack_lead (unpackWithOptions fuel opts) opts b r)"

definition unpack_value :: "unpackOptions \<Rightarrow> bytes \<Rightarrow> mvalue mp_result" where
  "unpack_value opts data = unpackWithOptions (Suc (length data)) opts data"

definition msgpack_Unpack :: "bytes \<Rightarrow> mp_error + mvalue" where
  "msgpack_Unpack data =
     map_sum id fst (unpack_value \<lparr>strictMapKeys = False, preserveBinMapKey = False, orderedMap = False\<rparr> data)"

definition UnpackPreserveBinMapKeys :: "bytes \<Rightarrow> mp_error + mvalue" where
  "UnpackPreserveBinMapKeys data =
     map_sum id fst (unpack_value \<lparr>strictMapKeys = False, preserveBinMapKey = True, orderedMap = False\<rparr> data)"

definition UnpackPreserveBinMapKeyOrder :: "bytes \<Rightarrow> mp_error + mvalue" where
  "UnpackPreserveBinMapKeyOrder data =
     map_sum id fst (unpack_value \<lparr>strictMapKeys = False, preserveBinMapKey = True, orderedMap = True\<rparr> data)"

definition normalizePythonUnpackError :: "mp_error \<Rightarrow> mp_error" where
  "normalizePythonUnpackError err =
     (case err of EOF \<Rightarrow> IncompleteInput | UnexpectedEOF \<Rightarrow> IncompleteInput | _ \<Rightarrow> err)"

definition strict_result :: "mvalue mp_result \<Rightarrow> mp_error + mvalue" where
  "strict_result res =
     (case res of
        Inl err \<Rightarrow> Inl (normalizePythonUnpackError err)
      | Inr (value, r) \<Rightarrow> if r = [] then Inr value else Inl ExtraData)"

definition UnpackStrictPreserveBinMapKeyOrder :: "bytes \<Rightarrow> mp_error + mvalue" where
  "UnpackStrictPreserveBinMapKeyOrder data =
     strict_result (unpack_value \<lparr>strictMapKeys = False, preserveBinMapKey = True, orderedMap = True\<rparr> data)"

definition UnpackStrict :: "bytes \<Rightarrow> mp_error + mvalue" where
  "UnpackStrict data =
     strict_result (unpack_value \<lparr>strictMapKeys = True, preserveBinMapKey = True, orderedMap = False\<rparr> data)"

section \<open>Ordered maps\<close>

text \<open>Keys are compared with \<^verbatim>\<open>reflect.DeepEqual\<close>, which on the supported key types agrees with \<open>key_eq\<close>.\<close>

fun ordered_Get :: "mvalue \<Rightarrow> (mvalue \<times> mvalue) list \<Rightarrow> mvalue option" where
  "ordered_Get key [] = None"
| "ordered_Get key ((k, v) # m) = (if key_eq k key then Some v else ordered_Get key m)"

fun ordered_Set :: "mvalue \<Rightarrow> mvalue \<Rightarrow> (mvalue \<times> mvalue) list \<Rightarrow> (mvalue \<times> mvalue) list" where
  "ordered_Set key v [] = [(key, v)]"
| "ordered_Set key v ((k, v') # m) = (if key_eq k key then (k, v) # m else (k, v') # ordered_Set key v m)"

section \<open>Readers\<close>

text \<open>
  A reader with size \<open>s\<close> and minimum \<open>n\<close> consumes a prefix of its input of at least \<open>n\<close> bytes, at
  least as long as the result is large, and its result depends on that prefix only.
\<close>

definition reader :: "('a \<Rightarrow> nat) \<Rightarrow> nat \<Rightarrow> (bytes \<Rightarrow> 'a mp_result) \<Rightarrow> bool" where
  "reader s n p \<longleftrightarrow> (\<forall>r a r'. p r = Inr (a, r') \<longrightarrow>
     (\<exists>used. r = used @ r' \<and> n \<le> length used \<and> s a \<le> length used \<and> (\<forall>t. p (used @ t) = Inr (a, t))))"

lemma reader_mono:
  assumes "reader s n p" and "m \<le> n" and "\<And>a. t a \<le> s a"
  shows "reader t m p"
  unfolding reader_def
proof (intro allI impI)
  fix r a r'
  assume "p r = Inr (a, r')"
  with assms(1) obtain used where "r = used @ r'" "n \<le> length used" "s a \<le> length used" "\<And>t. p (used @ t) = Inr (a, t)"
    unfolding reader_def by blast
  with assms(2) assms(3) [of a] show "\<exists>used. r = used @ r' \<and> m \<le> length used \<and> t a \<le> length used \<and> (\<forall>t. p (used @ t) = Inr (a, t))"
    by (intro exI [of _ used]) auto
qed

lemma reader_return: "s a = 0 \<Longrightarrow> reader s 0 (\<lambda>r. Inr (a, r))"
  by (simp add: reader_def)

lemma reader_fail: "reader s n (\<lambda>r. Inl e)"
  by (simp add: reader_def)

lemma reader_bind:
  assumes p: "reader s n p" and f: "\<And>a. reader (\<lambda>b. t b - s a) m (f a)"
  shows "reader t (n + m) (\<lambda>r. mp_bind (p r) f)"
  unfolding reader_def
proof (intro allI impI)
  fix r b r'
  assume "mp_bind (p r) f = Inr (b, r')"
  then obtain a r1 where a: "p r = Inr (a, r1)" and b: "f a r1 = Inr (b, r')"
    by (auto simp: mp_bind_def split: sum.splits prod.splits)
  from p a obtain u1 where u1: "r = u1 @ r1" "n \<le> length u1" "s a \<le> length u1" "\<And>t. p (u1 @ t) = Inr (a, t)"
    unfolding reader_def by blast
  from f b obtain u2 where u2: "r1 = u2 @ r'" "m \<le> length u2" "t b - s a \<le> length u2" "\<And>t. f a (u2 @ t) = Inr (b, t)"
    unfolding reader_def by blast
  show "\<exists>used. r = used @ r' \<and> n + m \<le> length used \<and> t b \<le> length used \<and> (\<forall>t. mp_bind (p (used @ t)) f = Inr (b, t))"
    using u1 u2 by (intro exI [of _ "u1 @ u2"]) (auto simp: mp_bind_def)
qed

lemma reader_bind0:
  assumes "reader (\<lambda>_. 0) 0 p" and "\<And>a. reader t m (f a)"
  shows "reader t m (\<lambda>r. mp_bind (p r) f)"
  using reader_bind [where t = t, OF assms(1)] assms(2) by simp

lemma reader_map:
  assumes "reader s n p" and "\<And>a. t (g a) \<le> s a"
  shows "reader t n (\<lambda>r. mp_bind (p r) (\<lambda>a r. Inr (g a, r)))"
proof -
  have "reader (\<lambda>b. t b - s a) 0 (\<lambda>r. Inr (g a, r))" for a using assms(2) by (intro reader_return) simp
  from reader_bind [where f = "\<lambda>a r. Inr (g a, r)", OF assms(1) this] show ?thesis by simp
qed

lemma reader_if: "reader s n p \<Longrightarrow> reader s n q \<Longrightarrow> reader s n (\<lambda>r. if c then p r else q r)"
  by (simp add: reader_def)

lemma reader_guard:
  assumes "reader s n p" and "\<And>k. n \<le> k \<Longrightarrow> \<not> c k" and "\<And>j k. \<not> c j \<Longrightarrow> j \<le> k \<Longrightarrow> \<not> c k"
  shows "reader s n (\<lambda>r. if c (length r) then Inl e else p r)"
  unfolding reader_def
proof (intro allI impI)
  fix r a r'
  assume "(if c (length r) then Inl e else p r) = Inr (a, r')"
  then have "p r = Inr (a, r')" by (simp split: if_splits)
  with assms(1) obtain used where "r = used @ r'" "n \<le> length used" "s a \<le> length used" "\<And>t. p (used @ t) = Inr (a, t)"
    unfolding reader_def by blast
  with assms(2) show "\<exists>used. r = used @ r' \<and> n \<le> length used \<and> s a \<le> length used
      \<and> (\<forall>t. (if c (length (used @ t)) then Inl e else p (used @ t)) = Inr (a, t))"
    by (intro exI [of _ used]) auto
qed

lemma reader_ReadByte: "reader (\<lambda>_. 1) 1 ReadByte"
  by (auto simp: reader_def ReadByte_def split: list.splits)

lemma reader_take:
  assumes "\<And>r. p r = (if length r < n then Inl (e r) else Inr (g (take n r), drop n r))"
    and "\<And>d. length d = n \<Longrightarrow> s (g d) \<le> n"
  shows "reader s n p"
  unfolding reader_def
proof (intro allI impI)
  fix r a r'
  assume "p r = Inr (a, r')"
  then have r: "\<not> length r < n" "a = g (take n r)" "r' = drop n r" by (auto simp: assms(1) split: if_splits)
  then show "\<exists>used. r = used @ r' \<and> n \<le> length used \<and> s a \<le> length used \<and> (\<forall>t. p (used @ t) = Inr (a, t))"
    using assms(2) [of "take n r"] by (intro exI [of _ "take n r"]) (auto simp: assms(1) min_def)
qed

lemma reader_read_be: "reader (\<lambda>_. 0) 0 (read_be n)"
  by (rule reader_mono [OF reader_take [where n = n and g = be_dec and s = "\<lambda>_. 0"]]) (auto simp: read_be_def)

lemma reader_payload: "reader length l (unpackBin l)" "reader length l (unpackStr l)"
  by (rule reader_take [where g = id and e = "\<lambda>_. UnexpectedEOF"]; auto simp: unpackBin_def unpackStr_def)+

section \<open>What the decoder consumes\<close>

text \<open>The number of values in a value, payload bytes of strings, binaries and extensions included.\<close>

fun mcount :: "mvalue \<Rightarrow> nat" where
  "mcount (MStr s) = 1 + length s"
| "mcount (MBin s) = 1 + length s"
| "mcount (binaryMapKey s) = 1 + length s"
| "mcount (Ext t s) = 1 + length s"
| "mcount (extMapKey t s) = 1 + length s"
| "mcount (MArray xs) = 1 + sum_list (map mcount xs)"
| "mcount (MMap es) = 1 + sum_list (map (\<lambda>e. mcount (fst e) + mcount (snd e)) es)"
| "mcount (OrderedMap es) = 1 + sum_list (map (\<lambda>e. mcount (fst e) + mcount (snd e)) es)"
| "mcount _ = 1"

definition entries_count :: "(mvalue \<times> mvalue) list \<Rightarrow> nat" where
  "entries_count es = sum_list (map (\<lambda>e. mcount (fst e) + mcount (snd e)) es)"

lemma entries_count_simps [simp]:
  "entries_count [] = 0" "entries_count ((k, v) # es) = mcount k + mcount v + entries_count es"
  by (simp_all add: entries_count_def)

lemma map_key_count: "map_key opts k = Inr k' \<Longrightarrow> mcount k' \<le> mcount k"
  by (cases k) (auto simp: map_key_def Let_def split: if_splits)

lemma map_store_count: "entries_count (map_store k v m) \<le> mcount k + mcount v + entries_count m"
  by (induction k v m rule: map_store.induct) auto

lemma map_build_count:
  "entries_count (foldl (\<lambda>m (k, v). map_store k v m) m es) \<le> entries_count m + entries_count es"
proof (induction es arbitrary: m)
  case Nil
  then show ?case by simp
next
  case (Cons e es)
  obtain k v where e: "e = (k, v)" by (cases e)
  show ?case using Cons.IH [of "map_store k v m"] map_store_count [of k v m] by (simp add: e)
qed

lemma reader_elems:
  assumes "reader mcount 1 dec"
  shows "reader (\<lambda>vs. sum_list (map mcount vs)) n (unpack_elems dec n)"
proof (induction n)
  case 0
  show ?case by (simp add: reader_def)
next
  case (Suc n)
  have "reader (\<lambda>vs. sum_list (map mcount vs) - mcount v) n
      (\<lambda>r. mp_bind (unpack_elems dec n r) (\<lambda>vs r. Inr (v # vs, r)))" for v
    by (rule reader_map [OF Suc.IH]) simp
  from reader_bind [where t = "\<lambda>vs. sum_list (map mcount vs)", OF assms this] show ?case by simp
qed

lemma reader_entries:
  assumes "reader mcount 1 dec"
  shows "reader entries_count (2 * n) (unpack_entries dec opts n)"
proof (induction n)
  case 0
  show ?case by (simp add: reader_def)
next
  case (Suc n)
  have v: "reader (\<lambda>es. entries_count es - mcount k) (1 + 2 * n) (\<lambda>r. mp_bind (dec r) (\<lambda>v r.
      mp_bind (unpack_entries dec opts n r) (\<lambda>es r. Inr ((k', v) # es, r))))" if "mcount k' \<le> mcount k" for k k'
    by (rule reader_bind [OF assms reader_map [OF Suc.IH]]) (use that in simp)
  have "reader (\<lambda>es. entries_count es - mcount k) (1 + 2 * n) (\<lambda>r. case map_key opts k of Inl e \<Rightarrow> Inl e
      | Inr k' \<Rightarrow> mp_bind (dec r) (\<lambda>v r. mp_bind (unpack_entries dec opts n r) (\<lambda>es r. Inr ((k', v) # es, r))))" for k
    using v map_key_count by (cases "map_key opts k") (simp_all add: reader_fail)
  from reader_bind [where t = entries_count, OF assms this] show ?case by simp
qed

lemma reader_array:
  assumes "reader mcount 1 dec"
  shows "reader (\<lambda>v. mcount v - 1) 0 (unpackArrayWithOptions dec l)"
proof -
  have "reader (\<lambda>v. mcount v - 1) l (\<lambda>r. mp_bind (unpack_elems dec l r) (\<lambda>vs r. Inr (MArray vs, r)))"
    by (rule reader_map [OF reader_elems [OF assms]]) simp
  from reader_guard [OF this, of "\<lambda>k. l > k" UnexpectedEOF] show ?thesis
    unfolding unpackArrayWithOptions_def [abs_def] by (rule reader_mono) auto
qed

lemma reader_map_value:
  assumes "reader mcount 1 dec"
  shows "reader (\<lambda>v. mcount v - 1) 0 (unpack_map dec opts l)"
proof -
  have guard: "reader s 0 (\<lambda>r. if l > length r div 2 then Inl UnexpectedEOF else p r)" if "reader s (2 * l) p" for s and p :: "bytes \<Rightarrow> mvalue mp_result"
    by (rule reader_mono [OF reader_guard [OF that, of "\<lambda>k. l > k div 2"]]) auto
  have "reader (\<lambda>v. mcount v - 1) (2 * l) (\<lambda>r. mp_bind (unpack_entries dec opts l r) (\<lambda>es r. Inr (OrderedMap es, r)))"
    by (rule reader_map [OF reader_entries [OF assms]]) (simp add: entries_count_def)
  moreover have "reader (\<lambda>v. mcount v - 1) (2 * l) (\<lambda>r. mp_bind (unpack_entries dec opts l r)
      (\<lambda>es r. Inr (MMap (foldl (\<lambda>m (k, v). map_store k v m) [] es), r)))"
    by (rule reader_map [OF reader_entries [OF assms]])
      (use map_build_count [of "[]"] in \<open>simp add: entries_count_def\<close>)
  ultimately show ?thesis
    unfolding unpack_map_def [abs_def] unpackOrderedMapWithOptions_def [abs_def] unpackMapWithOptions_def [abs_def]
    by (intro reader_if guard)
qed

lemma reader_ReadByte0: "reader (\<lambda>_. 0) 0 ReadByte"
  by (rule reader_mono [OF reader_ReadByte]) simp_all

lemma reader_ext: "reader (\<lambda>v. mcount v - 1) 0 (unpackExt l)"
proof -
  have "reader (\<lambda>v. mcount v - 1) 0 (\<lambda>r. mp_bind (unpackBin l r) (\<lambda>d r. Inr (Ext t d, r)))" for t
    by (rule reader_mono [OF reader_map [OF reader_payload(1), where t = "\<lambda>v. mcount v - 1"]]) simp_all
  then show ?thesis unfolding unpackExt_def [abs_def] by (rule reader_bind0 [OF reader_ReadByte0])
qed

lemma reader_str: "reader (\<lambda>v. mcount v - 1) 0 (\<lambda>r. mp_bind (unpackStr l r) (\<lambda>s r. Inr (MStr s, r)))"
  by (rule reader_mono [OF reader_map [OF reader_payload(2), where t = "\<lambda>v. mcount v - 1"]]) simp_all

lemma reader_bin: "reader (\<lambda>v. mcount v - 1) 0 (\<lambda>r. mp_bind (unpackBin l r) (\<lambda>s r. Inr (MBin s, r)))"
  by (rule reader_mono [OF reader_map [OF reader_payload(1), where t = "\<lambda>v. mcount v - 1"]]) simp_all

lemma reader_lead:
  assumes "reader mcount 1 dec"
  shows "reader (\<lambda>v. mcount v - 1) 0 (unpack_lead dec opts b)"
  unfolding unpack_lead_def [abs_def]
  by (intro reader_if reader_str reader_bin reader_ext reader_fail reader_array [OF assms] reader_map_value [OF assms]
      reader_bind0 [OF reader_ReadByte0] reader_bind0 [OF reader_read_be] reader_return) simp_all

lemma reader_unpack: "reader mcount 1 (unpackWithOptions fuel opts)"
proof (induction fuel)
  case 0
  show ?case by (simp add: reader_def)
next
  case (Suc fuel)
  from reader_bind [OF reader_ReadByte, where t = mcount and f = "unpack_lead (unpackWithOptions fuel opts) opts",
    OF reader_lead [OF Suc.IH]] show ?case by simp
qed

section \<open>The fuel is enough\<close>

text \<open>\<open>fueled k p\<close>: on fewer than \<open>k\<close> bytes the reader does not run out of fuel.\<close>

definition fueled :: "nat \<Rightarrow> (bytes \<Rightarrow> 'a mp_result) \<Rightarrow> bool" where
  "fueled k p \<longleftrightarrow> (\<forall>r. length r < k \<longrightarrow> p r \<noteq> Inl OutOfFuel)"

lemma fueled_bind:
  assumes "fueled k p" and "reader s n p" and "\<And>a. fueled (k - n) (f a)"
  shows "fueled k (\<lambda>r. mp_bind (p r) f)"
  unfolding fueled_def
proof (intro allI impI)
  fix r :: bytes
  assume r: "length r < k"
  show "mp_bind (p r) f \<noteq> Inl OutOfFuel"
  proof (cases "p r")
    case (Inl e)
    with r assms(1) show ?thesis by (auto simp: fueled_def mp_bind_def)
  next
    case (Inr x)
    obtain a r1 where x: "x = (a, r1)" by (cases x)
    with Inr assms(2) obtain used where u: "r = used @ r1" "n \<le> length used" unfolding reader_def by blast
    then have "length r1 < k - n" using r by simp
    with assms(3) Inr x show ?thesis by (auto simp: fueled_def mp_bind_def)
  qed
qed

lemma fueled_bind0:
  assumes "fueled k p" and "reader s 0 p" and "\<And>a. fueled k (f a)"
  shows "fueled k (\<lambda>r. mp_bind (p r) f)"
  by (rule fueled_bind [OF assms(1,2)]) (simp add: assms(3))

lemma fueled_if: "fueled k p \<Longrightarrow> fueled k q \<Longrightarrow> fueled k (\<lambda>r. if c r then p r else q r)"
  by (simp add: fueled_def)

lemma fueled_return: "fueled k (\<lambda>r. Inr (a, r))" "e \<noteq> OutOfFuel \<Longrightarrow> fueled k (\<lambda>r. Inl e)"
  by (simp_all add: fueled_def)

lemma fueled_basic: "fueled k ReadByte" "fueled k (read_be n)" "fueled k (unpackBin l)" "fueled k (unpackStr l)"
  by (auto simp: fueled_def ReadByte_def read_be_def unpackBin_def unpackStr_def split: list.splits)

lemma reader_weaken: "reader s n p \<Longrightarrow> reader s 0 p"
  by (erule reader_mono) simp_all

lemma fueled_ext: "fueled k (unpackExt l)"
  unfolding unpackExt_def [abs_def]
  by (intro fueled_bind0 [OF fueled_basic(1) reader_ReadByte0] fueled_bind0 [OF fueled_basic(3) reader_weaken [OF reader_payload(1)]] fueled_return)

lemma fueled_elems:
  assumes "reader mcount 1 dec" and "fueled k dec"
  shows "fueled k (unpack_elems dec n)"
proof (induction n)
  case 0
  show ?case by (simp add: fueled_def)
next
  case (Suc n)
  show ?case unfolding unpack_elems.simps
    by (intro fueled_bind0 [OF assms(2) reader_weaken [OF assms(1)]] fueled_bind0 [OF Suc.IH reader_weaken [OF reader_elems [OF assms(1)]]] fueled_return)
qed

lemma map_key_error: "map_key opts k \<noteq> Inl OutOfFuel"
  by (cases k) (auto simp: map_key_def Let_def)

lemma fueled_entries:
  assumes "reader mcount 1 dec" and "fueled k dec"
  shows "fueled k (unpack_entries dec opts n)"
proof (induction n)
  case 0
  show ?case by (simp add: fueled_def)
next
  case (Suc n)
  have "fueled k (\<lambda>r. mp_bind (dec r) (\<lambda>v r. mp_bind (unpack_entries dec opts n r) (\<lambda>es r. Inr ((k', v) # es, r))))" for k'
    by (intro fueled_bind0 [OF assms(2) reader_weaken [OF assms(1)]] fueled_bind0 [OF Suc.IH reader_weaken [OF reader_entries [OF assms(1)]]] fueled_return)
  then have "fueled k (\<lambda>r. case map_key opts key of Inl e \<Rightarrow> Inl e
      | Inr k' \<Rightarrow> mp_bind (dec r) (\<lambda>v r. mp_bind (unpack_entries dec opts n r) (\<lambda>es r. Inr ((k', v) # es, r))))" for key
    using map_key_error [of opts key] by (cases "map_key opts key") (auto simp: fueled_return)
  from fueled_bind0 [OF assms(2) reader_weaken [OF assms(1)] this] show ?case by simp
qed

lemma fueled_lead:
  assumes "reader mcount 1 dec" and "fueled k dec"
  shows "fueled k (unpack_lead dec opts b)"
proof -
  have array: "fueled k (unpackArrayWithOptions dec l)" for l
    unfolding unpackArrayWithOptions_def [abs_def]
    by (intro fueled_if fueled_return fueled_bind0 [OF fueled_elems [OF assms] reader_weaken [OF reader_elems [OF assms(1)]]]) simp
  have map: "fueled k (unpack_map dec opts l)" for l
    unfolding unpack_map_def [abs_def] unpackOrderedMapWithOptions_def [abs_def] unpackMapWithOptions_def [abs_def]
    by (intro fueled_if fueled_return fueled_bind0 [OF fueled_entries [OF assms] reader_weaken [OF reader_entries [OF assms(1)]]]) simp_all
  show ?thesis
    unfolding unpack_lead_def [abs_def]
    by (intro fueled_if fueled_ext array map fueled_bind0 [OF fueled_basic(1) reader_ReadByte0]
        fueled_bind0 [OF fueled_basic(2) reader_read_be] fueled_bind0 [OF fueled_basic(3) reader_weaken [OF reader_payload(1)]]
        fueled_bind0 [OF fueled_basic(4) reader_weaken [OF reader_payload(2)]] fueled_return) simp_all
qed

lemma fueled_unpack: "fueled fuel (unpackWithOptions fuel opts)"
proof (induction fuel)
  case 0
  show ?case by (simp add: fueled_def)
next
  case (Suc fuel)
  have "fueled (Suc fuel - 1) (unpack_lead (unpackWithOptions fuel opts) opts b)" for b
    using fueled_lead [OF reader_unpack Suc.IH] by simp
  from fueled_bind [OF fueled_basic(1) reader_ReadByte this] show ?case by simp
qed

text \<open>\<open>extends p q\<close>: where \<open>p\<close> does not run out of fuel, \<open>q\<close> agrees with it.\<close>

definition extends :: "(bytes \<Rightarrow> 'a mp_result) \<Rightarrow> (bytes \<Rightarrow> 'a mp_result) \<Rightarrow> bool" where
  "extends p q \<longleftrightarrow> (\<forall>r. p r \<noteq> Inl OutOfFuel \<longrightarrow> q r = p r)"

lemma extends_refl: "extends p p"
  by (simp add: extends_def)

lemma extends_bind:
  "extends p q \<Longrightarrow> (\<And>a. extends (f a) (g a)) \<Longrightarrow> extends (\<lambda>r. mp_bind (p r) f) (\<lambda>r. mp_bind (q r) g)"
  unfolding extends_def mp_bind_def by (auto split: sum.splits prod.splits)

lemma extends_if: "extends p q \<Longrightarrow> extends p' q' \<Longrightarrow> extends (\<lambda>r. if c r then p r else p' r) (\<lambda>r. if c r then q r else q' r)"
  by (simp add: extends_def)

lemma extends_elems: "extends p q \<Longrightarrow> extends (unpack_elems p n) (unpack_elems q n)"
proof (induction n)
  case 0
  show ?case by (simp add: extends_def)
next
  case (Suc n)
  then have "extends (\<lambda>r. mp_bind (p r) (\<lambda>v r. mp_bind (unpack_elems p n r) (\<lambda>vs r. Inr (v # vs, r))))
      (\<lambda>r. mp_bind (q r) (\<lambda>v r. mp_bind (unpack_elems q n r) (\<lambda>vs r. Inr (v # vs, r))))"
    by (intro extends_bind extends_refl)
  then show ?case by (simp add: extends_def)
qed

lemma extends_entries: "extends p q \<Longrightarrow> extends (unpack_entries p opts n) (unpack_entries q opts n)"
proof (induction n)
  case 0
  show ?case by (simp add: extends_def)
next
  case (Suc n)
  have "extends (\<lambda>r. case map_key opts k of Inl e \<Rightarrow> Inl e
        | Inr k' \<Rightarrow> mp_bind (p r) (\<lambda>v r. mp_bind (unpack_entries p opts n r) (\<lambda>es r. Inr ((k', v) # es, r))))
      (\<lambda>r. case map_key opts k of Inl e \<Rightarrow> Inl e
        | Inr k' \<Rightarrow> mp_bind (q r) (\<lambda>v r. mp_bind (unpack_entries q opts n r) (\<lambda>es r. Inr ((k', v) # es, r))))" for k
    by (cases "map_key opts k") (simp_all add: extends_refl extends_bind Suc)
  from extends_bind [OF Suc.prems this] show ?case by (simp add: extends_def)
qed

lemma extends_lead:
  assumes "extends p q"
  shows "extends (unpack_lead p opts b) (unpack_lead q opts b)"
proof -
  have array: "extends (unpackArrayWithOptions p l) (unpackArrayWithOptions q l)" for l
    unfolding unpackArrayWithOptions_def [abs_def] by (intro extends_if extends_refl extends_bind extends_elems [OF assms])
  have map: "extends (unpack_map p opts l) (unpack_map q opts l)" for l
    unfolding unpack_map_def [abs_def] unpackOrderedMapWithOptions_def [abs_def] unpackMapWithOptions_def [abs_def]
    by (intro extends_if extends_refl extends_bind extends_entries [OF assms])
  show ?thesis unfolding unpack_lead_def [abs_def]
    by (intro extends_if array map extends_refl extends_bind)
qed

lemma extends_unpack: "f \<le> f' \<Longrightarrow> extends (unpackWithOptions f opts) (unpackWithOptions f' opts)"
proof (induction f arbitrary: f')
  case 0
  show ?case by (simp add: extends_def)
next
  case (Suc f)
  then obtain g where g: "f' = Suc g" "f \<le> g" by (cases f') auto
  have "extends (\<lambda>r. mp_bind (ReadByte r) (unpack_lead (unpackWithOptions f opts) opts))
      (\<lambda>r. mp_bind (ReadByte r) (unpack_lead (unpackWithOptions g opts) opts))"
    by (intro extends_bind extends_refl extends_lead Suc.IH g)
  then show ?case by (simp add: g extends_def)
qed

lemma unpack_value_fuel: "length r < fuel \<Longrightarrow> unpackWithOptions fuel opts r = unpack_value opts r"
  using extends_unpack [of "Suc (length r)" fuel opts] fueled_unpack [of "Suc (length r)" opts]
  by (auto simp: extends_def fueled_def unpack_value_def)

lemma unpack_value_total: "unpack_value opts r \<noteq> Inl OutOfFuel"
  using fueled_unpack [of "Suc (length r)" opts] by (simp add: unpack_value_def fueled_def)

text \<open>
  C33: The decoder is total and cannot be made to allocate by a forged length. On every input it
  returns; when it succeeds it has consumed a non-empty prefix of the input that alone determines
  the result, whatever follows; and the decoded value has no more elements, payload bytes included,
  than that prefix has bytes.
\<close>

theorem unpack_total_and_bounded:
  "unpack_value opts data \<noteq> Inl OutOfFuel \<and>
   (\<forall>v rest. unpack_value opts data = Inr (v, rest) \<longrightarrow>
      (\<exists>used. data = used @ rest \<and> used \<noteq> [] \<and> mcount v \<le> length used \<and>
         (\<forall>rest'. unpack_value opts (used @ rest') = Inr (v, rest'))))"
proof (intro conjI allI impI)
  show "unpack_value opts data \<noteq> Inl OutOfFuel" by (rule unpack_value_total)
  fix v rest
  assume v: "unpack_value opts data = Inr (v, rest)"
  then obtain used where u: "data = used @ rest" "1 \<le> length used" "mcount v \<le> length used"
      "\<And>t. unpackWithOptions (Suc (length data)) opts (used @ t) = Inr (v, t)"
    using reader_unpack [of "Suc (length data)" opts] unfolding reader_def unpack_value_def by blast
  have "unpack_value opts (used @ t) = Inr (v, t)" for t
  proof -
    let ?f = "max (Suc (length data)) (Suc (length (used @ t)))"
    have "unpackWithOptions ?f opts (used @ t) = Inr (v, t)"
      using extends_unpack [of "Suc (length data)" ?f opts] u(4) [of t] by (simp add: extends_def)
    then show ?thesis using unpack_value_fuel [of "used @ t" ?f opts] by simp
  qed
  with u show "\<exists>used. data = used @ rest \<and> used \<noteq> [] \<and> mcount v \<le> length used \<and>
         (\<forall>rest'. unpack_value opts (used @ rest') = Inr (v, rest'))" by (intro exI [of _ used]) auto
qed

theorem unpack_total_and_bounded_witness:
  "\<exists>used. ([0x92, 0x01, 0xa1, 0x41, 0xff] :: bytes) = used @ [0xff] \<and> used \<noteq> [] \<and> mcount (MArray [MInt 1, MStr [0x41]]) \<le> length used
     \<and> (\<forall>rest'. unpack_value \<lparr>strictMapKeys = False, preserveBinMapKey = False, orderedMap = False\<rparr> (used @ rest')
          = Inr (MArray [MInt 1, MStr [0x41]], rest'))"
proof -
  have "unpack_value \<lparr>strictMapKeys = False, preserveBinMapKey = False, orderedMap = False\<rparr> [0x92, 0x01, 0xa1, 0x41, 0xff]
      = Inr (MArray [MInt 1, MStr [0x41]], [0xff])"
    by code_simp
  then show ?thesis
    using unpack_total_and_bounded [of "\<lparr>strictMapKeys = False, preserveBinMapKey = False, orderedMap = False\<rparr>" "[0x92, 0x01, 0xa1, 0x41, 0xff]"]
    by blast
qed

section \<open>Round trip\<close>

text \<open>
  The form in which the order-preserving decoder returns a packed value: small unsigned integers
  come back signed, maps ordered, and keys in their hashable form.
\<close>

definition decoded_key :: "mvalue \<Rightarrow> mvalue" where
  "decoded_key k =
     (case k of
        MBin b \<Rightarrow> binaryMapKey b
      | MArray xs \<Rightarrow> collectionMapKey (PackSorted (MArray xs))
      | Ext t d \<Rightarrow> extMapKey t d
      | _ \<Rightarrow> k)"

fun decoded :: "mvalue \<Rightarrow> mvalue" where
  "decoded (MUint i) = (if unat i \<le> 127 then MInt i else MUint i)"
| "decoded (MFloat32 f) = MFloat32 (float32_bits f)"
| "decoded (MArray xs) = MArray (map decoded xs)"
| "decoded (MMap es) = OrderedMap (map (\<lambda>e. (decoded_key (decoded (fst e)), decoded (snd e))) es)"
| "decoded (OrderedMap es) = OrderedMap (map (\<lambda>e. (decoded_key (decoded (fst e)), decoded (snd e))) es)"
| "decoded (binaryMapKey s) = MStr s"
| "decoded (extMapKey t d) = Ext t d"
| "decoded v = v"

fun is_map :: "mvalue \<Rightarrow> bool" where
  "is_map (MMap _) = True"
| "is_map (OrderedMap _) = True"
| "is_map _ = False"

text \<open>Lengths fit the 32-bit headers, and no map is a map key. Stored encodings of array keys are left out.\<close>

fun wire_ok :: "mvalue \<Rightarrow> bool" where
  "wire_ok (MStr s) = (length s < 2 ^ 32)"
| "wire_ok (MBin s) = (length s < 2 ^ 32)"
| "wire_ok (binaryMapKey s) = (length s < 2 ^ 32)"
| "wire_ok (Ext t s) = (length s < 2 ^ 32)"
| "wire_ok (extMapKey t s) = (length s < 2 ^ 32)"
| "wire_ok (MArray xs) = (length xs < 2 ^ 32 \<and> list_all wire_ok xs)"
| "wire_ok (MMap es) = (length es < 2 ^ 32 \<and> list_all (\<lambda>e. \<not> is_map (fst e) \<and> wire_ok (fst e) \<and> wire_ok (snd e)) es)"
| "wire_ok (OrderedMap es) = (length es < 2 ^ 32 \<and> list_all (\<lambda>e. \<not> is_map (fst e) \<and> wire_ok (fst e) \<and> wire_ok (snd e)) es)"
| "wire_ok (collectionMapKey enc) = False"
| "wire_ok _ = True"

definition ordered_options :: unpackOptions where
  "ordered_options = \<lparr>strictMapKeys = False, preserveBinMapKey = True, orderedMap = True\<rparr>"

named_theorems mp_simps

lemma mp_bind_simps [mp_simps]: "mp_bind (Inr (a, r)) f = f a r" "mp_bind (Inl e) f = Inl e"
  by (simp_all add: mp_bind_def)

lemma ReadByte_Cons [mp_simps]: "ReadByte (b # r) = Inr (b, r)"
  by (simp add: ReadByte_def)

lemma read_be_enc [mp_simps]: "v < 256 ^ n \<Longrightarrow> read_be n (be_enc n v @ r) = Inr (v, r)"
  by (simp add: read_be_def be_dec_be_enc)

lemma payload_append [mp_simps]:
  "unpackBin (length d) (d @ r) = Inr (d, r)" "unpackStr (length d) (d @ r) = Inr (d, r)"
  by (simp_all add: unpackBin_def unpackStr_def)

lemma unpackExt_append [mp_simps]: "length d = l \<Longrightarrow> unpackExt l (t # d @ r) = Inr (Ext t d, r)"
  by (auto simp: unpackExt_def mp_simps)

lemma lead_code [mp_simps]:
  "unpack_lead dec opts nilVal r = Inr (MNil, r)"
  "unpack_lead dec opts falseVal r = Inr (MBool False, r)"
  "unpack_lead dec opts trueVal r = Inr (MBool True, r)"
  "unpack_lead dec opts 0xc4 r = mp_bind (ReadByte r) (\<lambda>l r. mp_bind (unpackBin (unat l) r) (\<lambda>d r. Inr (MBin d, r)))"
  "unpack_lead dec opts 0xc5 r = mp_bind (read_be 2 r) (\<lambda>l r. mp_bind (unpackBin l r) (\<lambda>d r. Inr (MBin d, r)))"
  "unpack_lead dec opts 0xc6 r = mp_bind (read_be 4 r) (\<lambda>l r. mp_bind (unpackBin l r) (\<lambda>d r. Inr (MBin d, r)))"
  "unpack_lead dec opts 0xc7 r = mp_bind (ReadByte r) (\<lambda>l r. unpackExt (unat l) r)"
  "unpack_lead dec opts 0xc8 r = mp_bind (read_be 2 r) unpackExt"
  "unpack_lead dec opts 0xc9 r = mp_bind (read_be 4 r) unpackExt"
  "unpack_lead dec opts 0xca r = mp_bind (read_be 4 r) (\<lambda>f r. Inr (MFloat32 (word_of_nat f), r))"
  "unpack_lead dec opts 0xcb r = mp_bind (read_be 8 r) (\<lambda>f r. Inr (MFloat64 (word_of_nat f), r))"
  "unpack_lead dec opts 0xcc r = mp_bind (ReadByte r) (\<lambda>v r. Inr (MUint (ucast v), r))"
  "unpack_lead dec opts 0xcd r = mp_bind (read_be 2 r) (\<lambda>v r. Inr (MUint (word_of_nat v), r))"
  "unpack_lead dec opts 0xce r = mp_bind (read_be 4 r) (\<lambda>v r. Inr (MUint (word_of_nat v), r))"
  "unpack_lead dec opts 0xcf r = mp_bind (read_be 8 r) (\<lambda>v r. Inr (MUint (word_of_nat v), r))"
  "unpack_lead dec opts 0xd0 r = mp_bind (ReadByte r) (\<lambda>v r. Inr (MInt (scast v), r))"
  "unpack_lead dec opts 0xd1 r = mp_bind (read_be 2 r) (\<lambda>v r. Inr (MInt (scast (word_of_nat v :: uint16)), r))"
  "unpack_lead dec opts 0xd2 r = mp_bind (read_be 4 r) (\<lambda>v r. Inr (MInt (scast (word_of_nat v :: uint32)), r))"
  "unpack_lead dec opts 0xd3 r = mp_bind (read_be 8 r) (\<lambda>v r. Inr (MInt (word_of_nat v), r))"
  "unpack_lead dec opts 0xd4 r = unpackExt 1 r" "unpack_lead dec opts 0xd5 r = unpackExt 2 r"
  "unpack_lead dec opts 0xd6 r = unpackExt 4 r" "unpack_lead dec opts 0xd7 r = unpackExt 8 r"
  "unpack_lead dec opts 0xd8 r = unpackExt 16 r"
  "unpack_lead dec opts 0xd9 r = mp_bind (ReadByte r) (\<lambda>l r. mp_bind (unpackStr (unat l) r) (\<lambda>s r. Inr (MStr s, r)))"
  "unpack_lead dec opts 0xda r = mp_bind (read_be 2 r) (\<lambda>l r. mp_bind (unpackStr l r) (\<lambda>s r. Inr (MStr s, r)))"
  "unpack_lead dec opts 0xdb r = mp_bind (read_be 4 r) (\<lambda>l r. mp_bind (unpackStr l r) (\<lambda>s r. Inr (MStr s, r)))"
  "unpack_lead dec opts 0xdc r = mp_bind (read_be 2 r) (\<lambda>l r. unpackArrayWithOptions dec l r)"
  "unpack_lead dec opts 0xdd r = mp_bind (read_be 4 r) (\<lambda>l r. unpackArrayWithOptions dec l r)"
  "unpack_lead dec opts 0xde r = mp_bind (read_be 2 r) (\<lambda>l r. unpack_map dec opts l r)"
  "unpack_lead dec opts 0xdf r = mp_bind (read_be 4 r) (\<lambda>l r. unpack_map dec opts l r)"
  by (simp_all add: unpack_lead_def)

lemma table_below: "list_all P [0..<n] \<Longrightarrow> l < n \<Longrightarrow> P l"
  by (simp add: list_all_iff)

lemma fix_lead [mp_simps]:
  "l < 16 \<Longrightarrow> unpack_lead dec opts (0x80 OR word_of_nat l) r = unpack_map dec opts l r"
  "l < 16 \<Longrightarrow> unpack_lead dec opts (0x90 OR word_of_nat l) r = unpackArrayWithOptions dec l r"
  "l < 32 \<Longrightarrow> unpack_lead dec opts (0xa0 OR word_of_nat l) r = mp_bind (unpackStr l r) (\<lambda>s r. Inr (MStr s, r))"
proof -
  have "list_all (\<lambda>l. let b = 0x80 OR word_of_nat l :: byte in \<not> b \<le> 0x7f \<and> b \<ge> 0x80 \<and> b \<le> 0x8f \<and> unat (b AND 0x0f) = l) [0..<16]"
    by code_simp
  from table_below [OF this] show "l < 16 \<Longrightarrow> unpack_lead dec opts (0x80 OR word_of_nat l) r = unpack_map dec opts l r"
    by (simp add: unpack_lead_def Let_def)
  have "list_all (\<lambda>l. let b = 0x90 OR word_of_nat l :: byte in \<not> b \<le> 0x7f \<and> \<not> b \<le> 0x8f \<and> b \<ge> 0x90 \<and> b \<le> 0x9f \<and> unat (b AND 0x0f) = l) [0..<16]"
    by code_simp
  from table_below [OF this] show "l < 16 \<Longrightarrow> unpack_lead dec opts (0x90 OR word_of_nat l) r = unpackArrayWithOptions dec l r"
    by (simp add: unpack_lead_def Let_def)
  have "list_all (\<lambda>l. let b = 0xa0 OR word_of_nat l :: byte in \<not> b \<le> 0x7f \<and> \<not> b \<le> 0x8f \<and> \<not> b \<le> 0x9f \<and> b \<ge> 0xa0 \<and> b \<le> 0xbf \<and> unat (b AND 0x1f) = l) [0..<32]"
    by code_simp
  from table_below [OF this] show "l < 32 \<Longrightarrow> unpack_lead dec opts (0xa0 OR word_of_nat l) r = mp_bind (unpackStr l r) (\<lambda>s r. Inr (MStr s, r))"
    by (simp add: unpack_lead_def Let_def)
qed

lemma unat_byte: "n < 256 \<Longrightarrow> unat (word_of_nat n :: byte) = n"
  by (simp add: unat_of_nat)

text \<open>The headers, byte by byte, as the decoder reads them.\<close>

definition reads :: "bytes \<Rightarrow> mvalue \<Rightarrow> bool" where
  "reads enc v \<longleftrightarrow> (\<exists>b hs. enc = b # hs \<and> (\<forall>dec opts r. unpack_lead dec opts b (hs @ r) = Inr (v, r)))"

lemma readsI: "(\<And>dec opts r. unpack_lead dec opts b (hs @ r) = Inr (v, r)) \<Longrightarrow> reads (b # hs) v"
  by (simp add: reads_def)

lemma packStr_reads: "length s < 2 ^ 32 \<Longrightarrow> reads (packStr s) (MStr s)"
  unfolding packStr_def Let_def by (auto intro!: readsI simp: mp_simps unat_byte)

lemma packBin_reads: "length s < 2 ^ 32 \<Longrightarrow> reads (packBin s) (MBin s)"
  unfolding packBin_def Let_def by (auto intro!: readsI simp: mp_simps unat_byte)

lemma be_enc_bytes:
  "[word_of_nat (n div 256), word_of_nat n] = be_enc 2 n"
  "[word_of_nat (n div 2 ^ 24), word_of_nat (n div 2 ^ 16), word_of_nat (n div 256), word_of_nat n] = be_enc 4 n"
proof -
  have n: "(2 :: nat) = Suc (Suc 0)" "(4 :: nat) = Suc (Suc (Suc (Suc 0)))" by simp_all
  show "[word_of_nat (n div 256), word_of_nat n] = be_enc 2 n"
    unfolding n(1) be_enc.simps by simp
  have "n div 256 div 256 = n div 2 ^ 16" "n div 256 div 256 div 256 = n div 2 ^ 24"
    by (simp_all add: div_mult2_eq [symmetric])
  then show "[word_of_nat (n div 2 ^ 24), word_of_nat (n div 2 ^ 16), word_of_nat (n div 256), word_of_nat n] = be_enc 4 n"
    unfolding n(2) be_enc.simps by simp
qed

lemma packExt_reads:
  assumes "length d < 2 ^ 32"
  shows "reads (packExt t d) (Ext t d)"
proof -
  consider "length d \<in> {1, 2, 4, 8, 16}" | "length d \<notin> {1, 2, 4, 8, 16}" "length d < 256"
    | "256 \<le> length d" "length d < 65536" | "65536 \<le> length d" by fastforce
  then show ?thesis
  proof cases
    case 1
    then show ?thesis by (auto simp: packExt_def Let_def intro!: readsI simp: mp_simps)
  next
    case 2
    then show ?thesis by (auto simp: packExt_def Let_def intro!: readsI simp: mp_simps unat_byte)
  next
    case 3
    then have "packExt t d = 0xc8 # be_enc 2 (length d) @ t # d"
      by (simp add: packExt_def Let_def be_enc_bytes(1) [symmetric])
    with 3 show ?thesis by (auto intro!: readsI simp: mp_simps)
  next
    case 4
    then have "packExt t d = 0xc9 # be_enc 4 (length d) @ t # d"
      by (simp add: packExt_def Let_def be_enc_bytes(2) [symmetric])
    with 4 assms show ?thesis by (auto intro!: readsI simp: mp_simps)
  qed
qed

lemma pos_fix_lead: "b \<le> 0x7f \<Longrightarrow> unpack_lead dec opts b r = Inr (MInt (ucast b), r)"
  by (simp add: unpack_lead_def)

lemma neg_fix_lead:
  assumes "b \<ge> 0xe0"
  shows "unpack_lead dec opts b r = Inr (MInt (scast b), r)"
proof -
  have "\<not> b \<le> k" if "k < 0xe0" for k using assms that by (meson leD order.strict_trans2 order.trans)
  then have "\<not> b \<le> 0x7f" "\<not> b \<le> 0x8f" "\<not> b \<le> 0x9f" "\<not> b \<le> 0xbf" by simp_all
  moreover have "b \<noteq> k" if "k < 0xe0" for k using assms that by auto
  ultimately show ?thesis using assms by (simp add: unpack_lead_def)
qed

lemma sint_narrow:
  "- 128 \<le> i \<Longrightarrow> i \<le> 127 \<Longrightarrow> sint (word_of_int i :: byte) = i"
  "- 32768 \<le> i \<Longrightarrow> i \<le> 32767 \<Longrightarrow> sint (word_of_int i :: uint16) = i"
  "- 2147483648 \<le> i \<Longrightarrow> i \<le> 2147483647 \<Longrightarrow> sint (word_of_int i :: uint32) = i"
  by (simp_all add: sint_sbintrunc' signed_take_bit_int_eq_self)

lemma scast_narrow:
  "- 128 \<le> i \<Longrightarrow> i \<le> 127 \<Longrightarrow> scast (word_of_int i :: byte) = (word_of_int i :: uint64)"
  "- 32768 \<le> i \<Longrightarrow> i \<le> 32767 \<Longrightarrow> scast (word_of_int i :: uint16) = (word_of_int i :: uint64)"
  "- 2147483648 \<le> i \<Longrightarrow> i \<le> 2147483647 \<Longrightarrow> scast (word_of_int i :: uint32) = (word_of_int i :: uint64)"
  by (simp_all add: scast_eq sint_narrow)

lemma packInt_reads: "reads (packInt i) (MInt (word_of_int i))"
proof -
  consider "0 \<le> i" "i \<le> 127" | "- 32 \<le> i" "i < 0" | "- 128 \<le> i" "i < - 32"
    | "- 32768 \<le> i" "i \<le> 32767" "\<not> (- 128 \<le> i \<and> i \<le> 127)"
    | "- 2147483648 \<le> i" "i \<le> 2147483647" "\<not> (- 32768 \<le> i \<and> i \<le> 32767)"
    | "\<not> (- 2147483648 \<le> i \<and> i \<le> 2147483647)" by linarith
  then show ?thesis
  proof cases
    case 1
    then have u: "uint (word_of_int i :: byte) = i" by (simp add: uint_word_of_int)
    then have "(word_of_int i :: byte) \<le> 0x7f" using 1 by (simp add: word_le_def)
    moreover have "ucast (word_of_int i :: byte) = (word_of_int i :: uint64)" by (simp add: ucast_eq u)
    ultimately show ?thesis using 1 by (auto simp: packInt_def intro!: readsI simp: pos_fix_lead)
  next
    case 2
    have "(i + 256) mod 256 = i + 256" using 2 by (intro mod_pos_pos_trivial) simp_all
    then have u: "uint (word_of_int i :: byte) = i + 256" by (simp add: uint_word_of_int)
    then have "(word_of_int i :: byte) \<ge> 0xe0" using 2 by (simp add: word_le_def)
    with 2 show ?thesis by (auto simp: packInt_def intro!: readsI simp: neg_fix_lead scast_narrow)
  next
    case 3
    then show ?thesis by (auto simp: packInt_def intro!: readsI simp: mp_simps scast_narrow)
  next
    case 4
    then show ?thesis using unat_word_less(2) [of "word_of_int i"]
      by (auto simp: packInt_def intro!: readsI simp: mp_simps scast_narrow)
  next
    case 5
    then show ?thesis using unat_word_less(3) [of "word_of_int i"]
      by (auto simp: packInt_def intro!: readsI simp: mp_simps scast_narrow)
  next
    case 6
    then show ?thesis using unat_word_less(4) [of "word_of_int i"]
      by (auto simp: packInt_def intro!: readsI simp: mp_simps)
  qed
qed

lemma packUint_reads:
  assumes "n < 2 ^ 64"
  shows "reads (packUint n) (if n \<le> 127 then MInt (word_of_nat n) else MUint (word_of_nat n))"
proof -
  have u: "ucast (word_of_nat n :: byte) = (word_of_nat n :: uint64)" if "n < 256"
    by (metis of_nat_unat unat_byte that)
  have "(word_of_nat n :: byte) \<le> 0x7f" if "n \<le> 127"
    unfolding word_le_nat_alt using unat_byte [of n] that by simp
  with u assms show ?thesis by (auto simp: packUint_def intro!: readsI simp: mp_simps pos_fix_lead)
qed

lemma array_header_reads:
  assumes "l < 2 ^ 32"
  obtains b hs where "array_header l = b # hs"
    and "\<And>dec opts r. unpack_lead dec opts b (hs @ r) = unpackArrayWithOptions dec l r"
proof -
  have "\<exists>b hs. array_header l = b # hs \<and> (\<forall>dec opts r. unpack_lead dec opts b (hs @ r) = unpackArrayWithOptions dec l r)"
    using assms by (auto simp: array_header_def mp_simps)
  then show ?thesis using that by blast
qed

lemma map_header_reads:
  assumes "l < 2 ^ 32"
  obtains b hs where "map_header l = b # hs"
    and "\<And>dec opts r. unpack_lead dec opts b (hs @ r) = unpack_map dec opts l r"
proof -
  have "\<exists>b hs. map_header l = b # hs \<and> (\<forall>dec opts r. unpack_lead dec opts b (hs @ r) = unpack_map dec opts l r)"
    using assms by (auto simp: map_header_def mp_simps)
  then show ?thesis using that by blast
qed

lemma reads_nonempty: "reads enc v \<Longrightarrow> enc \<noteq> []"
  by (auto simp: reads_def)

lemma pack_nonempty: "wire_ok v \<Longrightarrow> pack srt v \<noteq> []"
  using packInt_reads [THEN reads_nonempty] packUint_reads [THEN reads_nonempty] packStr_reads [THEN reads_nonempty]
    packBin_reads [THEN reads_nonempty] packExt_reads [THEN reads_nonempty]
  by (cases v) (use unat_word_less(4) in \<open>auto simp: array_header_def map_header_def packMap_def\<close>)

lemma elems_length: "list_all wire_ok xs \<Longrightarrow> length xs \<le> length (concat (map (pack False) xs))"
proof (induction xs)
  case (Cons x xs)
  then show ?case using pack_nonempty [of x False] by (cases "pack False x") auto
qed simp

lemma entries_length:
  "list_all (\<lambda>e. \<not> is_map (fst e) \<and> wire_ok (fst e) \<and> wire_ok (snd e)) es \<Longrightarrow>
     2 * length es \<le> length (concat (map (\<lambda>e. pack False (fst e) @ pack False (snd e)) es))"
proof (induction es)
  case (Cons e es)
  then show ?case using pack_nonempty [of "fst e" False] pack_nonempty [of "snd e" False]
    by (cases "pack False (fst e)"; cases "pack False (snd e)") auto
qed simp

lemma map_key_ordered: "\<not> is_map k \<Longrightarrow> map_key ordered_options k = Inr (decoded_key k)"
  by (cases k) (auto simp: map_key_def ordered_options_def decoded_key_def)

lemma is_map_decoded: "is_map (decoded v) = is_map v"
  by (cases v) auto

lemma unpack_elems_pack:
  assumes "\<And>x r. x \<in> set xs \<Longrightarrow> dec (pack False x @ r) = Inr (decoded x, r)"
  shows "unpack_elems dec (length xs) (concat (map (pack False) xs) @ r) = Inr (map decoded xs, r)"
  using assms by (induction xs) (simp_all add: mp_simps)

lemma unpack_entries_pack:
  assumes "\<And>e r. e \<in> set es \<Longrightarrow> dec (pack False (fst e) @ r) = Inr (decoded (fst e), r)"
    and "\<And>e r. e \<in> set es \<Longrightarrow> dec (pack False (snd e) @ r) = Inr (decoded (snd e), r)"
    and "list_all (\<lambda>e. \<not> is_map (fst e) \<and> wire_ok (fst e) \<and> wire_ok (snd e)) es"
  shows "unpack_entries dec ordered_options (length es) (concat (map (\<lambda>e. pack False (fst e) @ pack False (snd e)) es) @ r)
    = Inr (map (\<lambda>e. (decoded_key (decoded (fst e)), decoded (snd e))) es, r)"
  using assms by (induction es) (simp_all add: mp_simps map_key_ordered is_map_decoded)

lemma reads_unpack: "reads enc v \<Longrightarrow> length enc \<le> fuel \<Longrightarrow> unpackWithOptions fuel opts (enc @ r) = Inr (v, r)"
  by (cases fuel) (auto simp: reads_def mp_simps)

lemma part_length: "x \<in> set xs \<Longrightarrow> length (f x) \<le> length (concat (map f xs))"
  by (induction xs) auto

lemma unpack_map_pack:
  assumes es: "list_all (\<lambda>e. \<not> is_map (fst e) \<and> wire_ok (fst e) \<and> wire_ok (snd e)) es" "length es < 2 ^ 32"
    and dec: "\<And>e fuel r. e \<in> set es \<Longrightarrow> length (pack False (fst e)) \<le> fuel \<Longrightarrow>
        unpackWithOptions fuel ordered_options (pack False (fst e) @ r) = Inr (decoded (fst e), r)"
      "\<And>e fuel r. e \<in> set es \<Longrightarrow> length (pack False (snd e)) \<le> fuel \<Longrightarrow>
        unpackWithOptions fuel ordered_options (pack False (snd e) @ r) = Inr (decoded (snd e), r)"
    and fuel: "length (pack False (OrderedMap es)) \<le> fuel"
  shows "unpackWithOptions fuel ordered_options (pack False (OrderedMap es) @ r) = Inr (decoded (OrderedMap es), r)"
proof -
  let ?f = "\<lambda>e. pack False (fst e) @ pack False (snd e)"
  let ?body = "concat (map ?f es)"
  obtain b hs where h: "map_header (length es) = b # hs"
      "\<And>dec opts r. unpack_lead dec opts b (hs @ r) = unpack_map dec opts (length es) r"
    using map_header_reads [OF es(2)] by blast
  then obtain f where f: "fuel = Suc f" "length ?body \<le> f" using fuel by (cases fuel) simp_all
  have "unpackWithOptions f ordered_options (pack False (fst e) @ r) = Inr (decoded (fst e), r)" if "e \<in> set es" for e r
    using part_length [OF that, of ?f] f(2) by (intro dec(1) [OF that]) simp
  moreover have "unpackWithOptions f ordered_options (pack False (snd e) @ r) = Inr (decoded (snd e), r)" if "e \<in> set es" for e r
    using part_length [OF that, of ?f] f(2) by (intro dec(2) [OF that]) simp
  ultimately have "unpack_entries (unpackWithOptions f ordered_options) ordered_options (length es) (?body @ r)
      = Inr (map (\<lambda>e. (decoded_key (decoded (fst e)), decoded (snd e))) es, r)"
    by (rule unpack_entries_pack [OF _ _ es(1)])
  moreover have "\<not> length es > length (?body @ r) div 2" using entries_length [OF es(1)] by simp
  ultimately show ?thesis
    by (simp add: f(1) h mp_simps unpack_map_def unpackOrderedMapWithOptions_def ordered_options_def)
qed

lemma pack_MMap_unsorted: "pack False (MMap es) = pack False (OrderedMap es)"
  by (simp add: Let_def comp_def)

lemma unpack_pack_fuel:
  "wire_ok v \<Longrightarrow> length (pack False v) \<le> fuel \<Longrightarrow>
     unpackWithOptions fuel ordered_options (pack False v @ r) = Inr (decoded v, r)"
proof (induction v arbitrary: fuel r rule: decoded.induct [case_names c1 c2 c3 c4 c5 c6 c7 nil bool int f64 str bin ext ckey])
  case (c1 i)
  have "reads (packUint (unat i)) (decoded (MUint i))"
    using packUint_reads [of "unat i"] unat_word_less(4) [of i] by (simp split: if_splits)
  then show ?case using c1 by (simp add: reads_unpack del: decoded.simps)
next
  case (c2 f)
  have "reads (0xca # be_enc 4 (unat (float32_bits f))) (MFloat32 (float32_bits f))"
    by (rule readsI) (use unat_word_less(3) in \<open>simp add: mp_simps\<close>)
  then show ?case using c2 by (simp add: reads_unpack del: append.simps)
next
  case (c3 xs)
  then have xs: "list_all wire_ok xs" "length xs < 2 ^ 32" by simp_all
  let ?body = "concat (map (pack False) xs)"
  obtain b hs where h: "array_header (length xs) = b # hs"
      "\<And>dec opts r. unpack_lead dec opts b (hs @ r) = unpackArrayWithOptions dec (length xs) r"
    using array_header_reads [OF xs(2)] by blast
  then obtain f where f: "fuel = Suc f" "length ?body \<le> f" using c3(3) by (cases fuel) simp_all
  have "unpackWithOptions f ordered_options (pack False x @ r) = Inr (decoded x, r)" if "x \<in> set xs" for x r
    using part_length [OF that, of "pack False"] f(2) xs(1) that by (intro c3.IH) (auto simp: list_all_iff)
  then have "unpack_elems (unpackWithOptions f ordered_options) (length xs) (?body @ r) = Inr (map decoded xs, r)"
    by (rule unpack_elems_pack)
  moreover have "\<not> length xs > length (?body @ r)" using elems_length [OF xs(1)] by simp
  ultimately show ?case by (simp add: f(1) h mp_simps unpackArrayWithOptions_def)
next
  case (c4 es)
  then have es: "list_all (\<lambda>e. \<not> is_map (fst e) \<and> wire_ok (fst e) \<and> wire_ok (snd e)) es" "length es < 2 ^ 32" by simp_all
  show ?case unfolding pack_MMap_unsorted decoded.simps(4) decoded.simps(5) [symmetric]
    by (rule unpack_map_pack [OF es]) (use c4 es in \<open>auto simp: list_all_iff pack_MMap_unsorted simp del: pack.simps\<close>)
next
  case (c5 es)
  then have es: "list_all (\<lambda>e. \<not> is_map (fst e) \<and> wire_ok (fst e) \<and> wire_ok (snd e)) es" "length es < 2 ^ 32" by simp_all
  show ?case by (rule unpack_map_pack [OF es]) (use c5 es in \<open>auto simp: list_all_iff simp del: pack.simps\<close>)
next
  case (c6 s)
  then show ?case using packStr_reads [of s] by (simp add: reads_unpack)
next
  case (c7 t d)
  then show ?case using packExt_reads [of d t] by (simp add: reads_unpack)
next
  case (int i)
  then show ?case using packInt_reads [of "sint i"] by (simp add: reads_unpack)
next
  case (f64 f)
  have "reads (0xcb # be_enc 8 (unat f)) (MFloat64 f)"
    by (rule readsI) (use unat_word_less(4) in \<open>simp add: mp_simps\<close>)
  then show ?case using f64 by (simp add: reads_unpack del: append.simps)
next
  case nil
  have "reads [nilVal] MNil" by (rule readsI) (simp add: mp_simps)
  then show ?case using nil by (simp add: reads_unpack del: append.simps)
next
  case (bool b)
  have "reads [if b then trueVal else falseVal] (MBool b)" by (rule readsI) (simp add: mp_simps)
  then show ?case using bool by (simp add: reads_unpack del: append.simps)
next
  case (str s)
  then show ?case using packStr_reads [of s] by (simp add: reads_unpack)
next
  case (bin s)
  then show ?case using packBin_reads [of s] by (simp add: reads_unpack)
next
  case (ext t d)
  then show ?case using packExt_reads [of d t] by (simp add: reads_unpack)
qed simp

section \<open>Packing a decoded value again\<close>

text \<open>No map in the value has a binary key; such a key comes back as \<open>binaryMapKey\<close>, which packs as a string.\<close>

fun no_bin_keys :: "mvalue \<Rightarrow> bool" where
  "no_bin_keys (MArray xs) = list_all no_bin_keys xs"
| "no_bin_keys (MMap es) =
     list_all (\<lambda>e. (case fst e of MBin _ \<Rightarrow> False | _ \<Rightarrow> True) \<and> no_bin_keys (fst e) \<and> no_bin_keys (snd e)) es"
| "no_bin_keys (OrderedMap es) =
     list_all (\<lambda>e. (case fst e of MBin _ \<Rightarrow> False | _ \<Rightarrow> True) \<and> no_bin_keys (fst e) \<and> no_bin_keys (snd e)) es"
| "no_bin_keys _ = True"

lemma float32_bits_idem: "float32_bits (float32_bits f) = float32_bits f"
proof -
  have "(f OR 0x00400000) OR 0x00400000 = f OR 0x00400000" by simp
  then show ?thesis by (simp add: float32_bits_def)
qed

lemma small_uint_as_int:
  fixes i :: uint64
  assumes "unat i \<le> 127"
  shows "packInt (sint i) = packUint (unat i)"
proof -
  have small: "sint (word_of_int k :: uint64) = k" if "0 \<le> k" "k \<le> 127" for k
    using that by (simp add: sint_sbintrunc' signed_take_bit_int_eq_self)
  have "int (unat i) \<le> 127" using assms by linarith
  then have "sint (word_of_int (int (unat i)) :: uint64) = int (unat i)" by (intro small) simp_all
  then have "sint i = int (unat i)" by simp
  moreover have "packInt (int n) = packUint n" if "n \<le> 127" for n
    using that by (simp add: packInt_def packUint_def)
  ultimately show ?thesis using assms by (simp only:)
qed

lemma pack_decoded_key:
  assumes "\<And>srt. pack srt (decoded k) = pack False k" and "case k of MBin _ \<Rightarrow> False | _ \<Rightarrow> True"
  shows "pack False (decoded_key (decoded k)) = pack False k"
proof (cases "decoded k")
  case (MBin b)
  with assms(2) show ?thesis by (cases k) (auto split: if_splits)
next
  case (MArray xs)
  then show ?thesis using assms(1) [of True] by (simp add: decoded_key_def PackSorted_def)
next
  case (Ext t d)
  then show ?thesis using assms(1) [of False] by (simp add: decoded_key_def)
qed (use assms(1) [of False] in \<open>simp_all add: decoded_key_def\<close>)

lemma pack_decoded: "no_bin_keys v \<Longrightarrow> pack srt (decoded v) = pack False v"
proof (induction v arbitrary: srt rule: decoded.induct)
  case (1 i)
  then show ?case by (simp add: small_uint_as_int)
next
  case (2 f)
  then show ?case by (simp add: float32_bits_idem)
next
  case (3 xs)
  then have "map (pack srt \<circ> decoded) xs = map (pack False) xs" by (auto simp: list_all_iff)
  then show ?case by (simp only: decoded.simps pack.simps list.map_comp length_map)
next
  case (4 es)
  then have "concat (map (\<lambda>e. pack False (decoded_key (decoded (fst e))) @ pack False (decoded (snd e))) es)
      = concat (map (\<lambda>e. pack False (fst e) @ pack False (snd e)) es)"
    by (intro arg_cong [where f = concat] map_cong) (auto simp: list_all_iff pack_decoded_key)
  then show ?case by (simp add: Let_def comp_def)
next
  case (5 es)
  then have "concat (map (\<lambda>e. pack False (decoded_key (decoded (fst e))) @ pack False (decoded (snd e))) es)
      = concat (map (\<lambda>e. pack False (fst e) @ pack False (snd e)) es)"
    by (intro arg_cong [where f = concat] map_cong) (auto simp: list_all_iff pack_decoded_key)
  then show ?case by (simp add: comp_def)
qed simp_all

text \<open>
  C32: What \<^verbatim>\<open>Pack\<close> writes, the strict order-preserving decoder reads back: the same value, with
  small unsigned integers signed, maps in entry order and keys in their hashable form, and nothing
  left over. Packing the decoded value again gives the same bytes, unless a map had a binary key.
\<close>

theorem msgpack_roundtrip:
  assumes "wire_ok v"
  shows "UnpackStrictPreserveBinMapKeyOrder (msgpack_Pack v) = Inr (decoded v) \<and> (no_bin_keys v \<longrightarrow> msgpack_Pack (decoded v) = msgpack_Pack v)"
proof
  have "unpack_value ordered_options (msgpack_Pack v) = Inr (decoded v, [])"
    using unpack_pack_fuel [OF assms, of "Suc (length (msgpack_Pack v))" "[]"] by (simp add: unpack_value_def msgpack_Pack_def)
  then show "UnpackStrictPreserveBinMapKeyOrder (msgpack_Pack v) = Inr (decoded v)"
    by (simp add: UnpackStrictPreserveBinMapKeyOrder_def strict_result_def ordered_options_def)
  show "no_bin_keys v \<longrightarrow> msgpack_Pack (decoded v) = msgpack_Pack v" by (simp add: msgpack_Pack_def pack_decoded)
qed

theorem msgpack_roundtrip_witness:
  "UnpackStrictPreserveBinMapKeyOrder (msgpack_Pack (MMap [(MStr [0x61], MUint 300), (MArray [MUint 5], MArray [MNil, MBool True])]))
     = Inr (OrderedMap [(MStr [0x61], MUint 300), (collectionMapKey [0x91, 5], MArray [MNil, MBool True])])"
proof -
  have "packInt 5 = [5]" by (simp add: packInt_def)
  then show ?thesis
    using msgpack_roundtrip [of "MMap [(MStr [0x61], MUint 300), (MArray [MUint 5], MArray [MNil, MBool True])]"]
    by (simp add: decoded_key_def PackSorted_def packArray_def array_header_def)
qed

section \<open>Sorted packing\<close>

text \<open>Two iterations over the same Go value: the entries of its maps may be visited in any order.\<close>

inductive same_value :: "mvalue \<Rightarrow> mvalue \<Rightarrow> bool" where
  same_refl: "same_value v v"
| same_array: "list_all2 same_value xs ys \<Longrightarrow> same_value (MArray xs) (MArray ys)"
| same_map: "list_all2 (\<lambda>e f. same_value (fst e) (fst f) \<and> same_value (snd e) (snd f)) es fs' \<Longrightarrow>
    mset fs' = mset fs \<Longrightarrow> same_value (MMap es) (MMap fs)"
  monos list_all2_mono

text \<open>The keys of every map have different encodings.\<close>

fun distinct_keys :: "mvalue \<Rightarrow> bool" where
  "distinct_keys (MArray xs) = list_all distinct_keys xs"
| "distinct_keys (MMap es) =
     (distinct (map (\<lambda>e. PackSorted (fst e)) es) \<and> list_all (\<lambda>e. distinct_keys (fst e) \<and> distinct_keys (snd e)) es)"
| "distinct_keys _ = True"

lemma filter_key_unique:
  "distinct (map f xs) \<Longrightarrow> x \<in> set xs \<Longrightarrow> filter (\<lambda>y. f x = f y) xs = [x]"
proof (induction xs)
  case (Cons y ys)
  show ?case
  proof (cases "x = y")
    case True
    with Cons.prems have "filter (\<lambda>z. f x = f z) ys = []" by (auto simp: filter_empty_conv)
    with True show ?thesis by simp
  next
    case False
    with Cons.prems have "x \<in> set ys" "f x \<noteq> f y" by (auto simp: image_iff)
    with Cons show ?thesis by simp
  qed
qed simp

lemma sort_key_permuted:
  assumes m: "mset xs = mset ys" and d: "distinct (map f xs)"
  shows "sort_key f xs = sort_key f ys"
proof (rule properties_for_sort_key)
  have "mset (map f xs) = mset (map f ys)" using m by simp
  then have dy: "distinct (map f ys)" using d by (metis mset_eq_imp_distinct_iff)
  then have ds: "distinct (map f (sort_key f ys))" by (metis mset_eq_imp_distinct_iff mset_map mset_sort)
  fix k
  assume k: "k \<in> set (sort_key f ys)"
  with m have "k \<in> set xs" using mset_eq_setD by fastforce
  with d filter_key_unique [OF ds k] show "filter (\<lambda>x. f k = f x) (sort_key f ys) = filter (\<lambda>x. f k = f x) xs"
    by (simp add: filter_key_unique)
qed (use m in simp_all)

text \<open>
  \<^verbatim>\<open>PackSorted\<close> is deterministic: however the maps of a value are iterated, it gives the same bytes,
  provided that no two keys of one map have the same encoding.
\<close>

theorem pack_sorted_deterministic:
  assumes "same_value v w" and "distinct_keys v"
  shows "PackSorted v = PackSorted w"
  using assms
proof (induction rule: same_value.induct)
  case (same_refl v)
  show ?case by simp
next
  case (same_array xs ys)
  then have "map (pack True) xs = map (pack True) ys" and "length xs = length ys"
    by (auto simp: list_all2_conv_all_nth list_all_length PackSorted_def intro: nth_equalityI)
  then show ?case by (simp only: PackSorted_def pack.simps)
next
  case (same_map es fs' fs)
  let ?enc = "map (\<lambda>e. (pack True (fst e), pack True (snd e)))"
  have es: "?enc es = ?enc fs'" and l: "length es = length fs"
    using same_map by (auto simp: list_all2_conv_all_nth list_all_length PackSorted_def intro: nth_equalityI dest: mset_eq_length)
  have "mset (?enc es) = mset (?enc fs)" unfolding es using same_map.hyps by simp
  moreover have "distinct (map fst (?enc es))" using same_map.prems by (simp add: comp_def PackSorted_def)
  ultimately have "sortMapKeys (?enc es) = sortMapKeys (?enc fs)" unfolding sortMapKeys_def by (rule sort_key_permuted)
  then show ?case by (simp add: PackSorted_def Let_def l)
qed

theorem pack_sorted_deterministic_witness:
  "PackSorted (MMap [(MStr [0x62], MNil), (MStr [0x61], MBool True)]) = PackSorted (MMap [(MStr [0x61], MBool True), (MStr [0x62], MNil)])"
proof (rule pack_sorted_deterministic)
  show "same_value (MMap [(MStr [0x62], MNil), (MStr [0x61], MBool True)]) (MMap [(MStr [0x61], MBool True), (MStr [0x62], MNil)])"
    by (rule same_map [where fs' = "[(MStr [0x62], MNil), (MStr [0x61], MBool True)]"]) (auto intro: same_refl)
qed (simp add: PackSorted_def packStr_def)

text \<open>
  The proviso is needed. A map that decodes from two integer keys of the same value, one signed
  and one unsigned, packs to different bytes depending on the iteration order: the stable sort keeps
  entries with equal encodings in the order the iteration produced them.
\<close>

theorem equal_encodings_keep_iteration_order:
  "\<exists>es. msgpack_Unpack [0x82, 0x05, 0xc0, 0xcc, 0x05, 0xc3] = Inr (MMap es) \<and> same_value (MMap es) (MMap (rev es))
     \<and> PackSorted (MMap es) = [0x82, 0x05, 0xc0, 0x05, 0xc3] \<and> PackSorted (MMap (rev es)) = [0x82, 0x05, 0xc3, 0x05, 0xc0]"
proof (intro exI conjI)
  let ?es = "[(MInt 5, MNil), (MUint 5, MBool True)]"
  show "msgpack_Unpack [0x82, 0x05, 0xc0, 0xcc, 0x05, 0xc3] = Inr (MMap ?es)" by code_simp
  show "same_value (MMap ?es) (MMap (rev ?es))"
    by (rule same_map [where fs' = ?es]) (auto intro: same_refl)
  show "PackSorted (MMap ?es) = [0x82, 0x05, 0xc0, 0x05, 0xc3]"
    by (simp add: PackSorted_def packMap_def sortMapKeys_def map_header_def packInt_def packUint_def)
  show "PackSorted (MMap (rev ?es)) = [0x82, 0x05, 0xc3, 0x05, 0xc0]"
    by (simp add: PackSorted_def packMap_def sortMapKeys_def map_header_def packInt_def packUint_def)
qed

end
