(* ===== verification/MsgpackMaps.thy ===== *)
theory MsgpackMaps
  imports Msgpack
begin

text \<open>
  Reading packed records back with \<^verbatim>\<open>msgpack.Unpack\<close>, as the callers of the package do: values whose maps
  have distinct string keys come back as they were packed, up to the sign of small unsigned integers
  and the rounding of signalling NaNs. \<open>map_get\<close> is the Go expression \<^verbatim>\<open>m["key"]\<close> on a decoded map.
\<close>

definition utf8 :: "string \<Rightarrow> bytes" where
  "utf8 s = map of_char s"

fun map_get :: "bytes \<Rightarrow> (mvalue \<times> mvalue) list \<Rightarrow> mvalue option" where
  "map_get k [] = None"
| "map_get k (e # es) = (if fst e = MStr k then Some (snd e) else map_get k es)"

text \<open>Values whose maps have distinct string keys, and what comes back.\<close>

fun is_str :: "mvalue \<Rightarrow> bool" where
  "is_str (MStr _) = True"
| "is_str _ = False"

fun record_like :: "mvalue \<Rightarrow> bool" where
  "record_like (MArray xs) = list_all record_like xs"
| "record_like (MMap es) = (distinct (map fst es) \<and> list_all (\<lambda>e. is_str (fst e) \<and> record_like (snd e)) es)"
| "record_like (OrderedMap es) = False"
| "record_like v = True"

fun narrowed :: "mvalue \<Rightarrow> mvalue" where
  "narrowed (MArray xs) = MArray (map narrowed xs)"
| "narrowed (MMap es) = MMap (map (\<lambda>e. (fst e, narrowed (snd e))) es)"
| "narrowed (OrderedMap es) = OrderedMap es"
| "narrowed v = decoded v"

lemma scalar_reads:
  assumes "wire_ok v" and "\<not> is_map v" and "\<And>xs. v \<noteq> MArray xs"
  shows "reads (pack False v) (narrowed v)"
proof (cases v)
  case MNil
  then show ?thesis by (auto intro!: readsI simp: mp_simps)
next
  case (MBool b)
  then show ?thesis by (auto intro!: readsI simp: mp_simps)
next
  case (MInt i)
  then show ?thesis using packInt_reads [of "sint i"] by simp
next
  case (MUint i)
  then show ?thesis using packUint_reads [of "unat i"] unat_word_less(4) [of i] by (simp split: if_splits)
next
  case (MFloat32 f)
  then show ?thesis by (auto intro!: readsI simp: mp_simps unat_word_less(3))
next
  case (MFloat64 f)
  then show ?thesis by (auto intro!: readsI simp: mp_simps unat_word_less(4))
qed (use assms packStr_reads packBin_reads packExt_reads in auto)

lemma map_store_new: "k \<notin> set (map fst es) \<Longrightarrow> is_str k \<Longrightarrow> map_store k v es = es @ [(k, v)]"
  by (induction es) (auto elim!: is_str.elims key_eq.elims)

lemma map_build_distinct:
  "distinct (map fst (acc @ es)) \<Longrightarrow> list_all (\<lambda>e. is_str (fst e)) es \<Longrightarrow>
     foldl (\<lambda>m (k, v). map_store k v m) acc es = acc @ es"
  by (induction es arbitrary: acc) (auto simp: map_store_new)

lemma map_key_str: "is_str k \<Longrightarrow> map_key opts k = Inr k"
  by (cases k) (auto simp: map_key_def is_str_or_bin_def)

lemma unpack_elems_record:
  assumes "\<And>x r. x \<in> set xs \<Longrightarrow> dec (pack False x @ r) = Inr (narrowed x, r)"
  shows "unpack_elems dec (length xs) (concat (map (pack False) xs) @ r) = Inr (map narrowed xs, r)"
  using assms by (induction xs) (simp_all add: mp_simps)

lemma unpack_entries_record:
  assumes "\<And>e r. e \<in> set es \<Longrightarrow> dec (pack False (fst e) @ r) = Inr (fst e, r)"
    and "\<And>e r. e \<in> set es \<Longrightarrow> dec (pack False (snd e) @ r) = Inr (narrowed (snd e), r)"
    and "list_all (\<lambda>e. is_str (fst e)) es"
  shows "unpack_entries dec opts (length es) (concat (map (\<lambda>e. pack False (fst e) @ pack False (snd e)) es) @ r)
    = Inr (map (\<lambda>e. (fst e, narrowed (snd e))) es, r)"
  using assms by (induction es) (simp_all add: mp_simps map_key_str)

lemma str_scalar: "is_str k \<Longrightarrow> \<not> is_map k \<and> (\<forall>xs. k \<noteq> MArray xs) \<and> narrowed k = k"
  by (cases k) auto

lemma unpack_map_record:
  assumes es: "distinct (map fst es)" "list_all (\<lambda>e. is_str (fst e) \<and> wire_ok (fst e) \<and> wire_ok (snd e)) es" "length es < 2 ^ 32"
    and dec: "\<And>e fuel r. e \<in> set es \<Longrightarrow> length (pack False (snd e)) \<le> fuel \<Longrightarrow>
        unpackWithOptions fuel opts (pack False (snd e) @ r) = Inr (narrowed (snd e), r)"
    and fuel: "length (pack False (MMap es)) \<le> fuel" and opts: "\<not> orderedMap opts"
  shows "unpackWithOptions fuel opts (pack False (MMap es) @ r) = Inr (narrowed (MMap es), r)"
proof -
  let ?f = "\<lambda>e. pack False (fst e) @ pack False (snd e)"
  let ?body = "concat (map ?f es)"
  have ok: "list_all (\<lambda>e. \<not> is_map (fst e) \<and> wire_ok (fst e) \<and> wire_ok (snd e)) es" using es(2) str_scalar by (auto simp: list_all_iff)
  have pk: "pack False (MMap es) = map_header (length es) @ ?body" by (simp add: packMap_def Let_def comp_def)
  obtain b hs where h: "map_header (length es) = b # hs"
      "\<And>dec opts r. unpack_lead dec opts b (hs @ r) = unpack_map dec opts (length es) r"
    using map_header_reads [OF es(3)] by blast
  then obtain f where f: "fuel = Suc f" "length ?body \<le> f" using fuel pk by (cases fuel) simp_all
  have "unpackWithOptions f opts (pack False (fst e) @ r) = Inr (fst e, r)" if "e \<in> set es" for e r
  proof -
    have "is_str (fst e)" "wire_ok (fst e)" using es(2) that by (auto simp: list_all_iff)
    then have "reads (pack False (fst e)) (fst e)" using scalar_reads [of "fst e"] str_scalar by metis
    then show ?thesis using part_length [OF that, of ?f] f(2) by (intro reads_unpack) auto
  qed
  moreover have "unpackWithOptions f opts (pack False (snd e) @ r) = Inr (narrowed (snd e), r)" if "e \<in> set es" for e r
    using part_length [OF that, of ?f] f(2) by (intro dec [OF that]) simp
  ultimately have "unpack_entries (unpackWithOptions f opts) opts (length es) (?body @ r)
      = Inr (map (\<lambda>e. (fst e, narrowed (snd e))) es, r)"
    using es(2) by (intro unpack_entries_record) (auto simp: list_all_iff)
  moreover have "\<not> length es > length (?body @ r) div 2" using entries_length [OF ok] by simp
  moreover have "foldl (\<lambda>m (k, v). map_store k v m) [] (map (\<lambda>e. (fst e, narrowed (snd e))) es) = map (\<lambda>e. (fst e, narrowed (snd e))) es"
    using es(1,2) map_build_distinct [of "[]" "map (\<lambda>e. (fst e, narrowed (snd e))) es"] by (auto simp: comp_def list_all_iff)
  ultimately show ?thesis
    unfolding pk using opts by (simp add: f(1) h mp_simps unpack_map_def unpackMapWithOptions_def)
qed

lemma unpack_record_fuel:
  "wire_ok v \<Longrightarrow> record_like v \<Longrightarrow> length (pack False v) \<le> fuel \<Longrightarrow> \<not> orderedMap opts \<Longrightarrow>
     unpackWithOptions fuel opts (pack False v @ r) = Inr (narrowed v, r)"
proof (induction v arbitrary: fuel r)
  case (MArray xs)
  then have xs: "list_all wire_ok xs" "length xs < 2 ^ 32" by simp_all
  let ?body = "concat (map (pack False) xs)"
  obtain b hs where h: "array_header (length xs) = b # hs"
      "\<And>dec opts r. unpack_lead dec opts b (hs @ r) = unpackArrayWithOptions dec (length xs) r"
    using array_header_reads [OF xs(2)] by blast
  then obtain f where f: "fuel = Suc f" "length ?body \<le> f" using MArray.prems(3) by (cases fuel) simp_all
  have "unpackWithOptions f opts (pack False x @ r) = Inr (narrowed x, r)" if "x \<in> set xs" for x r
    using part_length [OF that, of "pack False"] f(2) MArray.prems that by (intro MArray.IH) (auto simp: list_all_iff)
  then have "unpack_elems (unpackWithOptions f opts) (length xs) (?body @ r) = Inr (map narrowed xs, r)"
    by (rule unpack_elems_record)
  moreover have "\<not> length xs > length (?body @ r)" using elems_length [OF xs(1)] by simp
  ultimately show ?case by (simp add: f(1) h mp_simps unpackArrayWithOptions_def)
next
  case (MMap es)
  have "unpackWithOptions fl opts (pack False (snd e) @ rs) = Inr (narrowed (snd e), rs)"
    if "e \<in> set es" "length (pack False (snd e)) \<le> fl" for e fl rs
    using MMap.prems that by (intro MMap.IH [of e "snd e"]) (auto simp: list_all_iff snds.simps)
  then show ?case using MMap.prems by (intro unpack_map_record) (auto simp: list_all_iff)
next
  case (OrderedMap es)
  then show ?case by simp
qed (rule reads_unpack [OF scalar_reads]; simp del: pack.simps narrowed.simps)+

lemma unpack_record:
  assumes "wire_ok v" and "record_like v"
  shows "msgpack_Unpack (msgpack_Pack v) = Inr (narrowed v)"
  using unpack_record_fuel [OF assms, of "Suc (length (msgpack_Pack v))" _ "[]"]
  by (simp add: msgpack_Unpack_def unpack_value_def msgpack_Pack_def)

lemma unpack_record_bin:
  assumes "wire_ok v" and "record_like v"
  shows "UnpackPreserveBinMapKeys (msgpack_Pack v) = Inr (narrowed v)"
  using unpack_record_fuel [OF assms, of "Suc (length (msgpack_Pack v))" _ "[]"]
  by (simp add: UnpackPreserveBinMapKeys_def unpack_value_def msgpack_Pack_def)

end
