(* ===== verification/Destination.thy ===== *)
theory Destination
  imports Identity MsgpackMaps
begin

text \<open>
  Destinations (\<^verbatim>\<open>rns/destination.go\<close>): names and hashes, announces, ratchets and their file,
  encryption and decryption, the reception of packets and request handlers.

  Strings are byte strings. A time is a number of nanoseconds since the Unix epoch, and every operation
  reads the clock once. Files are a map from paths to contents with the faults that writing, reading and
  renaming may have; a failed write may leave any contents behind. Locks and log messages are left out.
\<close>

section \<open>Names and hashes\<close>

abbreviation (input) ProveNone :: int where "ProveNone \<equiv> 0x21"
abbreviation (input) ProveApp :: int where "ProveApp \<equiv> 0x22"
abbreviation (input) ProveAll :: int where "ProveAll \<equiv> 0x23"
abbreviation (input) AllowNone :: int where "AllowNone \<equiv> 0x00"
abbreviation (input) AllowAll :: int where "AllowAll \<equiv> 0x01"
abbreviation (input) AllowList :: int where "AllowList \<equiv> 0x02"
abbreviation (input) DestinationIn :: int where "DestinationIn \<equiv> 0x11"
abbreviation (input) DestinationOut :: int where "DestinationOut \<equiv> 0x12"
abbreviation (input) ContextPathResponse :: int where "ContextPathResponse \<equiv> 0x0b"

definition hex_digit :: "byte \<Rightarrow> byte" where
  "hex_digit n = (if n < 10 then 0x30 + n else 0x61 + (n - 10))"

definition hex_bytes :: "bytes \<Rightarrow> bytes" where
  "hex_bytes bs = concat (map (\<lambda>b. [hex_digit (drop_bit 4 b), hex_digit (b AND 0x0f)]) bs)"

abbreviation (input) HexHash :: "identity \<Rightarrow> bytes" where
  "HexHash i \<equiv> hex_bytes (id_Hash i)"

definition ExpandName :: "identity option \<Rightarrow> bytes \<Rightarrow> bytes list \<Rightarrow> bytes" where
  "ExpandName ident appName aspects =
     appName @ concat (map (\<lambda>aspect. 0x2e # aspect) aspects) @ (case ident of None \<Rightarrow> [] | Some i \<Rightarrow> 0x2e # HexHash i)"

definition CalculateHash :: "identity option \<Rightarrow> bytes \<Rightarrow> bytes list \<Rightarrow> bytes" where
  "CalculateHash ident appName aspects =
     (let nameHash = take (NameHashLength div 8) (FullHash (ExpandName None appName aspects));
          material = (case ident of None \<Rightarrow> nameHash | Some i \<Rightarrow> nameHash @ id_Hash i)
      in take dstLen (FullHash material))"

text \<open>\<^verbatim>\<open>strings.Split(s, ".")\<close>: never empty.\<close>

fun split_dots :: "bytes \<Rightarrow> bytes list" where
  "split_dots [] = [[]]"
| "split_dots (b # bs) = (if b = 0x2e then [] # split_dots bs else (b # hd (split_dots bs)) # tl (split_dots bs))"

definition AppAndAspectsFromName :: "bytes \<Rightarrow> bytes \<times> bytes list" where
  "AppAndAspectsFromName fullName = (let components = split_dots fullName in (hd components, tl components))"

definition HashFromNameAndIdentity :: "bytes \<Rightarrow> identity option \<Rightarrow> bytes" where
  "HashFromNameAndIdentity fullName ident =
     (case AppAndAspectsFromName fullName of (appName, aspects) \<Rightarrow> CalculateHash ident appName aspects)"

section \<open>The destination\<close>

record request_handler =
  rh_Path :: bytes
  rh_ResponseGenerator :: "bytes \<Rightarrow> mvalue \<Rightarrow> bytes \<Rightarrow> bytes \<Rightarrow> identity option \<Rightarrow> rat \<Rightarrow> mvalue"
  rh_Allow :: int
  rh_AllowedList :: "bytes list"
  rh_AutoCompress :: bool
  rh_AutoCompressLimit :: int

record destination =
  d_identity :: "identity option"
  d_direction :: int
  d_Type :: int
  d_appName :: bytes
  d_aspects :: "bytes list"
  d_Hash :: bytes
  d_name :: bytes
  d_nameHash :: bytes
  d_linkEstablished :: bool
  d_packetCallback :: bool
  d_proofRequested :: "(packet \<Rightarrow> bool) option"
  d_proofStrategy :: int
  d_acceptLinkRequests :: bool
  d_transport :: bool
  d_requestHandlers :: "bytes \<rightharpoonup> request_handler"
  d_maxRequestSize :: int
  d_ratchets :: "bytes list option"
  d_ratchetsPath :: bytes
  d_ratchetInterval :: int
  d_latestRatchetTime :: int
  d_latestRatchetID :: "bytes option"
  d_enforceRatchets :: bool
  d_retainedRatchets :: int
  d_defaultAppData :: "bytes option"

datatype dest_error =
    DotsInAppName
  | DotsInAspects
  | OutboundNeedsIdentity
  | PlainHoldsNoIdentity
  | OnlySingleAnnounced
  | OnlyInAnnounced
  | NoRatchetPath
  | RatchetsNotEnabled
  | RatchetUnpack mp_error
  | InvalidRatchetFile
  | MissingSignature
  | MissingRatchets
  | InvalidRatchetSignature
  | InvalidRatchetList
  | FileReadFailed
  | FileWriteFailed
  | FileRenameFailed
  | NoIdentity
  | NegativeRequestSize
  | DestIdentity identity_error
  | DestPanic

text \<open>The zero value of Go's \<^verbatim>\<open>time.Time\<close>, and the saturating difference of two times.\<close>

definition time_zero :: int where "time_zero = -62135596800 * 10 ^ 9"

definition time_since :: "int \<Rightarrow> int \<Rightarrow> int" where
  "time_since now t = max (- (2 ^ 63)) (min (2 ^ 63 - 1) (now - t))"

text \<open>
  \<^verbatim>\<open>NewDestination\<close>; a created destination that has a transport is then registered with it. \<open>rx\<close> and
  \<open>rs\<close> supply the keys of a generated identity.
\<close>

definition NewDestination ::
  "curves \<Rightarrow> (nat \<Rightarrow> bytes option) \<Rightarrow> (nat \<Rightarrow> bytes option) \<Rightarrow> bool \<Rightarrow> identity option \<Rightarrow> int \<Rightarrow> int \<Rightarrow> bytes \<Rightarrow> bytes list
     \<Rightarrow> dest_error + destination" where
  "NewDestination cs rx rs ts ident direction destType appName aspects =
     (if 0x2e \<in> set appName then Inl DotsInAppName
      else if list_ex (\<lambda>aspect. 0x2e \<in> set aspect) aspects then Inl DotsInAspects
      else
        (case (if ident = None \<and> direction = DestinationIn \<and> destType \<noteq> DestinationPlain then
                 (if \<not> ts then Inl DestPanic
                  else (case CreateKeys cs rx rs empty_identity of
                          (i, Some e) \<Rightarrow> Inl (DestIdentity e)
                        | (i, None) \<Rightarrow> Inr (Some i, aspects @ [HexHash i])))
               else Inr (ident, aspects)) of
           Inl e \<Rightarrow> Inl e
         | Inr (i, aspects) \<Rightarrow>
             if ident = None \<and> direction = DestinationOut \<and> destType \<noteq> DestinationPlain then Inl OutboundNeedsIdentity
             else if ident \<noteq> None \<and> destType = DestinationPlain then Inl PlainHoldsNoIdentity
             else Inr \<lparr>d_identity = i, d_direction = direction, d_Type = destType, d_appName = appName, d_aspects = aspects,
                    d_Hash = CalculateHash i appName aspects, d_name = ExpandName i appName aspects,
                    d_nameHash = take (NameHashLength div 8) (FullHash (ExpandName None appName aspects)),
                    d_linkEstablished = False, d_packetCallback = False, d_proofRequested = None,
                    d_proofStrategy = ProveNone, d_acceptLinkRequests = True, d_transport = ts,
                    d_requestHandlers = Map.empty, d_maxRequestSize = 0, d_ratchets = None, d_ratchetsPath = [],
                    d_ratchetInterval = 30 * 60 * 10 ^ 9, d_latestRatchetTime = time_zero, d_latestRatchetID = None,
                    d_enforceRatchets = False, d_retainedRatchets = 512, d_defaultAppData = None\<rparr>))"

section \<open>Ratchets\<close>

record ratchet_files =
  rf_files :: "bytes \<rightharpoonup> bytes"
  rf_write_fault :: "bytes \<Rightarrow> bytes option option"
  rf_read_fault :: "bytes \<Rightarrow> bool"
  rf_rename_fault :: "bytes \<Rightarrow> bool"

definition os_WriteFile :: "bytes \<Rightarrow> bytes \<Rightarrow> ratchet_files \<Rightarrow> ratchet_files \<times> bool" where
  "os_WriteFile path data fs =
     (case rf_write_fault fs path of
        None \<Rightarrow> (fs\<lparr>rf_files := (rf_files fs)(path \<mapsto> data)\<rparr>, True)
      | Some left \<Rightarrow> (fs\<lparr>rf_files := (rf_files fs)(path := left)\<rparr>, False))"

definition os_Rename :: "bytes \<Rightarrow> bytes \<Rightarrow> ratchet_files \<Rightarrow> ratchet_files \<times> bool" where
  "os_Rename old new fs =
     (if rf_rename_fault fs old \<or> rf_files fs old = None then (fs, False)
      else (fs\<lparr>rf_files := (rf_files fs)(old := None, new := rf_files fs old)\<rparr>, True))"

definition dot_tmp :: bytes where "dot_tmp = utf8 ''.tmp''"

definition packed_ratchets :: "bytes list \<Rightarrow> bytes" where
  "packed_ratchets rs = msgpack_Pack (MArray (map MBin rs))"

text \<open>
  The two entries of the persisted map are packed in Go's map order, which is not fixed: \<open>swap\<close> tells
  which comes first.
\<close>

definition persisted_data :: "bool \<Rightarrow> bytes \<Rightarrow> bytes \<Rightarrow> bytes" where
  "persisted_data swap signature packedRatchets =
     (let es = [(MStr (utf8 ''signature''), MBin signature), (MStr (utf8 ''ratchets''), MBin packedRatchets)]
      in msgpack_Pack (MMap (if swap then rev es else es)))"

definition persistRatchets ::
  "curves \<Rightarrow> bool \<Rightarrow> ratchet_files \<Rightarrow> destination \<Rightarrow> ratchet_files \<times> dest_error option" where
  "persistRatchets cs swap fs d =
     (if d_ratchetsPath d = [] then (fs, None)
      else
        let packedRatchets = packed_ratchets (case d_ratchets d of None \<Rightarrow> [] | Some rs \<Rightarrow> rs) in
        (case d_identity d of
           None \<Rightarrow> (fs, Some DestPanic)
         | Some i \<Rightarrow>
             (case identity_Sign cs i packedRatchets of
                Inl e \<Rightarrow> (fs, Some (DestIdentity e))
              | Inr signature \<Rightarrow>
                  let data = persisted_data swap signature packedRatchets;
                      tempPath = d_ratchetsPath d @ dot_tmp
                  in (case os_WriteFile tempPath data fs of
                        (fs, False) \<Rightarrow> (fs, Some FileWriteFailed)
                      | (fs, True) \<Rightarrow>
                          (case os_Rename tempPath (d_ratchetsPath d) fs of
                             (fs, False) \<Rightarrow> (fs, Some FileRenameFailed)
                           | (fs, True) \<Rightarrow> (fs, None))))))"

text \<open>The loop over the unpacked list: keys of a wrong length are skipped, a non-byte element panics.\<close>

fun load_ratchets :: "mvalue list \<Rightarrow> bytes list option" where
  "load_ratchets [] = Some []"
| "load_ratchets (MBin b # vs) =
     (case NewX25519PrivateKeyFromBytes b of
        Inl e \<Rightarrow> load_ratchets vs
      | Inr key \<Rightarrow> map_option (Cons key) (load_ratchets vs))"
| "load_ratchets (_ # vs) = None"

definition unpack_ratchet_file :: "curves \<Rightarrow> identity option \<Rightarrow> bytes \<Rightarrow> dest_error + mvalue list" where
  "unpack_ratchet_file cs ident data =
     (case msgpack_Unpack data of
        Inl e \<Rightarrow> Inl (RatchetUnpack e)
      | Inr (MMap m) \<Rightarrow>
          (case map_get (utf8 ''signature'') m of
             Some (MBin signature) \<Rightarrow>
               (case map_get (utf8 ''ratchets'') m of
                  Some (MBin packedRatchets) \<Rightarrow>
                    (case ident of
                       None \<Rightarrow> Inl DestPanic
                     | Some i \<Rightarrow>
                         if \<not> identity_Verify cs i signature packedRatchets then Inl InvalidRatchetSignature
                         else (case msgpack_Unpack packedRatchets of
                                 Inl e \<Rightarrow> Inl (RatchetUnpack e)
                               | Inr (MArray vs) \<Rightarrow> Inr vs
                               | Inr _ \<Rightarrow> Inl InvalidRatchetList))
                | _ \<Rightarrow> Inl MissingRatchets)
           | _ \<Rightarrow> Inl MissingSignature)
      | Inr _ \<Rightarrow> Inl InvalidRatchetFile)"

definition reloadRatchets ::
  "curves \<Rightarrow> bool \<Rightarrow> bytes \<Rightarrow> ratchet_files \<Rightarrow> destination \<Rightarrow> destination \<times> ratchet_files \<times> dest_error option" where
  "reloadRatchets cs swap path fs d =
     (case rf_files fs path of
        None \<Rightarrow>
          let d = d\<lparr>d_ratchets := Some []\<rparr> in
          (case persistRatchets cs swap fs d of (fs, e) \<Rightarrow> (d, fs, e))
      | Some data \<Rightarrow>
          if rf_read_fault fs path then (d, fs, Some FileReadFailed)
          else
            (case unpack_ratchet_file cs (d_identity d) data of
               Inl e \<Rightarrow> (d, fs, Some e)
             | Inr vs \<Rightarrow>
                 (case load_ratchets vs of
                    None \<Rightarrow> (d, fs, Some DestPanic)
                  | Some rs \<Rightarrow>
                      let d = d\<lparr>d_ratchets := Some rs\<rparr> in
                      (if rs \<noteq> [] then d\<lparr>d_latestRatchetID := Some (RatchetID (x25519_pub cs (hd rs)))\<rparr> else d, fs, None))))"

definition EnableRatchets ::
  "curves \<Rightarrow> bool \<Rightarrow> bytes \<Rightarrow> ratchet_files \<Rightarrow> destination \<Rightarrow> destination \<times> ratchet_files \<times> dest_error option" where
  "EnableRatchets cs swap path fs d =
     (if path = [] then (d, fs, Some NoRatchetPath)
      else reloadRatchets cs swap path fs (d\<lparr>d_ratchetsPath := path, d_latestRatchetTime := time_zero\<rparr>))"

definition RotateRatchets ::
  "curves \<Rightarrow> (nat \<Rightarrow> bytes option) \<Rightarrow> bool \<Rightarrow> int \<Rightarrow> ratchet_files \<Rightarrow> destination \<Rightarrow> destination \<times> ratchet_files \<times> dest_error option" where
  "RotateRatchets cs rk swap now fs d =
     (case d_ratchets d of
        None \<Rightarrow> (d, fs, Some RatchetsNotEnabled)
      | Some rs \<Rightarrow>
          if time_since now (d_latestRatchetTime d) < d_ratchetInterval d then (d, fs, None)
          else
            (case GenerateX25519PrivateKey rk of
               Inl e \<Rightarrow> (d, fs, Some (DestIdentity e))
             | Inr newRatchet \<Rightarrow>
                 let d = d\<lparr>d_ratchets := Some (newRatchet # rs), d_latestRatchetTime := now,
                           d_latestRatchetID := Some (RatchetID (x25519_pub cs newRatchet))\<rparr>
                 in if int (length (newRatchet # rs)) > d_retainedRatchets d then
                      (if d_retainedRatchets d < 0 then (d, fs, Some DestPanic)
                       else
                         let d = d\<lparr>d_ratchets := Some (take (nat (d_retainedRatchets d)) (newRatchet # rs))\<rparr> in
                         (case persistRatchets cs swap fs d of (fs, e) \<Rightarrow> (d, fs, e)))
                    else (case persistRatchets cs swap fs d of (fs, e) \<Rightarrow> (d, fs, e))))"

section \<open>Encryption\<close>

text \<open>\<open>selectedRatchet\<close> is what the transport knows of the destination's ratchet key.\<close>

definition destination_Encrypt ::
  "curves \<Rightarrow> (nat \<Rightarrow> bytes option) \<Rightarrow> (nat \<Rightarrow> bytes option) \<Rightarrow> (bytes \<Rightarrow> bytes option) \<Rightarrow> destination \<Rightarrow> bytes
     \<Rightarrow> destination \<times> (dest_error + bytes)" where
  "destination_Encrypt cs rk rt getRatchet d plaintext =
     (if d_Type d = DestinationPlain then (d, Inr plaintext)
      else
        (case d_identity d of
           None \<Rightarrow> (d, Inl NoIdentity)
         | Some i \<Rightarrow>
             let selectedRatchet = (if d_transport d then getRatchet (d_Hash d) else None);
                 d = (case selectedRatchet of None \<Rightarrow> d | Some r \<Rightarrow> d\<lparr>d_latestRatchetID := Some (RatchetID r)\<rparr>)
             in (d, map_sum DestIdentity id
                      (identity_Encrypt cs rk rt i plaintext (case selectedRatchet of None \<Rightarrow> [] | Some r \<Rightarrow> r)))))"

definition destination_Decrypt ::
  "curves \<Rightarrow> bool \<Rightarrow> ratchet_files \<Rightarrow> destination \<Rightarrow> bytes \<Rightarrow> destination \<times> ratchet_files \<times> (dest_error + bytes)" where
  "destination_Decrypt cs swap fs d ciphertext =
     (if d_Type d = DestinationPlain then (d, fs, Inr ciphertext)
      else
        (case d_identity d of
           None \<Rightarrow> (d, fs, Inl NoIdentity)
         | Some i \<Rightarrow>
             let rs = (case d_ratchets d of None \<Rightarrow> [] | Some rs \<Rightarrow> rs) in
             if length rs > 0 then
               (case identity_Decrypt cs i ciphertext rs (d_enforceRatchets d) of
                  Inr decrypted \<Rightarrow> (d, fs, Inr decrypted)
                | Inl (IdentityCrypto CryptoPanic) \<Rightarrow> (d, fs, Inl DestPanic)
                | Inl err \<Rightarrow>
                    if d_ratchetsPath d \<noteq> [] then
                      (case reloadRatchets cs swap (d_ratchetsPath d) fs d of
                         (d, fs, Some DestPanic) \<Rightarrow> (d, fs, Inl DestPanic)
                       | (d, fs, e) \<Rightarrow>
                           (d, fs, map_sum DestIdentity id
                              (identity_Decrypt cs i ciphertext (case d_ratchets d of None \<Rightarrow> [] | Some rs \<Rightarrow> rs) (d_enforceRatchets d))))
                    else (d, fs, Inl (DestIdentity err)))
             else (d, fs, map_sum DestIdentity id (identity_Decrypt cs i ciphertext [] (d_enforceRatchets d)))))"

definition destination_Sign :: "curves \<Rightarrow> destination \<Rightarrow> bytes \<Rightarrow> dest_error + bytes" where
  "destination_Sign cs d data =
     (case d_identity d of None \<Rightarrow> Inl NoIdentity | Some i \<Rightarrow> map_sum DestIdentity id (identity_Sign cs i data))"

definition destination_Verify :: "curves \<Rightarrow> destination \<Rightarrow> bytes \<Rightarrow> bytes \<Rightarrow> bool" where
  "destination_Verify cs d signature data =
     (case d_identity d of None \<Rightarrow> False | Some i \<Rightarrow> identity_Verify cs i signature data)"

section \<open>Announces\<close>

text \<open>What the packet code sees of a destination; \<open>enc\<close> is its encryption.\<close>

definition as_packet_dest :: "(bytes \<Rightarrow> bytes option) \<Rightarrow> destination \<Rightarrow> packet_dest" where
  "as_packet_dest enc d =
     \<lparr>dest_hash = d_Hash d, dest_type = d_Type d, dest_transport = d_transport d, dest_encrypt = enc, dest_link_closed = None\<rparr>"

definition announce_random :: "bytes \<Rightarrow> int \<Rightarrow> bytes" where
  "announce_random randPart nowUnix =
     take 5 (TruncatedHash randPart) @ map (\<lambda>i. word_of_int (drop_bit ((4 - i) * 8) nowUnix)) [0..<5]"

text \<open>
  \<open>rr\<close> supplies the random part, \<open>rk\<close> a new ratchet. The third component lists what the transport is
  told to store.
\<close>

definition buildAnnouncePacket ::
  "curves \<Rightarrow> (nat \<Rightarrow> bytes option) \<Rightarrow> (nat \<Rightarrow> bytes option) \<Rightarrow> (bytes \<Rightarrow> bytes option) \<Rightarrow> bool \<Rightarrow> int \<Rightarrow> ratchet_files \<Rightarrow> destination
     \<Rightarrow> bytes option \<Rightarrow> bool \<Rightarrow> destination \<times> ratchet_files \<times> announce_effect list \<times> (dest_error + packet)" where
  "buildAnnouncePacket cs rr rk enc swap now fs d appData pathResponse =
     (if d_Type d \<noteq> DestinationSingle then (d, fs, [], Inl OnlySingleAnnounced)
      else if d_direction d \<noteq> DestinationIn then (d, fs, [], Inl OnlyInAnnounced)
      else
        let appData = (case appData of
                         Some a \<Rightarrow> a
                       | None \<Rightarrow> (case d_defaultAppData d of None \<Rightarrow> [] | Some a \<Rightarrow> a))
        in
        (case rr dstLen of
           None \<Rightarrow> (d, fs, [], Inl (DestIdentity RandomFailed))
         | Some randPart \<Rightarrow>
             let randomHash = announce_random randPart (now div 10 ^ 9) in
             (case (if d_ratchets d \<noteq> None then RotateRatchets cs rk swap now fs d else (d, fs, None)) of
                (d, fs, Some e) \<Rightarrow> (d, fs, [], Inl e)
              | (d, fs, None) \<Rightarrow>
                  let ratchet = (case d_ratchets d of Some (r # rs) \<Rightarrow> x25519_pub cs r | _ \<Rightarrow> []);
                      effects = (case d_ratchets d of
                                   Some (r # rs) \<Rightarrow> if d_transport d then [SetRatchet (d_Hash d) ratchet] else []
                                 | _ \<Rightarrow> [])
                  in
                  (case d_identity d of
                     None \<Rightarrow> (d, fs, effects, Inl DestPanic)
                   | Some i \<Rightarrow>
                       let publicKey = (case GetPublicKey i of None \<Rightarrow> [] | Some k \<Rightarrow> k);
                           signedData = d_Hash d @ publicKey @ d_nameHash d @ randomHash @ ratchet @ appData
                       in
                       (case identity_Sign cs i signedData of
                          Inl e \<Rightarrow> (d, fs, effects, Inl (DestIdentity e))
                        | Inr signature \<Rightarrow>
                            let announceData = publicKey @ d_nameHash d @ randomHash @ ratchet @ signature @ appData;
                                p = (NewPacketWithTransport (d_transport d) (Some (as_packet_dest enc d)) announceData)
                                      \<lparr>PacketType := PacketAnnounce\<rparr>;
                                p = (if pathResponse then p\<lparr>Context := ContextPathResponse\<rparr> else p);
                                p = (if length ratchet > 0 then p\<lparr>ContextFlag := FlagSet\<rparr> else p)
                            in (d, fs, effects, Inr p))))))"

definition Announce ::
  "curves \<Rightarrow> (nat \<Rightarrow> bytes option) \<Rightarrow> (nat \<Rightarrow> bytes option) \<Rightarrow> (bytes \<Rightarrow> bytes option) \<Rightarrow> bool \<Rightarrow> int \<Rightarrow> ratchet_files \<Rightarrow> destination
     \<Rightarrow> bytes option \<Rightarrow> destination \<times> ratchet_files \<times> announce_effect list \<times> (dest_error + packet \<times> send_outcome)" where
  "Announce cs rr rk enc swap now fs d appData =
     (case buildAnnouncePacket cs rr rk enc swap now fs d appData False of
        (d, fs, effects, Inl e) \<Rightarrow> (d, fs, effects, Inl e)
      | (d, fs, effects, Inr p) \<Rightarrow> (case packet_Send p of (p, out, _) \<Rightarrow> (d, fs, effects, Inr (p, out))))"

definition AnnouncePathResponse ::
  "curves \<Rightarrow> (nat \<Rightarrow> bytes option) \<Rightarrow> (nat \<Rightarrow> bytes option) \<Rightarrow> (bytes \<Rightarrow> bytes option) \<Rightarrow> bool \<Rightarrow> int \<Rightarrow> ratchet_files \<Rightarrow> destination
     \<Rightarrow> bytes option \<Rightarrow> destination \<times> ratchet_files \<times> announce_effect list \<times> (dest_error + packet \<times> send_outcome)" where
  "AnnouncePathResponse cs rr rk enc swap now fs d appData =
     (case buildAnnouncePacket cs rr rk enc swap now fs d appData True of
        (d, fs, effects, Inl e) \<Rightarrow> (d, fs, effects, Inl e)
      | (d, fs, effects, Inr p) \<Rightarrow> (case packet_Send p of (p, out, _) \<Rightarrow> (d, fs, effects, Inr (p, out))))"

section \<open>Reception\<close>

datatype dest_event =
    ValidateLinkRequest bytes
  | ProofSent packet send_outcome
  | PacketCallback bytes

text \<open>\<^verbatim>\<open>Packet.Prove\<close> for a packet received by this destination.\<close>

definition packet_Prove :: "curves \<Rightarrow> bool \<Rightarrow> destination \<Rightarrow> packet \<Rightarrow> dest_event list" where
  "packet_Prove cs useImplicitProof d p =
     (if FromPacked p then
        (case d_identity d of
           None \<Rightarrow> []
         | Some i \<Rightarrow>
             if GetPrivateKey i \<noteq> None then
               (case identity_Prove cs useImplicitProof i p None of
                  None \<Rightarrow> []
                | Some (proof, out, _) \<Rightarrow> [ProofSent proof out])
             else [])
      else [])"

definition destination_receive ::
  "curves \<Rightarrow> bool \<Rightarrow> bool \<Rightarrow> ratchet_files \<Rightarrow> destination \<Rightarrow> packet \<Rightarrow> destination \<times> ratchet_files \<times> dest_event list" where
  "destination_receive cs useImplicitProof swap fs d p =
     (if PacketType p = PacketLinkRequest then (d, fs, [ValidateLinkRequest (Data p)])
      else if PacketType p = PacketData then
        (case destination_Decrypt cs swap fs d (Data p) of
           (d, fs, Inl e) \<Rightarrow> (d, fs, [])
         | (d, fs, Inr plaintext) \<Rightarrow>
             (d, fs,
              (if d_proofStrategy d = ProveAll then packet_Prove cs useImplicitProof d p
               else if d_proofStrategy d = ProveApp then
                 (case d_proofRequested d of
                    Some proofRequested \<Rightarrow> if proofRequested p then packet_Prove cs useImplicitProof d p else []
                  | None \<Rightarrow> [])
               else [])
              @ (if d_packetCallback d then [PacketCallback plaintext] else [])))
      else (d, fs, []))"

section \<open>Settings and request handlers\<close>

abbreviation (input) ResourceAutoCompressMaxSize :: int where "ResourceAutoCompressMaxSize \<equiv> 64 * 1024 * 1024"

definition RegisterRequestHandlerWithAutoCompressLimit ::
  "bytes \<Rightarrow> (bytes \<Rightarrow> mvalue \<Rightarrow> bytes \<Rightarrow> bytes \<Rightarrow> identity option \<Rightarrow> rat \<Rightarrow> mvalue) \<Rightarrow> int \<Rightarrow> bytes list \<Rightarrow> bool \<Rightarrow> int
     \<Rightarrow> destination \<Rightarrow> destination" where
  "RegisterRequestHandlerWithAutoCompressLimit path gen allow allowedList autoCompress limit d =
     d\<lparr>d_requestHandlers := (d_requestHandlers d)(TruncatedHash path \<mapsto>
        \<lparr>rh_Path = path, rh_ResponseGenerator = gen, rh_Allow = allow, rh_AllowedList = allowedList,
         rh_AutoCompress = autoCompress, rh_AutoCompressLimit = limit\<rparr>)\<rparr>"

definition RegisterRequestHandler ::
  "bytes \<Rightarrow> (bytes \<Rightarrow> mvalue \<Rightarrow> bytes \<Rightarrow> bytes \<Rightarrow> identity option \<Rightarrow> rat \<Rightarrow> mvalue) \<Rightarrow> int \<Rightarrow> bytes list \<Rightarrow> bool
     \<Rightarrow> destination \<Rightarrow> destination" where
  "RegisterRequestHandler path gen allow allowedList autoCompress d =
     RegisterRequestHandlerWithAutoCompressLimit path gen allow allowedList autoCompress
       (if autoCompress then ResourceAutoCompressMaxSize else 0) d"

definition HasRequestHandler :: "bytes \<Rightarrow> destination \<Rightarrow> bool" where
  "HasRequestHandler path d \<longleftrightarrow> d_requestHandlers d (TruncatedHash path) \<noteq> None"

definition DeregisterRequestHandler :: "bytes \<Rightarrow> destination \<Rightarrow> destination" where
  "DeregisterRequestHandler path d = d\<lparr>d_requestHandlers := (d_requestHandlers d)(TruncatedHash path := None)\<rparr>"

definition SetMaxRequestSize :: "int \<Rightarrow> destination \<Rightarrow> destination \<times> dest_error option" where
  "SetMaxRequestSize n d = (if n < 0 then (d, Some NegativeRequestSize) else (d\<lparr>d_maxRequestSize := n\<rparr>, None))"

definition SetProofStrategy :: "int \<Rightarrow> destination \<Rightarrow> destination" where
  "SetProofStrategy s d = d\<lparr>d_proofStrategy := s\<rparr>"

definition SetPacketCallback :: "bool \<Rightarrow> destination \<Rightarrow> destination" where
  "SetPacketCallback b d = d\<lparr>d_packetCallback := b\<rparr>"

definition SetLinkEstablishedCallback :: "bool \<Rightarrow> destination \<Rightarrow> destination" where
  "SetLinkEstablishedCallback b d = d\<lparr>d_linkEstablished := b\<rparr>"

definition SetAcceptsLinks :: "bool \<Rightarrow> destination \<Rightarrow> destination" where
  "SetAcceptsLinks b d = d\<lparr>d_acceptLinkRequests := b\<rparr>"

definition SetDefaultAppData :: "bytes option \<Rightarrow> destination \<Rightarrow> destination" where
  "SetDefaultAppData a d = d\<lparr>d_defaultAppData := a\<rparr>"

definition ClearDefaultAppData :: "destination \<Rightarrow> destination" where
  "ClearDefaultAppData d = d\<lparr>d_defaultAppData := None\<rparr>"

definition SetRatchetInterval :: "int \<Rightarrow> destination \<Rightarrow> destination" where
  "SetRatchetInterval n d = d\<lparr>d_ratchetInterval := n\<rparr>"

definition SetRetainedRatchets :: "int \<Rightarrow> destination \<Rightarrow> destination" where
  "SetRetainedRatchets n d = d\<lparr>d_retainedRatchets := n\<rparr>"

definition EnforceRatchets :: "bool list \<Rightarrow> destination \<Rightarrow> destination \<times> bool" where
  "EnforceRatchets opt d =
     (let d = (case opt of [] \<Rightarrow> d | b # _ \<Rightarrow> d\<lparr>d_enforceRatchets := b\<rparr>) in (d, d_enforceRatchets d))"

section \<open>Properties of announces\<close>

lemma GenerateX25519_length: "GenerateX25519PrivateKey rk = Inr k \<Longrightarrow> length k = 32"
  by (auto simp: GenerateX25519PrivateKey_def NewX25519PrivateKeyFromBytes_def split: option.splits if_splits)

text \<open>A destination that can announce itself: its hash belongs to its name and identity.\<close>

definition announceable :: "curves \<Rightarrow> identity \<Rightarrow> destination \<Rightarrow> bool" where
  "announceable cs i d \<longleftrightarrow> d_identity d = Some i \<and> full_identity cs i \<and> d_Type d = DestinationSingle \<and> d_direction d = DestinationIn
     \<and> length (d_nameHash d) = 10 \<and> d_Hash d = take dstLen (FullHash (d_nameHash d @ id_Hash i))
     \<and> (\<forall>rs r. d_ratchets d = Some rs \<longrightarrow> r \<in> set rs \<longrightarrow> length r = 32)"

lemma NewDestination_announceable:
  assumes "NewDestination cs rx rs ts ident DestinationIn DestinationSingle appName aspects = Inr d"
    and "\<And>i. ident = Some i \<Longrightarrow> full_identity cs i"
  shows "\<exists>i. announceable cs i d"
  using assms CreateKeys_full
  by (auto simp: NewDestination_def announceable_def CalculateHash_def Let_def identity_sizes FullHash_def
      packet_consts split: if_splits option.splits prod.splits sum.splits)

lemma RotateRatchets_frame:
  assumes "RotateRatchets cs rk swap now fs d = (d', fs', e)"
  shows "\<exists>rs t rid. d' = d\<lparr>d_ratchets := rs, d_latestRatchetTime := t, d_latestRatchetID := rid\<rparr> \<and>
    (\<forall>r k. rs = Some r \<longrightarrow> k \<in> set r \<longrightarrow> length k = 32 \<or> (\<exists>r0. d_ratchets d = Some r0 \<and> k \<in> set r0))"
proof -
  have same: "\<exists>rs t rid. d = d\<lparr>d_ratchets := rs, d_latestRatchetTime := t, d_latestRatchetID := rid\<rparr> \<and>
    (\<forall>r k. rs = Some r \<longrightarrow> k \<in> set r \<longrightarrow> length k = 32 \<or> (\<exists>r0. d_ratchets d = Some r0 \<and> k \<in> set r0))"
    by (rule exI [of _ "d_ratchets d"], rule exI [of _ "d_latestRatchetTime d"], rule exI [of _ "d_latestRatchetID d"]) simp
  show ?thesis
  proof (cases "\<exists>rs k. d_ratchets d = Some rs \<and> GenerateX25519PrivateKey rk = Inr k \<and> \<not> time_since now (d_latestRatchetTime d) < d_ratchetInterval d")
    case False
    then have "d' = d" using assms by (auto simp: RotateRatchets_def split: option.splits if_splits sum.splits)
    with same show ?thesis by simp
  next
    case True
    then obtain rs k where k: "d_ratchets d = Some rs" "GenerateX25519PrivateKey rk = Inr k"
        "\<not> time_since now (d_latestRatchetTime d) < d_ratchetInterval d" by blast
    have "d' = d\<lparr>d_ratchets := d_ratchets d', d_latestRatchetTime := now, d_latestRatchetID := Some (RatchetID (x25519_pub cs k))\<rparr>
        \<and> set (the (d_ratchets d')) \<subseteq> set (k # rs) \<and> d_ratchets d' \<noteq> None"
      using assms k by (auto simp: RotateRatchets_def Let_def split: if_splits prod.splits dest!: subsetD [OF set_take_subset])
    with k(1) GenerateX25519_length [OF k(2)] show ?thesis
      by (intro exI [of _ "d_ratchets d'"] exI [of _ now] exI [of _ "Some (RatchetID (x25519_pub cs k))"]) auto
  qed
qed

lemma length_announce_random: "length (announce_random randPart t) = 10"
  by (simp add: announce_random_def TruncatedHash_def FullHash_def dstLen_def)

definition announce_app :: "destination \<Rightarrow> bytes option \<Rightarrow> bytes" where
  "announce_app d appData = (case appData of Some a \<Rightarrow> a | None \<Rightarrow> (case d_defaultAppData d of None \<Rightarrow> [] | Some a \<Rightarrow> a))"

definition announced_ratchet :: "curves \<Rightarrow> destination \<Rightarrow> bytes" where
  "announced_ratchet cs d = (case d_ratchets d of Some (r # rs) \<Rightarrow> x25519_pub cs r | _ \<Rightarrow> [])"

lemma announced_ratchet_length:
  "curves_law cs \<Longrightarrow> length (announced_ratchet cs d) = (if announced_ratchet cs d = [] then 0 else 32)"
  by (auto simp: announced_ratchet_def curves_law_def split: option.splits list.splits)

text \<open>The rotation at the start of an announce changes nothing but the ratchets.\<close>

lemma announce_rotation:
  assumes "announceable cs i d" and "(if d_ratchets d \<noteq> None then RotateRatchets cs rk swap now fs d else (d, fs, None)) = (d1, fs1, e1)"
  shows "announceable cs i d1 \<and> d_Hash d1 = d_Hash d \<and> d_nameHash d1 = d_nameHash d \<and> d_transport d1 = d_transport d"
proof (cases "d_ratchets d = None")
  case False
  then have "RotateRatchets cs rk swap now fs d = (d1, fs1, e1)" using assms(2) by (auto split: if_splits)
  then obtain rs t rid where "d1 = d\<lparr>d_ratchets := rs, d_latestRatchetTime := t, d_latestRatchetID := rid\<rparr>"
      "\<forall>r k. rs = Some r \<longrightarrow> k \<in> set r \<longrightarrow> length k = 32 \<or> (\<exists>r0. d_ratchets d = Some r0 \<and> k \<in> set r0)"
    using RotateRatchets_frame by blast
  then show ?thesis using assms(1) by (auto simp: announceable_def)
qed (use assms in auto)

text \<open>The packet that \<open>buildAnnouncePacket\<close> returns, taken apart.\<close>

lemma announce_built:
  assumes law: "curves_law cs" and ok: "announceable cs i d"
    and build: "buildAnnouncePacket cs rr rk enc swap now fs d appData pathResponse = (d', fs', effects, Inr p)"
  obtains pk rh sig where "announceable cs i d'" and "d_Hash d' = d_Hash d" and "GetPublicKey i = Some pk"
    and "length pk = 64" and "length rh = 10" and "length sig = 64"
    and "announce_signed cs (d_Hash d) pk (d_nameHash d) rh (announced_ratchet cs d') sig (announce_app d appData)"
    and "p = (NewPacketWithTransport (d_transport d) (Some (as_packet_dest enc d'))
          (pk @ d_nameHash d @ rh @ announced_ratchet cs d' @ sig @ announce_app d appData))
          \<lparr>PacketType := PacketAnnounce, Context := (if pathResponse then ContextPathResponse else ContextNone),
           ContextFlag := (if announced_ratchet cs d' = [] then FlagUnset else FlagSet)\<rparr>"
proof -
  have d: "d_identity d = Some i" "full_identity cs i" "d_Type d = DestinationSingle" "d_direction d = DestinationIn"
    using ok by (simp_all add: announceable_def)
  obtain s pk where keys: "sigPrv i = Some s" "GetPublicKey i = Some pk" "id_Hash i = TruncatedHash pk" "length pk = 64" "drop 32 pk = ed25519_pub cs s"
    using d(2) law by (auto simp: full_identity_def GetPublicKey_def curves_law_def)
  obtain randPart where rr: "rr dstLen = Some randPart"
    using build d by (auto simp: buildAnnouncePacket_def Let_def split: option.splits)
  let ?rot = "if d_ratchets d \<noteq> None then RotateRatchets cs rk swap now fs d else (d, fs, None)"
  obtain d1 fs1 e1 where rot: "?rot = (d1, fs1, e1)" by (cases ?rot) auto
  have e1: "e1 = None" using build d rr rot by (auto simp: buildAnnouncePacket_def Let_def split: option.splits)
  note d1 = announce_rotation [OF ok rot]
  then have d1_i: "d_identity d1 = Some i" by (simp add: announceable_def)
  define rh where "rh = announce_random randPart (now div 10 ^ 9)"
  define sig where "sig = ed25519_sign cs s (d_Hash d @ pk @ d_nameHash d @ rh @ announced_ratchet cs d1 @ announce_app d appData)"
  have res: "d' = d1 \<and> p = (let p = (NewPacketWithTransport (d_transport d1) (Some (as_packet_dest enc d1))
          (pk @ d_nameHash d @ rh @ announced_ratchet cs d1 @ sig @ announce_app d appData))\<lparr>PacketType := PacketAnnounce\<rparr>;
          p = (if pathResponse then p\<lparr>Context := ContextPathResponse\<rparr> else p)
        in if length (announced_ratchet cs d1) > 0 then p\<lparr>ContextFlag := FlagSet\<rparr> else p)"
    using build d rr rot e1 keys(1,2) d1 d1_i
    unfolding buildAnnouncePacket_def identity_Sign_def announced_ratchet_def [symmetric] announce_app_def [symmetric] sig_def rh_def
    by (auto simp: Let_def)
  have "announce_signed cs (d_Hash d) pk (d_nameHash d) rh (announced_ratchet cs d') sig (announce_app d appData)"
    using law keys ok res by (simp add: announce_signed_def curves_law_def sig_def announceable_def)
  moreover have "length rh = 10" "length sig = 64" using law by (simp_all add: rh_def sig_def length_announce_random curves_law_def)
  moreover have "p = (NewPacketWithTransport (d_transport d) (Some (as_packet_dest enc d'))
          (pk @ d_nameHash d @ rh @ announced_ratchet cs d' @ sig @ announce_app d appData))
          \<lparr>PacketType := PacketAnnounce, Context := (if pathResponse then ContextPathResponse else ContextNone),
           ContextFlag := (if announced_ratchet cs d' = [] then FlagUnset else FlagSet)\<rparr>"
    using res d1 by (simp add: NewPacketWithTransport_def Let_def)
  ultimately show thesis using that res d1 keys by blast
qed

lemma Pack_announce:
  assumes "Destination p = Some d" and "HeaderType p = Header1" and "PacketType p = PacketAnnounce"
    and "int (length (dest_hash d) + length (Data p) + 3) \<le> packet_MTU p"
  shows "\<exists>q. Pack p = (q, None) \<and> Ciphertext q = Data p"
  using assms by (auto simp: Pack_def Let_def pack_finish_def UpdateHash_def packet_GetHash_def GetHashablePart_def packet_consts should_encrypt_def)

lemma announce_validates:
  assumes law: "curves_law cs" and ok: "announceable cs i d"
    and build: "buildAnnouncePacket cs rr rk enc swap now fs d appData pathResponse = (d', fs', effects, Inr p)"
    and size: "length (announce_app d appData) \<le> 301"
  shows "\<exists>q u. Pack p = (q, None) \<and> Unpack (NewPacketFromRaw (Raw q)) = (u, None) \<and>
    ValidateAnnounce cs u = Some (Remember (PacketHash q) (d_Hash d) (the (GetPublicKey i))
        (if announce_app d appData = [] then None else Some (announce_app d appData))
      # (if announced_ratchet cs d' \<noteq> [] then [SetRatchet (d_Hash d) (announced_ratchet cs d')] else []))"
proof -
  obtain pk rh sig where d': "announceable cs i d'" "d_Hash d' = d_Hash d" and pk: "GetPublicKey i = Some pk" "length pk = 64"
    and l: "length rh = 10" "length sig = 64"
    and signed: "announce_signed cs (d_Hash d) pk (d_nameHash d) rh (announced_ratchet cs d') sig (announce_app d appData)"
    and p: "p = (NewPacketWithTransport (d_transport d) (Some (as_packet_dest enc d'))
          (pk @ d_nameHash d @ rh @ announced_ratchet cs d' @ sig @ announce_app d appData))
          \<lparr>PacketType := PacketAnnounce, Context := (if pathResponse then ContextPathResponse else ContextNone),
           ContextFlag := (if announced_ratchet cs d' = [] then FlagUnset else FlagSet)\<rparr>"
    using announce_built [OF law ok build] by metis
  let ?dst = "as_packet_dest enc d'" and ?data = "pk @ d_nameHash d @ rh @ announced_ratchet cs d' @ sig @ announce_app d appData"
  have nh: "length (d_nameHash d) = 10" and dh: "length (d_Hash d) = 16"
    using ok by (auto simp: announceable_def FullHash_def dstLen_def)
  have wf: "packet_wf ?dst p" using dh d' p
    by (simp add: packet_wf_def as_packet_dest_def NewPacketWithTransport_def Let_def empty_packet_def announceable_def
        packet_consts dstLen_def PathfinderM_def)
  have "int (length (dest_hash ?dst) + length (Data p) + 3) \<le> packet_MTU p"
    using size announced_ratchet_length [OF law, of d'] pk l nh dh d' p
    by (simp add: as_packet_dest_def NewPacketWithTransport_def Let_def MTU_def)
  then obtain q where q: "Pack p = (q, None)" "Ciphertext q = ?data"
    using Pack_announce [of p ?dst] p by (auto simp: NewPacketWithTransport_def Let_def empty_packet_def packet_consts)
  obtain u where u: "Unpack (NewPacketFromRaw (Raw q)) = (u, None)" "ContextFlag u = ContextFlag p" "PacketType u = PacketType p"
      "DestinationHash u = d_Hash d" "Data u = ?data" "PacketHash u = PacketHash q"
    using unpack_of_pack [OF wf q(1)] q(2) d' by (auto simp: as_packet_dest_def)
  have fl: "ContextFlag u = (if announced_ratchet cs d' = [] then FlagUnset else FlagSet)" "PacketType u = PacketAnnounce"
    using u(2,3) p by simp_all
  have "announce_parts (Data u) (ContextFlag u = FlagSet) pk (d_nameHash d) rh (announced_ratchet cs d') sig (announce_app d appData)"
    using u(5) fl pk l nh announced_ratchet_length [OF law, of d'] by (auto simp: announce_parts_def packet_consts)
  then show ?thesis using ValidateAnnounce_parts [OF _ fl(2)] signed u q(1) pk(1) by (auto simp: announce_effects_def)
qed

definition demo_destination :: destination where
  "demo_destination =
     (case NewDestination demo_curves (\<lambda>n. None) (\<lambda>n. None) True (Some demo_identity) DestinationIn DestinationSingle (utf8 ''app'') [utf8 ''x''] of
        Inr d \<Rightarrow> d\<lparr>d_ratchets := Some [], d_ratchetsPath := utf8 ''r'', d_defaultAppData := Some (utf8 ''node'')\<rparr>)"

definition demo_files :: ratchet_files where
  "demo_files = \<lparr>rf_files = Map.empty, rf_write_fault = (\<lambda>_. None), rf_read_fault = (\<lambda>_. False), rf_rename_fault = (\<lambda>_. False)\<rparr>"

lemmas demo_new = demo_destination_def NewDestination_def utf8_def packet_consts

lemma demo_fields [simp]:
  "d_identity demo_destination = Some demo_identity" "d_ratchets demo_destination = Some []" "d_ratchetsPath demo_destination = utf8 ''r''"
  "d_defaultAppData demo_destination = Some (utf8 ''node'')" "d_latestRatchetTime demo_destination = time_zero"
  "d_ratchetInterval demo_destination = 30 * 60 * 10 ^ 9" "d_retainedRatchets demo_destination = 512"
  by (simp_all add: demo_new)

lemma demo_announceable: "announceable demo_curves demo_identity demo_destination"
  using demo_identity_full by (simp add: announceable_def) (simp add: demo_new CalculateHash_def Let_def identity_sizes FullHash_def)

lemma demo_build:
  "\<exists>d' fs' effects p. buildAnnouncePacket demo_curves (\<lambda>n. Some (replicate n 3)) (\<lambda>n. Some (replicate n 5)) Some False (10 ^ 18) demo_files
        demo_destination None False = (d', fs', effects, Inr p) \<and> announced_ratchet demo_curves d' = replicate 32 5"
proof -
  obtain s where s: "sigPrv demo_identity = Some s" using demo_identity_full by (auto simp: full_identity_def)
  obtain d' fs' where rot: "RotateRatchets demo_curves (\<lambda>n. Some (replicate n 5)) False (10 ^ 18) demo_files demo_destination = (d', fs', None)"
      "d_ratchets d' = Some [replicate 32 5]" "d_identity d' = Some demo_identity"
    using s by (auto simp: RotateRatchets_def Let_def time_since_def time_zero_def GenerateX25519PrivateKey_def NewX25519PrivateKeyFromBytes_def
        persistRatchets_def identity_Sign_def demo_files_def os_WriteFile_def os_Rename_def utf8_def dot_tmp_def)
  have "d_Type demo_destination = DestinationSingle" "d_direction demo_destination = DestinationIn"
    using demo_announceable by (simp_all add: announceable_def)
  then obtain effects p where "buildAnnouncePacket demo_curves (\<lambda>n. Some (replicate n 3)) (\<lambda>n. Some (replicate n 5)) Some False (10 ^ 18) demo_files
      demo_destination None False = (d', fs', effects, Inr p)"
    using rot s by (simp add: buildAnnouncePacket_def Let_def identity_Sign_def)
  moreover have "announced_ratchet demo_curves d' = replicate 32 5" using rot(2) by (simp add: announced_ratchet_def demo_curves_def pad32_id)
  ultimately show ?thesis by blast
qed

lemma demo_app: "announce_app demo_destination None = utf8 ''node''"
  by (simp add: announce_app_def)

section \<open>Properties of ratchets\<close>

lemma length_packed_ratchets:
  assumes "\<And>r. r \<in> set rs \<Longrightarrow> length r = 32"
  shows "length (packed_ratchets rs) \<le> 5 + 34 * length rs"
proof -
  have "length (concat (map (pack False \<circ> MBin) rs)) = 34 * length rs"
    using assms by (induction rs) (auto simp: packBin_def Let_def)
  then show ?thesis by (simp add: packed_ratchets_def msgpack_Pack_def array_header_def)
qed

lemma load_ratchets_valid: "(\<And>r. r \<in> set rs \<Longrightarrow> length r = 32) \<Longrightarrow> load_ratchets (map MBin rs) = Some rs"
  by (induction rs) (auto simp: NewX25519PrivateKeyFromBytes_def)

lemma unpack_persisted:
  assumes rs: "\<And>r. r \<in> set rs \<Longrightarrow> length r = 32" and n: "length rs \<le> 2 ^ 26" and sig: "length signature = 64"
    and verify: "identity_Verify cs i signature (packed_ratchets rs)"
  shows "unpack_ratchet_file cs (Some i) (persisted_data swap signature (packed_ratchets rs)) = Inr (map MBin rs)"
proof -
  have "length (packed_ratchets rs) < 2 ^ 32" using length_packed_ratchets [of rs] rs n by simp
  then have "msgpack_Unpack (persisted_data swap signature (packed_ratchets rs)) =
      Inr (MMap (if swap then [(MStr (utf8 ''ratchets''), MBin (packed_ratchets rs)), (MStr (utf8 ''signature''), MBin signature)]
                 else [(MStr (utf8 ''signature''), MBin signature), (MStr (utf8 ''ratchets''), MBin (packed_ratchets rs))]))"
    unfolding persisted_data_def Let_def using sig by (subst unpack_record) (auto simp: utf8_def)
  moreover have "msgpack_Unpack (packed_ratchets rs) = Inr (MArray (map MBin rs))"
    unfolding packed_ratchets_def using rs n by (subst unpack_record) (auto simp: list_all_iff)
  ultimately show ?thesis using verify by (simp add: unpack_ratchet_file_def utf8_def)
qed

text \<open>
  C38: The ratchet file is replaced whole, or not at all. Persisting reports success only if the file holds the
  ratchets: loading it into any destination of the same identity gives them back in order. If it fails, by a
  write that left anything behind or by the rename, the file is what it was.
\<close>

theorem ratchet_file_atomic:
  assumes law: "curves_law cs" and i: "full_identity cs i" "d_identity d = Some i" and rs: "d_ratchets d = Some rs" "\<And>r. r \<in> set rs \<Longrightarrow> length r = 32"
    and n: "length rs \<le> 2 ^ 26" and path: "d_ratchetsPath d = path" "path \<noteq> []" and read: "\<not> rf_read_fault fs path"
    and persist: "persistRatchets cs swap fs d = (fs', e)"
  shows "(case e of
      None \<Rightarrow> \<forall>d2. d_identity d2 = Some i \<longrightarrow>
        (case reloadRatchets cs swap2 path fs' d2 of (d3, fs3, e3) \<Rightarrow> d_ratchets d3 = Some rs \<and> fs3 = fs' \<and> e3 = None)
    | Some err \<Rightarrow> rf_files fs' path = rf_files fs path)"
proof -
  obtain s where s: "sigPrv i = Some s" "sigPub i = Some (ed25519_pub cs s)" using i(1) by (auto simp: full_identity_def)
  let ?sig = "ed25519_sign cs s (packed_ratchets rs)"
  have sig: "length ?sig = 64" "identity_Verify cs i ?sig (packed_ratchets rs)"
    using law s by (simp_all add: curves_law_def identity_Verify_def)
  have tmp: "path @ dot_tmp \<noteq> path" by (simp add: dot_tmp_def utf8_def)
  show ?thesis
  proof (cases e)
    case (Some err)
    with persist i(2) rs(1) path tmp s show ?thesis
      by (auto simp: persistRatchets_def Let_def identity_Sign_def os_WriteFile_def os_Rename_def split: option.splits if_splits)
  next
    case None
    with persist i(2) rs(1) path tmp s
    have "rf_files fs' path = Some (persisted_data swap ?sig (packed_ratchets rs))" "rf_read_fault fs' = rf_read_fault fs"
      by (auto simp: persistRatchets_def Let_def identity_Sign_def os_WriteFile_def os_Rename_def split: option.splits if_splits)
    with None read unpack_persisted [OF rs(2) n sig] load_ratchets_valid [OF rs(2)] show ?thesis
      by (auto simp: reloadRatchets_def Let_def)
  qed
qed

definition demo_ratchets :: "bytes list" where
  "demo_ratchets = [replicate 32 5, replicate 32 6]"

lemma demo_ratchets_length: "r \<in> set demo_ratchets \<Longrightarrow> length r = 32" "length demo_ratchets \<le> 2 ^ 26"
  by (auto simp: demo_ratchets_def)

theorem ratchet_file_atomic_witness:
  "case persistRatchets demo_curves False demo_files (demo_destination\<lparr>d_ratchets := Some demo_ratchets\<rparr>) of
     (fs', e) \<Rightarrow> e = None \<and> d_ratchets (fst (reloadRatchets demo_curves True (utf8 ''r'') fs' demo_destination)) = Some demo_ratchets"
proof -
  let ?d = "demo_destination\<lparr>d_ratchets := Some demo_ratchets\<rparr>"
  have d: "d_identity ?d = Some demo_identity" "d_ratchets ?d = Some demo_ratchets" "d_ratchetsPath ?d = utf8 ''r''" by simp_all
  obtain s where s: "sigPrv demo_identity = Some s" using demo_identity_full by (auto simp: full_identity_def)
  obtain fs' where p: "persistRatchets demo_curves False demo_files ?d = (fs', None)"
    using d s by (auto simp: persistRatchets_def Let_def identity_Sign_def os_WriteFile_def os_Rename_def demo_files_def utf8_def dot_tmp_def)
  have f: "\<not> rf_read_fault demo_files (utf8 ''r'')" "utf8 ''r'' \<noteq> []" by (simp_all add: demo_files_def utf8_def)
  have "case reloadRatchets demo_curves True (utf8 ''r'') fs' demo_destination of
      (d3, fs3, e3) \<Rightarrow> d_ratchets d3 = Some demo_ratchets \<and> fs3 = fs' \<and> e3 = None"
    using ratchet_file_atomic [OF demo_curves_law demo_identity_full d(1,2) demo_ratchets_length d(3) f(2,1) p, of True] demo_fields(1) by simp
  then show ?thesis using p by (auto split: prod.splits)
qed

end
