(* ===== verification/KnownDests.thy ===== *)
theory KnownDests
  imports Destination "HOL-Library.AList"
begin

text \<open>
  What the transport remembers of other nodes (\<^verbatim>\<open>rns/transport.go\<close>): the known destinations with their
  retention marks and the known ratchets with their files.

  Maps that the code iterates over are association lists in iteration order. An entry of the known
  destinations is the Go slice \<^verbatim>\<open>[]any\<close>; its elements are numbers (whatever numeric type, as the
  \<^verbatim>\<open>float64\<close> that \<^verbatim>\<open>numericValue\<close> makes of it), byte strings, nil or anything else. A ratchet file
  is what unpacking its bytes yields as far as the code looks at it. Times are in seconds.
\<close>

section \<open>Known destinations\<close>

datatype kd_value = KNum rat | KBytes "bytes option" | KNil | KOther

type_synonym kd_entry = "kd_value list"

fun numericValue :: "kd_value \<Rightarrow> rat \<times> bool" where
  "numericValue (KNum n) = (n, True)"
| "numericValue _ = (0, False)"

datatype ratchet_data =
    RatchetUnreadable
  | RatchetNotUnpacked
  | RatchetNotMap
  | RatchetMap "bytes option" kd_value

record known_state =
  knownDestinations :: "(bytes \<times> kd_entry) list"
  knownDestDirty :: bool
  kd_storage :: bool
  kd_running :: bool
  kd_shared :: bool
  knownRatchets :: "bytes \<rightharpoonup> bytes"
  ratchetFiles :: "(bytes \<times> ratchet_data) list"
  kd_pathTable :: "bytes set"
  kd_registered :: "bytes \<rightharpoonup> bytes"

definition kd_dirty :: "known_state \<Rightarrow> known_state" where
  "kd_dirty ks = (if kd_storage ks \<and> kd_running ks then ks\<lparr>knownDestDirty := True\<rparr> else ks)"

definition transport_Remember :: "rat \<Rightarrow> bytes \<Rightarrow> bytes \<Rightarrow> bytes \<Rightarrow> bytes option \<Rightarrow> known_state \<Rightarrow> known_state" where
  "transport_Remember now packetHash destHash publicKey appData ks =
     (let useTimestamp = (case map_of (knownDestinations ks) destHash of
                            Some existing \<Rightarrow> if length existing > 4 then existing ! 4 else KNum 0
                          | None \<Rightarrow> KNum 0)
      in kd_dirty (ks\<lparr>knownDestinations := AList.update destHash
           [KNum now, KBytes (Some packetHash), KBytes (Some publicKey), KBytes appData, useTimestamp] (knownDestinations ks)\<rparr>))"

definition usedDestinationDataLocked :: "rat \<Rightarrow> bytes \<Rightarrow> known_state \<Rightarrow> known_state \<times> bool" where
  "usedDestinationDataLocked now destHash ks =
     (case map_of (knownDestinations ks) destHash of
        None \<Rightarrow> (ks, False)
      | Some data \<Rightarrow>
          if length data < 5 then (ks, False)
          else if fst (numericValue (data ! 4)) < 0 then (ks, False)
          else (kd_dirty (ks\<lparr>knownDestinations := AList.update destHash (data[4 := KNum now]) (knownDestinations ks)\<rparr>), True))"

definition RetainDestinationData :: "bytes \<Rightarrow> known_state \<Rightarrow> known_state \<times> bool" where
  "RetainDestinationData destHash ks =
     (case map_of (knownDestinations ks) destHash of
        None \<Rightarrow> (ks, False)
      | Some data \<Rightarrow>
          if length data < 5 then (ks, False)
          else (kd_dirty (ks\<lparr>knownDestinations := AList.update destHash (data[4 := KNum (-1)]) (knownDestinations ks)\<rparr>), True))"

definition UnretainDestinationData :: "rat \<Rightarrow> bytes \<Rightarrow> known_state \<Rightarrow> known_state \<times> bool" where
  "UnretainDestinationData now destHash ks =
     (case map_of (knownDestinations ks) destHash of
        None \<Rightarrow> (ks, False)
      | Some data \<Rightarrow>
          if length data < 5 then (ks, False)
          else (kd_dirty (ks\<lparr>knownDestinations := AList.update destHash (data[4 := KNum now]) (knownDestinations ks)\<rparr>), True))"

definition owned_by :: "bytes \<Rightarrow> kd_entry \<Rightarrow> bool" where
  "owned_by identityHash data \<longleftrightarrow> length data \<ge> 5 \<and>
     (case data ! 2 of KBytes pk \<Rightarrow> TruncatedHash (case pk of None \<Rightarrow> [] | Some k \<Rightarrow> k) = identityHash | _ \<Rightarrow> False)"

definition RetainIdentity :: "bytes \<Rightarrow> known_state \<Rightarrow> known_state \<times> bool" where
  "RetainIdentity identityHash ks =
     (let retained = list_ex (\<lambda>(dh, data). owned_by identityHash data) (knownDestinations ks);
          ks = ks\<lparr>knownDestinations := map (\<lambda>(dh, data). (dh, if owned_by identityHash data then data[4 := KNum (-1)] else data))
                    (knownDestinations ks)\<rparr>
      in (if retained then kd_dirty ks else ks, retained))"

definition RecallAppData :: "bytes \<Rightarrow> known_state \<Rightarrow> bytes option" where
  "RecallAppData targetHash ks =
     (case map_of (knownDestinations ks) targetHash of
        None \<Rightarrow> None
      | Some data \<Rightarrow> if length data < 4 then None else (case data ! 3 of KBytes a \<Rightarrow> a | _ \<Rightarrow> None))"

definition KnownDestinationUseTimestamp :: "bytes \<Rightarrow> known_state \<Rightarrow> rat \<times> bool" where
  "KnownDestinationUseTimestamp destHash ks =
     (case map_of (knownDestinations ks) destHash of
        None \<Rightarrow> (0, False)
      | Some data \<Rightarrow> if length data < 5 then (0, False) else (fst (numericValue (data ! 4)), True))"

text \<open>
  The identity made of an entry, with its application data. \<open>None\<close> is the run-time panic of an entry
  without the expected elements; \<open>Some None\<close> the failure that is logged.
\<close>

definition entry_identity :: "kd_entry \<Rightarrow> (identity \<times> bytes option) option option" where
  "entry_identity data =
     (if length data < 4 then None
      else
        (case data ! 2 of
           KBytes pk \<Rightarrow>
             (case LoadPublicKey (case pk of None \<Rightarrow> [] | Some k \<Rightarrow> k) empty_identity of
                (i, Some e) \<Rightarrow> Some None
              | (i, None) \<Rightarrow>
                  (case data ! 3 of
                     KNil \<Rightarrow> Some (Some (i, None))
                   | KBytes a \<Rightarrow> Some (Some (i, a))
                   | _ \<Rightarrow> None))
         | _ \<Rightarrow> None))"

text \<open>The loop over all entries for one whose key hashes to the target.\<close>

fun recall_scan :: "bytes \<Rightarrow> (bytes \<times> kd_entry) list \<Rightarrow> (bytes \<times> kd_entry) option option" where
  "recall_scan targetHash [] = Some None"
| "recall_scan targetHash ((destHash, data) # es) =
     (if length data < 3 then None
      else
        (case data ! 2 of
           KBytes pk \<Rightarrow>
             if targetHash = TruncatedHash (case pk of None \<Rightarrow> [] | Some k \<Rightarrow> k) then Some (Some (destHash, data))
             else recall_scan targetHash es
         | _ \<Rightarrow> None))"

definition recallLocked :: "rat \<Rightarrow> bytes \<Rightarrow> bool \<Rightarrow> known_state \<Rightarrow> known_state \<times> (identity \<times> bytes option) option option" where
  "recallLocked now targetHash noUse ks =
     (let use = (\<lambda>destHash res. (case res of
                    Some (Some i) \<Rightarrow> (if noUse then ks else fst (usedDestinationDataLocked now destHash ks), res)
                  | _ \<Rightarrow> (ks, res)))
      in
      (case map_of (knownDestinations ks) targetHash of
         Some data \<Rightarrow> use targetHash (entry_identity data)
       | None \<Rightarrow>
           (case recall_scan targetHash (knownDestinations ks) of
              None \<Rightarrow> (ks, None)
            | Some (Some (destHash, data)) \<Rightarrow> use destHash (entry_identity data)
            | Some None \<Rightarrow>
                (case kd_registered ks targetHash of
                   None \<Rightarrow> (ks, Some None)
                 | Some publicKey \<Rightarrow>
                     (case LoadPublicKey publicKey empty_identity of
                        (i, Some e) \<Rightarrow> (ks, Some None)
                      | (i, None) \<Rightarrow> (ks, Some (Some (i, None))))))))"

definition Recall :: "rat \<Rightarrow> bytes \<Rightarrow> known_state \<Rightarrow> known_state \<times> (identity \<times> bytes option) option option" where
  "Recall now targetHash ks = recallLocked now targetHash False ks"

definition RecallNoUse :: "rat \<Rightarrow> bytes \<Rightarrow> known_state \<Rightarrow> known_state \<times> (identity \<times> bytes option) option option" where
  "RecallNoUse now targetHash ks = recallLocked now targetHash True ks"

text \<open>Cleaning: the loop body decides whether an entry is stale. Removing the ratchet files succeeds; the table is then saved.\<close>

abbreviation (input) DestinationTimeout :: rat where "DestinationTimeout \<equiv> 7 * 24 * 3600"
abbreviation (input) UnusedDestinationLinger :: rat where "UnusedDestinationLinger \<equiv> 6 * 60"

definition stale_entry :: "rat \<Rightarrow> bytes set \<Rightarrow> bytes \<Rightarrow> kd_entry \<Rightarrow> bool" where
  "stale_entry nowSec pathTable dh entry =
     (if length entry < 5 then False
      else
        let hasPath = (dh \<in> pathTable);
            lastAnnounce = fst (numericValue (entry ! 0));
            useTS = fst (numericValue (entry ! 4));
            isRetained = (useTS = -1);
            wasUsed = (useTS > 0)
        in if isRetained \<or> hasPath then False
           else
             let unusedFor = nowSec - useTS in
             if \<not> wasUsed \<and> nowSec - lastAnnounce > UnusedDestinationLinger then True
             else unusedFor > DestinationTimeout * (5 / 4))"

definition CleanKnownDestinations :: "rat \<Rightarrow> known_state \<Rightarrow> known_state" where
  "CleanKnownDestinations nowSec ks =
     (let stale = map fst (filter (\<lambda>(dh, entry). stale_entry nowSec (kd_pathTable ks) dh entry) (knownDestinations ks));
          ks = ks\<lparr>knownDestinations := filter (\<lambda>(dh, entry). dh \<notin> set stale) (knownDestinations ks)\<rparr>
      in if stale \<noteq> [] \<and> kd_storage ks then
           ks\<lparr>knownDestDirty := True,
              ratchetFiles := filter (\<lambda>(name, data). name \<notin> hex_bytes ` set stale) (ratchetFiles ks)\<rparr>
         else ks)"

text \<open>Loading a file: entries of a wrong shape are skipped, those of the old four-element layout extended.\<close>

definition LoadKnownDestinations :: "(bytes option \<times> kd_entry option) list \<Rightarrow> known_state \<Rightarrow> known_state" where
  "LoadKnownDestinations file ks =
     foldl (\<lambda>ks e. case e of
        (Some k, Some vs) \<Rightarrow>
          let vs = (if length vs < 5 then vs @ [KNum 0] else vs)
          in ks\<lparr>knownDestinations := AList.update k vs (knownDestinations ks)\<rparr>
      | _ \<Rightarrow> ks) (ks\<lparr>kd_storage := True\<rparr>) file"

section \<open>Known ratchets\<close>

abbreviation (input) RatchetExpiry :: rat where "RatchetExpiry \<equiv> 30 * 24 * 3600"

definition GetRatchet :: "rat \<Rightarrow> bytes \<Rightarrow> known_state \<Rightarrow> known_state \<times> bytes option" where
  "GetRatchet now destHash ks =
     (case knownRatchets ks destHash of
        Some ratchetPub \<Rightarrow> (ks, Some ratchetPub)
      | None \<Rightarrow>
          if \<not> kd_storage ks then (ks, None)
          else
            (case map_of (ratchetFiles ks) (hex_bytes destHash) of
               Some (RatchetMap (Some ratchetPub) received) \<Rightarrow>
                 if \<not> snd (numericValue received) then (ks, None)
                 else if now < fst (numericValue received) + RatchetExpiry then
                   (ks\<lparr>knownRatchets := (knownRatchets ks)(destHash \<mapsto> ratchetPub)\<rparr>, Some ratchetPub)
                 else (ks\<lparr>ratchetFiles := AList.delete (hex_bytes destHash) (ratchetFiles ks)\<rparr>, None)
             | _ \<Rightarrow> (ks, None)))"

definition CurrentRatchetID :: "rat \<Rightarrow> bytes \<Rightarrow> known_state \<Rightarrow> known_state \<times> bytes option" where
  "CurrentRatchetID now destHash ks = map_prod id (map_option RatchetID) (GetRatchet now destHash ks)"

text \<open>\<open>io_ok\<close>: the directory, the temporary file, the write and the rename all succeed. The persisting goroutine runs to its end.\<close>

definition persistRatchet :: "bool \<Rightarrow> rat \<Rightarrow> bytes \<Rightarrow> bytes \<Rightarrow> known_state \<Rightarrow> known_state" where
  "persistRatchet io_ok now destHash ratchetPub ks =
     (if io_ok then ks\<lparr>ratchetFiles := AList.update (hex_bytes destHash) (RatchetMap (Some ratchetPub) (KNum now)) (ratchetFiles ks)\<rparr>
      else ks)"

definition transport_SetRatchet :: "bool \<Rightarrow> rat \<Rightarrow> bytes \<Rightarrow> bytes \<Rightarrow> known_state \<Rightarrow> known_state" where
  "transport_SetRatchet io_ok now destHash ratchetPub ks =
     (if length destHash = 0 \<or> length ratchetPub = 0 then ks
      else if (case knownRatchets ks destHash of None \<Rightarrow> [] | Some r \<Rightarrow> r) = ratchetPub then ks
      else
        let ks = ks\<lparr>knownRatchets := (knownRatchets ks)(destHash \<mapsto> ratchetPub)\<rparr> in
        if kd_storage ks \<and> kd_running ks \<and> \<not> kd_shared ks then persistRatchet io_ok now destHash ratchetPub ks else ks)"

text \<open>\<^verbatim>\<open>hex.DecodeString\<close>.\<close>

definition unhex_digit :: "byte \<Rightarrow> byte option" where
  "unhex_digit c =
     (if 0x30 \<le> c \<and> c \<le> 0x39 then Some (c - 0x30)
      else if 0x61 \<le> c \<and> c \<le> 0x66 then Some (c - 0x61 + 10)
      else if 0x41 \<le> c \<and> c \<le> 0x46 then Some (c - 0x41 + 10)
      else None)"

fun hex_decode :: "bytes \<Rightarrow> bytes option" where
  "hex_decode [] = Some []"
| "hex_decode [c] = None"
| "hex_decode (a # b # cs) =
     (case (unhex_digit a, unhex_digit b) of
        (Some x, Some y) \<Rightarrow> map_option (Cons (push_bit 4 x OR y)) (hex_decode cs)
      | _ \<Rightarrow> None)"

definition has_suffix :: "bytes \<Rightarrow> bytes \<Rightarrow> bool" where
  "has_suffix name suffix = (length suffix \<le> length name \<and> drop (length name - length suffix) name = suffix)"

definition discard_ratchet :: "rat \<Rightarrow> (bytes \<times> kd_entry) list \<Rightarrow> bytes \<Rightarrow> ratchet_data \<Rightarrow> bool" where
  "discard_ratchet now known name data =
     (if has_suffix name (utf8 ''.out'') \<or> has_suffix name (utf8 ''.tmp'') then False
      else
        let unknown = (case hex_decode name of Some destHash \<Rightarrow> map_of known destHash = None | None \<Rightarrow> False) in
        (case data of
           RatchetUnreadable \<Rightarrow> False
         | RatchetMap _ received \<Rightarrow>
             (if snd (numericValue received) then now > fst (numericValue received) + RatchetExpiry else True) \<or> unknown
         | _ \<Rightarrow> True))"

definition CleanRatchets :: "rat \<Rightarrow> known_state \<Rightarrow> known_state" where
  "CleanRatchets now ks =
     (if \<not> kd_storage ks then ks
      else
        let bad = (\<lambda>(name, data). discard_ratchet now (knownDestinations ks) name data) in
        ks\<lparr>ratchetFiles := filter (\<lambda>f. \<not> bad f) (ratchetFiles ks),
           knownRatchets := (if list_ex bad (ratchetFiles ks) then Map.empty else knownRatchets ks)\<rparr>)"

text \<open>The effects of a valid announce on the transport.\<close>

fun apply_effect :: "bool \<Rightarrow> rat \<Rightarrow> announce_effect \<Rightarrow> known_state \<Rightarrow> known_state" where
  "apply_effect io_ok now (Remember packetHash destHash publicKey appData) ks = transport_Remember now packetHash destHash publicKey appData ks"
| "apply_effect io_ok now (SetRatchet destHash ratchet) ks = transport_SetRatchet io_ok now destHash ratchet ks"

definition apply_effects :: "bool \<Rightarrow> rat \<Rightarrow> announce_effect list \<Rightarrow> known_state \<Rightarrow> known_state" where
  "apply_effects io_ok now effects ks = fold (apply_effect io_ok now) effects ks"

section \<open>From an announce to an encrypted packet\<close>

lemma kd_dirty_simps [simp]:
  "knownDestinations (kd_dirty ks) = knownDestinations ks" "knownRatchets (kd_dirty ks) = knownRatchets ks"
  "kd_pathTable (kd_dirty ks) = kd_pathTable ks" "kd_registered (kd_dirty ks) = kd_registered ks"
  by (simp_all add: kd_dirty_def)

lemma Remember_entry:
  "map_of (knownDestinations (transport_Remember now ph dest pk app ks)) dest =
     Some [KNum now, KBytes (Some ph), KBytes (Some pk), KBytes app,
           case map_of (knownDestinations ks) dest of Some e \<Rightarrow> if length e > 4 then e ! 4 else KNum 0 | None \<Rightarrow> KNum 0]"
  by (simp add: transport_Remember_def Let_def update_conv')

lemma SetRatchet_known:
  "dest \<noteq> [] \<Longrightarrow> r \<noteq> [] \<Longrightarrow> knownRatchets (transport_SetRatchet io now dest r ks) dest = Some r"
  "knownDestinations (transport_SetRatchet io now dest r ks) = knownDestinations ks"
  by (auto simp: transport_SetRatchet_def Let_def persistRatchet_def split: option.splits if_splits)

lemma Recall_ratchets: "knownRatchets (fst (recallLocked now t noUse ks)) = knownRatchets ks"
  by (auto simp: recallLocked_def Let_def usedDestinationDataLocked_def split: option.splits prod.splits)

text \<open>What a node knows after it accepted an announce.\<close>

lemma announced_known:
  assumes "dest \<noteq> []" and "r \<noteq> []" and "length pk = 64"
    and "ks1 = apply_effects io now [Remember ph dest pk app, SetRatchet dest r] ks"
  shows "knownRatchets ks1 dest = Some r"
    and "\<exists>ident. snd (recallLocked now2 dest noUse ks1) = Some (Some (ident, app)) \<and> pub ident = Some (take 32 pk) \<and> id_Hash ident = TruncatedHash pk"
proof -
  show "knownRatchets ks1 dest = Some r" using assms by (simp add: apply_effects_def SetRatchet_known(1))
  obtain u where "map_of (knownDestinations ks1) dest = Some [KNum now, KBytes (Some ph), KBytes (Some pk), KBytes app, u]"
    using assms(4) Remember_entry [of now ph dest pk app ks] by (simp add: apply_effects_def SetRatchet_known(2))
  then show "\<exists>ident. snd (recallLocked now2 dest noUse ks1) = Some (Some (ident, app)) \<and> pub ident = Some (take 32 pk) \<and> id_Hash ident = TruncatedHash pk"
    using assms(3) by (simp add: recallLocked_def entry_identity_def LoadPublicKey_ok)
qed

text \<open>The destination that holds the announced ratchet first decrypts what is encrypted to it.\<close>

lemma ratchet_decrypts:
  assumes law: "curves_law cs" and rt: "\<And>n r. rt n = Some r \<Longrightarrow> length r = n"
    and d: "d_Type d = DestinationSingle" "d_identity d = Some i" "d_ratchets d = Some (r # rs)"
    and enc: "identity_Encrypt cs rk rt ident plaintext (x25519_pub cs r) = Inr ct" and salt: "id_Hash ident = id_Hash i"
  shows "destination_Decrypt cs swap fs d ct = (d, fs, Inr plaintext)"
proof -
  have "length (x25519_pub cs r) = 32" using law by (simp add: curves_law_def)
  then have ne: "x25519_pub cs r \<noteq> []" by auto
  then obtain e tok where e: "ct = x25519_pub cs e @ tok" "decrypt_with cs (id_Hash i) (x25519_pub cs e) tok r = Inr plaintext"
    using encrypt_form [OF enc law rt, of "x25519_pub cs r"] salt by auto
  have "length (x25519_pub cs e) = 32" using law by (simp add: curves_law_def)
  then have "identity_Decrypt cs i ct (r # rs) (d_enforceRatchets d) = Inr plaintext"
    using e by (simp add: identity_Decrypt_def Let_def identity_sizes NewX25519PublicKeyFromBytes_def)
  with d show ?thesis by (simp add: destination_Decrypt_def Let_def packet_consts)
qed

lemma full_identity_public:
  "full_identity cs i \<Longrightarrow> curves_law cs \<Longrightarrow> \<exists>pk. GetPublicKey i = Some pk \<and> length pk = 64 \<and> id_Hash i = TruncatedHash pk"
  by (auto simp: full_identity_def GetPublicKey_def curves_law_def)

text \<open>
  C39: From an announce to an encrypted packet. A destination with ratchets announces itself. A node that
  receives the packed announce accepts it, whatever it knew before; from then on it recalls the identity by the
  destination's hash, the destination it creates for that identity and name has the announced hash, and
  what it encrypts for it, with the ratchet from its store, the announcing destination decrypts, even
  if it enforces ratchets.
\<close>

theorem announce_enables_encryption:
  assumes law: "curves_law cs" and ok: "announceable cs i d" and name: "d_Hash d = CalculateHash (Some i) (d_appName d) (d_aspects d)"
    and build: "buildAnnouncePacket cs rr rk enc swap now fs d appData pathResponse = (d', fs', effects, Inr p)"
    and size: "length (announce_app d appData) \<le> 301" and rt: "\<And>n r. rt n = Some r \<Longrightarrow> length r = n"
    and ratchet: "announced_ratchet cs d' \<noteq> []"
  shows "\<exists>q u eff ident. Pack p = (q, None) \<and> Unpack (NewPacketFromRaw (Raw q)) = (u, None) \<and> ValidateAnnounce cs u = Some eff \<and>
    (let ks1 = apply_effects io now1 eff ks; ks2 = fst (Recall now2 (d_Hash d) ks1) in
      map_option (map_option fst) (snd (Recall now2 (d_Hash d) ks1)) = Some (Some ident) \<and>
      snd (GetRatchet now3 (d_Hash d) ks2) = Some (announced_ratchet cs d') \<and>
      (\<forall>out. NewDestination cs rx rs True (Some ident) DestinationOut DestinationSingle (d_appName d) (d_aspects d) = Inr out \<longrightarrow>
         d_Hash out = d_Hash d \<and>
         (\<forall>rk2 plaintext ct. snd (destination_Encrypt cs rk2 rt (\<lambda>h. snd (GetRatchet now3 h ks2)) out plaintext) = Inr ct \<longrightarrow>
            destination_Decrypt cs swap2 fs2 d' ct = (d', fs2, Inr plaintext))))"
proof -
  obtain pk where pk: "GetPublicKey i = Some pk" "length pk = 64" "id_Hash i = TruncatedHash pk"
    using full_identity_public [OF _ law, of i] ok by (auto simp: announceable_def)
  have d': "announceable cs i d'" "d_Hash d' = d_Hash d" using announce_built [OF law ok build] by metis+
  let ?app = "if announce_app d appData = [] then None else Some (announce_app d appData)"
  obtain q u where qu: "Pack p = (q, None)" "Unpack (NewPacketFromRaw (Raw q)) = (u, None)"
      "ValidateAnnounce cs u = Some [Remember (PacketHash q) (d_Hash d) pk ?app, SetRatchet (d_Hash d) (announced_ratchet cs d')]"
    using announce_validates [OF law ok build size] ratchet pk(1) by auto
  define ks1 where "ks1 = apply_effects io now1 [Remember (PacketHash q) (d_Hash d) pk ?app, SetRatchet (d_Hash d) (announced_ratchet cs d')] ks"
  have "length (d_Hash d) = 16" using ok by (auto simp: announceable_def FullHash_def dstLen_def)
  then have ne: "d_Hash d \<noteq> []" by auto
  note known = announced_known [OF ne ratchet pk(2) ks1_def]
  obtain ident where ident: "snd (Recall now2 (d_Hash d) ks1) = Some (Some (ident, ?app))" "id_Hash ident = id_Hash i"
    using known(2) pk(3) by (auto simp: Recall_def)
  obtain r rs' where r: "d_ratchets d' = Some (r # rs')" "announced_ratchet cs d' = x25519_pub cs r"
    using ratchet by (auto simp: announced_ratchet_def split: option.splits list.splits)
  have get: "snd (GetRatchet now3 (d_Hash d) (fst (Recall now2 (d_Hash d) ks1))) = Some (x25519_pub cs r)"
    using known(1) r(2) by (simp add: GetRatchet_def Recall_def Recall_ratchets)
  have out: "d_Hash out = d_Hash d" "d_identity out = Some ident" "d_Type out = DestinationSingle" "d_transport out"
    if "NewDestination cs rx rs True (Some ident) DestinationOut DestinationSingle (d_appName d) (d_aspects d) = Inr out" for out
    using that name ident(2) by (auto simp: NewDestination_def CalculateHash_def packet_consts split: if_splits)
  have "destination_Decrypt cs swap2 fs2 d' ct = (d', fs2, Inr plaintext)"
    if new: "NewDestination cs rx rs True (Some ident) DestinationOut DestinationSingle (d_appName d) (d_aspects d) = Inr out"
      and enc: "snd (destination_Encrypt cs rk2 rt (\<lambda>h. snd (GetRatchet now3 h (fst (Recall now2 (d_Hash d) ks1)))) out plaintext) = Inr ct"
    for out ct rk2 plaintext
  proof -
    have "identity_Encrypt cs rk2 rt ident plaintext (x25519_pub cs r) = Inr ct"
      using enc out [OF new] get by (auto simp: destination_Encrypt_def Let_def packet_consts map_sum_def split: sum.splits)
    then show ?thesis using ratchet_decrypts [OF law rt _ _ r(1) _ ident(2)] d' by (auto simp: announceable_def)
  qed
  then show ?thesis using qu ident(1) get r(2) out(1) unfolding ks1_def by (intro exI [of _ q] exI [of _ u] exI conjI) (auto simp: Let_def)
qed

definition demo_known :: known_state where
  "demo_known = \<lparr>knownDestinations = [], knownDestDirty = False, kd_storage = True, kd_running = True, kd_shared = False,
     knownRatchets = Map.empty, ratchetFiles = [], kd_pathTable = {}, kd_registered = Map.empty\<rparr>"

theorem announce_enables_encryption_witness:
  "\<exists>d' fs' effects p q u eff ident out ct.
     buildAnnouncePacket demo_curves (\<lambda>n. Some (replicate n 3)) (\<lambda>n. Some (replicate n 5)) Some False (10 ^ 18) demo_files
        demo_destination None False = (d', fs', effects, Inr p) \<and>
     Pack p = (q, None) \<and> Unpack (NewPacketFromRaw (Raw q)) = (u, None) \<and> ValidateAnnounce demo_curves u = Some eff \<and>
     map_option (map_option fst) (snd (Recall 20 (d_Hash demo_destination) (apply_effects True 10 eff demo_known))) = Some (Some ident) \<and>
     NewDestination demo_curves (\<lambda>n. None) (\<lambda>n. None) True (Some ident) DestinationOut DestinationSingle
        (d_appName demo_destination) (d_aspects demo_destination) = Inr out \<and>
     snd (destination_Encrypt demo_curves (\<lambda>n. Some (replicate n 9)) (\<lambda>n. Some (replicate n 8))
        (\<lambda>h. snd (GetRatchet 30 h (fst (Recall 20 (d_Hash demo_destination) (apply_effects True 10 eff demo_known))))) out [1, 2, 3]) = Inr ct \<and>
     destination_Decrypt demo_curves False demo_files d' ct = (d', demo_files, Inr [1, 2, 3])"
proof -
  obtain d' fs' effects p where p: "buildAnnouncePacket demo_curves (\<lambda>n. Some (replicate n 3)) (\<lambda>n. Some (replicate n 5)) Some False (10 ^ 18) demo_files
      demo_destination None False = (d', fs', effects, Inr p)" "announced_ratchet demo_curves d' = replicate 32 5"
    using demo_build by blast
  have name: "d_Hash demo_destination = CalculateHash (Some demo_identity) (d_appName demo_destination) (d_aspects demo_destination)"
      "0x2e \<notin> set (d_appName demo_destination)" "\<not> list_ex (\<lambda>aspect. 0x2e \<in> set aspect) (d_aspects demo_destination)"
    by (simp_all add: demo_new)
  have prem: "length (announce_app demo_destination None) \<le> 301" "announced_ratchet demo_curves d' \<noteq> []" using p(2) by (simp_all add: demo_app utf8_def)
  let ?ks = "\<lambda>eff. fst (Recall 20 (d_Hash demo_destination) (apply_effects True 10 eff demo_known))"
  obtain q u eff ident where q: "Pack p = (q, None)" "Unpack (NewPacketFromRaw (Raw q)) = (u, None)" "ValidateAnnounce demo_curves u = Some eff"
      "map_option (map_option fst) (snd (Recall 20 (d_Hash demo_destination) (apply_effects True 10 eff demo_known))) = Some (Some ident)"
      and get: "snd (GetRatchet 30 (d_Hash demo_destination) (?ks eff)) = Some (replicate 32 5)"
      and hash: "\<And>out. NewDestination demo_curves (\<lambda>n. None) (\<lambda>n. None) True (Some ident) DestinationOut DestinationSingle
         (d_appName demo_destination) (d_aspects demo_destination) = Inr out \<Longrightarrow> d_Hash out = d_Hash demo_destination"
      and dec: "\<And>out ct. NewDestination demo_curves (\<lambda>n. None) (\<lambda>n. None) True (Some ident) DestinationOut DestinationSingle
         (d_appName demo_destination) (d_aspects demo_destination) = Inr out \<Longrightarrow>
         snd (destination_Encrypt demo_curves (\<lambda>n. Some (replicate n 9)) (\<lambda>n. Some (replicate n 8)) (\<lambda>h. snd (GetRatchet 30 h (?ks eff))) out [1, 2, 3]) = Inr ct \<Longrightarrow>
         destination_Decrypt demo_curves False demo_files d' ct = (d', demo_files, Inr [1, 2, 3])"
    using announce_enables_encryption [OF demo_curves_law demo_announceable name(1) p(1) prem(1) _ prem(2), where rt = "\<lambda>n. Some (replicate n 8)" and
        io = True and ?now1.0 = 10 and ?now2.0 = 20 and ?now3.0 = 30 and ks = demo_known and rx = "\<lambda>n. None" and rs = "\<lambda>n. None"
        and ?swap2.0 = False and ?fs2.0 = demo_files] unfolding Let_def p(2) by auto
  obtain out where out: "NewDestination demo_curves (\<lambda>n. None) (\<lambda>n. None) True (Some ident) DestinationOut DestinationSingle
         (d_appName demo_destination) (d_aspects demo_destination) = Inr out" "d_identity out = Some ident" "d_Type out = DestinationSingle" "d_transport out"
    using name(2,3) by (auto simp: NewDestination_def packet_consts)
  obtain ct where "snd (destination_Encrypt demo_curves (\<lambda>n. Some (replicate n 9)) (\<lambda>n. Some (replicate n 8)) (\<lambda>h. snd (GetRatchet 30 h (?ks eff))) out [1, 2, 3]) = Inr ct"
    using demo_Encrypt_ok [of "replicate 32 5" ident "[1, 2, 3]"] out hash [OF out(1)] get
    by (auto simp: destination_Encrypt_def Let_def packet_consts)
  then show ?thesis using p(1) q out(1) dec [OF out(1)] by blast
qed

section \<open>Retention\<close>

text \<open>The operations on the known destinations, except the one that withdraws a retention.\<close>

datatype kd_op =
    OpRemember rat bytes bytes bytes "bytes option"
  | OpRecall rat bytes bool
  | OpUsed rat bytes
  | OpRetain bytes
  | OpRetainIdentity bytes
  | OpClean rat

fun kd_step :: "kd_op \<Rightarrow> known_state \<Rightarrow> known_state" where
  "kd_step (OpRemember now ph dh pk app) ks = transport_Remember now ph dh pk app ks"
| "kd_step (OpRecall now t noUse) ks = fst (recallLocked now t noUse ks)"
| "kd_step (OpUsed now dh) ks = fst (usedDestinationDataLocked now dh ks)"
| "kd_step (OpRetain dh) ks = fst (RetainDestinationData dh ks)"
| "kd_step (OpRetainIdentity h) ks = fst (RetainIdentity h ks)"
| "kd_step (OpClean now) ks = CleanKnownDestinations now ks"

definition retained :: "known_state \<Rightarrow> bytes \<Rightarrow> bool" where
  "retained ks dh \<longleftrightarrow> (\<exists>e. map_of (knownDestinations ks) dh = Some e \<and> length e \<ge> 5 \<and> e ! 4 = KNum (-1))"

lemma retained_update:
  assumes "retained ks dh" and "knownDestinations ks' = AList.update dh' e (knownDestinations ks)"
    and "dh' = dh \<Longrightarrow> length e \<ge> 5 \<and> e ! 4 = KNum (-1)"
  shows "retained ks' dh"
  using assms by (auto simp: retained_def update_conv')

lemma retained_used: "retained ks dh \<Longrightarrow> retained (fst (usedDestinationDataLocked now t ks)) dh"
proof (cases "t = dh")
  case True
  then show "retained ks dh \<Longrightarrow> retained (fst (usedDestinationDataLocked now t ks)) dh"
    by (auto simp: usedDestinationDataLocked_def retained_def)
next
  case False
  then show "retained ks dh \<Longrightarrow> retained (fst (usedDestinationDataLocked now t ks)) dh"
    by (auto simp: usedDestinationDataLocked_def retained_def update_conv' split: option.splits)
qed

lemma distinct_used:
  "distinct (map fst (knownDestinations ks)) \<Longrightarrow> distinct (map fst (knownDestinations (fst (usedDestinationDataLocked now t ks))))"
  by (auto simp: usedDestinationDataLocked_def distinct_update split: option.splits)

lemma map_of_filter_key: "P dh \<Longrightarrow> map_of (filter (\<lambda>(k, e). P k) xs) dh = map_of xs dh"
  by (induction xs) auto

lemma retained_clean:
  assumes "retained ks dh" and dist: "distinct (map fst (knownDestinations ks))"
  shows "retained (CleanKnownDestinations now ks) dh"
proof -
  obtain e where e: "map_of (knownDestinations ks) dh = Some e" "length e \<ge> 5" "e ! 4 = KNum (-1)" using assms(1) by (auto simp: retained_def)
  then have "\<not> stale_entry now (kd_pathTable ks) dh e" by (simp add: stale_entry_def Let_def)
  then have "dh \<notin> set (map fst (filter (\<lambda>(dh, entry). stale_entry now (kd_pathTable ks) dh entry) (knownDestinations ks)))"
    using e(1) map_of_is_SomeI [OF dist] by force
  then show ?thesis using e by (simp add: CleanKnownDestinations_def retained_def Let_def map_of_filter_key del: set_map)
qed

lemma map_of_map_entry: "map_of (map (\<lambda>(k, e). (k, f e)) xs) dh = map_option f (map_of xs dh)"
  by (induction xs) auto

lemma map_fst_entry: "map (fst \<circ> (\<lambda>(k, e). (k, f e))) xs = map fst xs"
  by (induction xs) auto

lemma retained_step:
  assumes "retained ks dh" and "distinct (map fst (knownDestinations ks))"
  shows "retained (kd_step op ks) dh \<and> distinct (map fst (knownDestinations (kd_step op ks)))"
proof (cases op)
  case (OpRemember now ph t pk app)
  obtain e where "map_of (knownDestinations ks) dh = Some e" "length e \<ge> 5" "e ! 4 = KNum (-1)" using assms(1) by (auto simp: retained_def)
  then show ?thesis using assms OpRemember
    by (cases "t = dh") (simp_all add: transport_Remember_def Let_def distinct_update retained_def update_conv')
next
  case (OpRecall now t noUse)
  have "\<exists>t'. kd_step op ks = ks \<or> kd_step op ks = fst (usedDestinationDataLocked now t' ks)"
    using OpRecall by (auto simp: recallLocked_def Let_def split: option.splits prod.splits)
  then show ?thesis using assms retained_used distinct_used by metis
next
  case (OpUsed now t)
  then show ?thesis using assms retained_used distinct_used by simp
next
  case (OpRetain t)
  obtain e where "map_of (knownDestinations ks) dh = Some e" "length e \<ge> 5" "e ! 4 = KNum (-1)" using assms(1) by (auto simp: retained_def)
  then show ?thesis using assms OpRetain
    by (cases "t = dh"; cases "map_of (knownDestinations ks) t")
      (simp_all add: RetainDestinationData_def distinct_update retained_def update_conv' del: map_of_eq_Some_iff)
next
  case (OpRetainIdentity h)
  obtain e where "map_of (knownDestinations ks) dh = Some e" "length e \<ge> 5" "e ! 4 = KNum (-1)" using assms(1) by (auto simp: retained_def)
  then show ?thesis using OpRetainIdentity assms(2)
    by (simp add: RetainIdentity_def Let_def retained_def map_of_map_entry map_fst_entry del: map_of_eq_Some_iff)
next
  case (OpClean now)
  then show ?thesis using assms retained_clean by (auto simp: CleanKnownDestinations_def Let_def distinct_map_filter)
qed

text \<open>
  A retained destination is never forgotten. Once \<^verbatim>\<open>RetainDestinationData\<close> accepted a destination, no
  sequence of announces, recalls, use marks, further retentions and clean-ups removes its entry or its
  mark, however much time passes and whether or not a path to it is known.
\<close>

theorem retained_never_forgotten:
  assumes "distinct (map fst (knownDestinations ks))" and "RetainDestinationData dh ks = (ks', True)"
  shows "retained (fold kd_step ops ks') dh"
proof -
  have "retained ks' dh \<and> distinct (map fst (knownDestinations ks'))"
    using assms by (auto simp: RetainDestinationData_def distinct_update retained_def update_conv' split: option.splits if_splits)
  then have "retained (fold kd_step ops ks') dh \<and> distinct (map fst (knownDestinations (fold kd_step ops ks')))"
    using retained_step by (induction ops arbitrary: ks') auto
  then show ?thesis by blast
qed

theorem retained_never_forgotten_witness:
  "retained (fold kd_step [OpRemember 5 [9] [1] [7] None, OpUsed 6 [1], OpClean (10 ^ 9)]
     (fst (RetainDestinationData [1] (transport_Remember 3 [8] [1] [7] None demo_known)))) [1]"
proof (rule retained_never_forgotten)
  let ?ks = "transport_Remember 3 [8] [1] [7] None demo_known"
  show "distinct (map fst (knownDestinations ?ks))" by (simp add: demo_known_def transport_Remember_def kd_dirty_def)
  show "RetainDestinationData [1] ?ks = (fst (RetainDestinationData [1] ?ks), True)"
    by (simp add: demo_known_def transport_Remember_def kd_dirty_def RetainDestinationData_def)
qed

text \<open>
  An announced destination that was never used is not kept for six minutes. Its use mark is zero, so
  the time since its last use is the time since 1970, and unless a path is known the next clean-up
  drops it, even at the moment of the announce.
\<close>

theorem unused_destination_dropped_at_once:
  assumes "map_of (knownDestinations ks) dh = None" and "dh \<notin> kd_pathTable ks" and "now > 756000"
  shows "map_of (knownDestinations (CleanKnownDestinations now (transport_Remember now ph dh pk app ks))) dh = None"
proof -
  let ?ks = "transport_Remember now ph dh pk app ks"
  have "map_of (knownDestinations ?ks) dh = Some [KNum now, KBytes (Some ph), KBytes (Some pk), KBytes app, KNum 0]"
    using Remember_entry assms(1) by simp
  then have e: "(dh, [KNum now, KBytes (Some ph), KBytes (Some pk), KBytes app, KNum 0]) \<in> set (knownDestinations ?ks)"
    by (rule map_of_SomeD)
  have "stale_entry now (kd_pathTable ?ks) dh [KNum now, KBytes (Some ph), KBytes (Some pk), KBytes app, KNum 0]"
    using assms(2,3) by (simp add: stale_entry_def transport_Remember_def Let_def)
  with e have "dh \<in> set (map fst (filter (\<lambda>(dh, entry). stale_entry now (kd_pathTable ?ks) dh entry) (knownDestinations ?ks)))"
    by force
  then show ?thesis by (auto simp: CleanKnownDestinations_def Let_def map_of_eq_None_iff simp del: set_map)
qed

theorem unused_destination_dropped_at_once_witness:
  "map_of (knownDestinations (transport_Remember (10 ^ 9) [8] [1] [7] None demo_known)) [1] \<noteq> None \<and>
   map_of (knownDestinations (CleanKnownDestinations (10 ^ 9) (transport_Remember (10 ^ 9) [8] [1] [7] None demo_known))) [1] = None"
  using unused_destination_dropped_at_once [of demo_known "[1]" "10 ^ 9" "[8]" "[7]" None] Remember_entry [of "10 ^ 9" "[8]" "[1]" "[7]" None demo_known]
  by (simp add: demo_known_def)

end
