(* ===== verification/Ingress.thy ===== *)
theory Ingress
  imports Prelude Complex_Main "HOL-Library.AList" "HOL-Library.Multiset"
begin

text \<open>
  Ingress and egress control of an interface (\<^verbatim>\<open>rns/interfaces/base.go\<close>): the bounded sample queues of
  announces and path requests, the frequencies computed from them, the burst state machines and the
  announces held back during a burst. Instants are in nanoseconds, frequencies and configured
  durations rationals (the code's \<^verbatim>\<open>float64\<close>). The table of held announces is a Go map:
  \<open>order\<close> is the order in which an iteration visits it.
\<close>

section \<open>State\<close>

record held_announce =
  ha_raw :: bytes
  ha_recv :: nat
  ha_hops :: int

record ingress =
  ingressControl :: bool
  icMaxHeldAnnounces :: int
  icBurstHold :: rat
  icBurstFreqNew :: rat
  icBurstFreq :: rat
  icPrBurstFreqNew :: rat
  icPrBurstFreq :: rat
  icNewTime :: rat
  icBurstPenalty :: rat
  icHeldReleaseInterval :: rat
  ecPrFreq :: rat
  egressControl :: bool
  created :: int
  iaFreqDeque :: "int list"
  oaFreqDeque :: "int list"
  ipFreqDeque :: "int list"
  opFreqDeque :: "int list"
  announceRxCount :: uint64
  announceRxBytes :: uint64
  announceTxCount :: uint64
  announceTxBytes :: uint64
  prRxCount :: uint64
  prRxBytes :: uint64
  prTxCount :: uint64
  prTxBytes :: uint64
  icBurstActive :: bool
  icBurstActivated :: int
  icBurstCount :: int
  icHeldRelease :: int
  heldAnnounces :: "(bytes \<times> held_announce) list"
  icPrBurstActive :: bool
  icPrBurstActivated :: int
  icPrBurstCount :: int
  announceRateTarget :: "int option"
  announceRateGrace :: "int option"
  announceRatePenalty :: "int option"

abbreviation (input) IAFreqSamples :: nat where "IAFreqSamples \<equiv> 48"
abbreviation (input) OAFreqSamples :: nat where "OAFreqSamples \<equiv> 48"
abbreviation (input) IPFreqSamples :: nat where "IPFreqSamples \<equiv> 48"
abbreviation (input) OPFreqSamples :: nat where "OPFreqSamples \<equiv> 48"
abbreviation (input) ARFreqDecay :: rat where "ARFreqDecay \<equiv> 10"
abbreviation (input) PRFreqDecay :: rat where "PRFreqDecay \<equiv> 10"
abbreviation (input) ICDequeMinSample :: nat where "ICDequeMinSample \<equiv> 2"
abbreviation (input) ICBurstMinSamples :: nat where "ICBurstMinSamples \<equiv> 6"
abbreviation (input) HeldHopLimit :: int where "HeldHopLimit \<equiv> 128 - 1"

text \<open>The zero value of \<^verbatim>\<open>time.Time\<close>.\<close>

abbreviation (input) year1 :: int where "year1 \<equiv> -62135596800 * 10 ^ 9"

text \<open>\<^verbatim>\<open>NewBaseInterface\<close> and the inheritance of the configuration by a spawned interface.\<close>

definition NewBaseInterface :: "int \<Rightarrow> ingress" where
  "NewBaseInterface now =
     \<lparr>ingressControl = True, icMaxHeldAnnounces = 256, icBurstHold = 15, icBurstFreqNew = 3, icBurstFreq = 10,
      icPrBurstFreqNew = 3, icPrBurstFreq = 8, icNewTime = 2 * 60 * 60, icBurstPenalty = 15,
      icHeldReleaseInterval = 5, ecPrFreq = 5, egressControl = False, created = now,
      iaFreqDeque = [], oaFreqDeque = [], ipFreqDeque = [], opFreqDeque = [],
      announceRxCount = 0, announceRxBytes = 0, announceTxCount = 0, announceTxBytes = 0,
      prRxCount = 0, prRxBytes = 0, prTxCount = 0, prTxBytes = 0,
      icBurstActive = False, icBurstActivated = year1, icBurstCount = 0, icHeldRelease = year1, heldAnnounces = [],
      icPrBurstActive = False, icPrBurstActivated = year1, icPrBurstCount = 0,
      announceRateTarget = None, announceRateGrace = None, announceRatePenalty = None\<rparr>"

definition copyIngressEgressFrom :: "ingress \<Rightarrow> ingress \<Rightarrow> ingress" where
  "copyIngressEgressFrom parent bi =
     bi\<lparr>ingressControl := ingressControl parent, icMaxHeldAnnounces := icMaxHeldAnnounces parent,
        icBurstHold := icBurstHold parent, icBurstFreqNew := icBurstFreqNew parent, icBurstFreq := icBurstFreq parent,
        icNewTime := icNewTime parent, icBurstPenalty := icBurstPenalty parent,
        icHeldReleaseInterval := icHeldReleaseInterval parent, egressControl := egressControl parent,
        ecPrFreq := ecPrFreq parent, icPrBurstFreqNew := icPrBurstFreqNew parent, icPrBurstFreq := icPrBurstFreq parent,
        announceRateTarget := announceRateTarget parent, announceRateGrace := announceRateGrace parent,
        announceRatePenalty := announceRatePenalty parent\<rparr>"

text \<open>\<^verbatim>\<open>Duration.Seconds()\<close>, and \<^verbatim>\<open>time.Duration(x) * time.Second\<close>, which drops the fraction of \<open>x\<close>.\<close>

definition seconds :: "int \<Rightarrow> rat" where
  "seconds d = of_int d / 10 ^ 9"

definition whole_seconds :: "rat \<Rightarrow> int" where
  "whole_seconds x = (if 0 \<le> x then \<lfloor>x\<rfloor> else \<lceil>x\<rceil>) * 10 ^ 9"

section \<open>Samples\<close>

definition appendFreqSample :: "int list \<Rightarrow> int \<Rightarrow> nat \<Rightarrow> int list" where
  "appendFreqSample deque now maxlen =
     (let deque = deque @ [now] in if length deque > maxlen then drop (length deque - maxlen) deque else deque)"

definition receivedAnnounceAtSize :: "int \<Rightarrow> int \<Rightarrow> ingress \<Rightarrow> ingress" where
  "receivedAnnounceAtSize now sz bi =
     bi\<lparr>iaFreqDeque := appendFreqSample (iaFreqDeque bi) now IAFreqSamples,
        announceRxCount := announceRxCount bi + 1,
        announceRxBytes := announceRxBytes bi + word_of_int (max sz 0)\<rparr>"

definition sentAnnounceAtSize :: "int \<Rightarrow> int \<Rightarrow> ingress \<Rightarrow> ingress" where
  "sentAnnounceAtSize now sz bi =
     bi\<lparr>oaFreqDeque := appendFreqSample (oaFreqDeque bi) now OAFreqSamples,
        announceTxCount := announceTxCount bi + 1,
        announceTxBytes := announceTxBytes bi + word_of_int (max sz 0)\<rparr>"

definition receivedPathRequestAtSize :: "int \<Rightarrow> int \<Rightarrow> ingress \<Rightarrow> ingress" where
  "receivedPathRequestAtSize now sz bi =
     bi\<lparr>ipFreqDeque := appendFreqSample (ipFreqDeque bi) now IPFreqSamples,
        prRxCount := prRxCount bi + 1,
        prRxBytes := prRxBytes bi + word_of_int (max sz 0)\<rparr>"

definition sentPathRequestAtSize :: "int \<Rightarrow> int \<Rightarrow> ingress \<Rightarrow> ingress" where
  "sentPathRequestAtSize now sz bi =
     bi\<lparr>opFreqDeque := appendFreqSample (opFreqDeque bi) now OPFreqSamples,
        prTxCount := prTxCount bi + 1,
        prTxBytes := prTxBytes bi + word_of_int (max sz 0)\<rparr>"

text \<open>A sample on interface \<open>i\<close> is repeated on the interface that spawned it.\<close>

definition record_sample :: "(ingress \<Rightarrow> ingress) \<Rightarrow> (nat \<Rightarrow> nat option) \<Rightarrow> nat \<Rightarrow> (nat \<Rightarrow> ingress) \<Rightarrow> (nat \<Rightarrow> ingress)" where
  "record_sample f parentInterface i st =
     (let st = st(i := f (st i)) in (case parentInterface i of None \<Rightarrow> st | Some q \<Rightarrow> st(q := f (st q))))"

text \<open>
  The frequency of a sample queue; a queue whose oldest sample is too old loses it.
  The incoming and the outgoing formula differ in the number of samples they need.
\<close>

definition deque_frequency :: "nat \<Rightarrow> rat \<Rightarrow> int \<Rightarrow> int list \<Rightarrow> int list \<times> rat" where
  "deque_frequency minSample decay now deque =
     (let n = length deque in
      if \<not> n > minSample then (deque, 0)
      else
        let span = seconds (now - hd deque);
            deque = (if span > decay then tl deque else deque)
        in (deque, if span \<le> 0 then 0 else of_nat n / span))"

definition incomingAnnounceFrequencyAtLocked :: "int \<Rightarrow> ingress \<Rightarrow> ingress \<times> rat" where
  "incomingAnnounceFrequencyAtLocked now bi =
     (case deque_frequency ICDequeMinSample ARFreqDecay now (iaFreqDeque bi) of (q, f) \<Rightarrow> (bi\<lparr>iaFreqDeque := q\<rparr>, f))"

definition outgoingAnnounceFrequencyAtLocked :: "int \<Rightarrow> ingress \<Rightarrow> ingress \<times> rat" where
  "outgoingAnnounceFrequencyAtLocked now bi =
     (case deque_frequency 1 ARFreqDecay now (oaFreqDeque bi) of (q, f) \<Rightarrow> (bi\<lparr>oaFreqDeque := q\<rparr>, f))"

definition incomingPrFrequencyAtLocked :: "int \<Rightarrow> ingress \<Rightarrow> ingress \<times> rat" where
  "incomingPrFrequencyAtLocked now bi =
     (case deque_frequency ICDequeMinSample PRFreqDecay now (ipFreqDeque bi) of (q, f) \<Rightarrow> (bi\<lparr>ipFreqDeque := q\<rparr>, f))"

definition outgoingPrFrequencyAtLocked :: "int \<Rightarrow> ingress \<Rightarrow> ingress \<times> rat" where
  "outgoingPrFrequencyAtLocked now bi =
     (case deque_frequency 1 PRFreqDecay now (opFreqDeque bi) of (q, f) \<Rightarrow> (bi\<lparr>opFreqDeque := q\<rparr>, f))"

definition ageAt :: "int \<Rightarrow> ingress \<Rightarrow> rat" where
  "ageAt now bi = seconds (now - created bi)"

section \<open>Bursts\<close>

definition shouldIngressLimitAt :: "int \<Rightarrow> ingress \<Rightarrow> ingress \<times> bool" where
  "shouldIngressLimitAt now bi =
     (if \<not> ingressControl bi then (bi, False)
      else
        let freqThreshold = (if ageAt now bi \<ge> icNewTime bi then icBurstFreq bi else icBurstFreqNew bi) in
        (case incomingAnnounceFrequencyAtLocked now bi of
           (bi, iaFreq) \<Rightarrow>
             if icBurstActive bi then
               (if iaFreq < freqThreshold \<and> now > icBurstActivated bi + whole_seconds (icBurstHold bi)
                   \<and> length (iaFreqDeque bi) \<ge> ICDequeMinSample
                then bi\<lparr>icBurstActive := False\<rparr> else bi, True)
             else if iaFreq > freqThreshold then
               (bi\<lparr>icBurstActive := True, icBurstActivated := now, icBurstCount := icBurstCount bi + 1,
                   icHeldRelease := now + whole_seconds (icBurstPenalty bi)\<rparr>, True)
             else (bi, False)))"

definition shouldIngressLimitPrAt :: "int \<Rightarrow> ingress \<Rightarrow> ingress \<times> bool" where
  "shouldIngressLimitPrAt now bi =
     (if \<not> ingressControl bi then (bi, False)
      else
        let freqThreshold = (if ageAt now bi \<ge> icNewTime bi then icPrBurstFreq bi else icPrBurstFreqNew bi) in
        (case incomingPrFrequencyAtLocked now bi of
           (bi, ipFreq) \<Rightarrow>
             if icPrBurstActive bi then
               (if ipFreq < freqThreshold \<and> now > icPrBurstActivated bi + whole_seconds (icBurstHold bi)
                then bi\<lparr>icPrBurstActive := False\<rparr> else bi, True)
             else if ipFreq > freqThreshold then
               (bi\<lparr>icPrBurstActive := True, icPrBurstActivated := now, icPrBurstCount := icPrBurstCount bi + 1\<rparr>, True)
             else (bi, False)))"

definition shouldEgressLimitPrAt :: "int \<Rightarrow> ingress \<Rightarrow> ingress \<times> bool" where
  "shouldEgressLimitPrAt now bi =
     (if \<not> egressControl bi then (bi, False)
      else
        (case outgoingPrFrequencyAtLocked now bi of
           (bi, opFreq) \<Rightarrow> (bi, opFreq > ecPrFreq bi \<and> length (opFreqDeque bi) \<ge> ICBurstMinSamples)))"

section \<open>Held announces\<close>

definition HoldAnnounce :: "bytes \<Rightarrow> nat \<Rightarrow> int \<Rightarrow> bytes \<Rightarrow> ingress \<Rightarrow> ingress" where
  "HoldAnnounce raw recv hops destHash bi =
     (if hops \<ge> HeldHopLimit then bi
      else
        let entry = \<lparr>ha_raw = raw, ha_recv = recv, ha_hops = hops\<rparr> in
        if map_of (heldAnnounces bi) destHash \<noteq> None \<or> int (length (heldAnnounces bi)) < icMaxHeldAnnounces bi
        then bi\<lparr>heldAnnounces := AList.update destHash entry (heldAnnounces bi)\<rparr> else bi)"

definition ReleaseHeldAnnounce :: "bytes \<Rightarrow> ingress \<Rightarrow> ingress \<times> (bytes \<times> nat) option" where
  "ReleaseHeldAnnounce destHash bi =
     (case map_of (heldAnnounces bi) destHash of
        None \<Rightarrow> (bi, None)
      | Some e \<Rightarrow> (bi\<lparr>heldAnnounces := AList.delete destHash (heldAnnounces bi)\<rparr>, Some (ha_raw e, ha_recv e)))"

definition ClearHeldAnnounces :: "ingress \<Rightarrow> ingress" where
  "ClearHeldAnnounces bi = bi\<lparr>heldAnnounces := []\<rparr>"

fun fewest_hops :: "(bytes \<times> held_announce) option \<Rightarrow> (bytes \<times> held_announce) list \<Rightarrow> (bytes \<times> held_announce) option" where
  "fewest_hops sel [] = sel"
| "fewest_hops None (e # es) = fewest_hops (Some e) es"
| "fewest_hops (Some s) (e # es) = fewest_hops (Some (if ha_hops (snd e) < ha_hops (snd s) then e else s)) es"

definition processHeldAnnouncesAt ::
  "((bytes \<times> held_announce) list \<Rightarrow> (bytes \<times> held_announce) list) \<Rightarrow> int \<Rightarrow> ingress \<Rightarrow> ingress \<times> (bytes \<times> nat) option" where
  "processHeldAnnouncesAt order now bi =
     (if heldAnnounces bi = [] \<or> \<not> now > icHeldRelease bi then (bi, None)
      else
        let freqThreshold = (if ageAt now bi \<ge> icNewTime bi then icBurstFreq bi else icBurstFreqNew bi) in
        (case incomingAnnounceFrequencyAtLocked now bi of
           (bi, f) \<Rightarrow>
             if f \<ge> freqThreshold then (bi, None)
             else
               (case fewest_hops None (order (heldAnnounces bi)) of
                  None \<Rightarrow> (bi, None)
                | Some (key, e) \<Rightarrow>
                    (bi\<lparr>icHeldRelease := now + whole_seconds (icHeldReleaseInterval bi),
                        heldAnnounces := AList.delete key (heldAnnounces bi)\<rparr>, Some (ha_raw e, ha_recv e)))))"

section \<open>Bounds\<close>

definition ingress_wf :: "ingress \<Rightarrow> bool" where
  "ingress_wf bi \<longleftrightarrow> length (iaFreqDeque bi) \<le> 48 \<and> length (oaFreqDeque bi) \<le> 48 \<and> length (ipFreqDeque bi) \<le> 48
     \<and> length (opFreqDeque bi) \<le> 48 \<and> distinct (map fst (heldAnnounces bi))
     \<and> int (length (heldAnnounces bi)) \<le> max 0 (icMaxHeldAnnounces bi)
     \<and> (\<forall>e \<in> set (heldAnnounces bi). ha_hops (snd e) < HeldHopLimit)"

datatype ingress_op =
    ReceivedAnnounceOp int int | SentAnnounceOp int int | ReceivedPathRequestOp int int | SentPathRequestOp int int
  | IngressLimitOp int | IngressLimitPrOp int | EgressLimitPrOp int
  | HoldOp bytes nat int bytes | ReleaseOp bytes | ProcessOp int | ClearOp

fun ingress_step ::
  "((bytes \<times> held_announce) list \<Rightarrow> (bytes \<times> held_announce) list) \<Rightarrow> ingress_op \<Rightarrow> ingress \<Rightarrow> ingress" where
  "ingress_step order (ReceivedAnnounceOp now sz) bi = receivedAnnounceAtSize now sz bi"
| "ingress_step order (SentAnnounceOp now sz) bi = sentAnnounceAtSize now sz bi"
| "ingress_step order (ReceivedPathRequestOp now sz) bi = receivedPathRequestAtSize now sz bi"
| "ingress_step order (SentPathRequestOp now sz) bi = sentPathRequestAtSize now sz bi"
| "ingress_step order (IngressLimitOp now) bi = fst (shouldIngressLimitAt now bi)"
| "ingress_step order (IngressLimitPrOp now) bi = fst (shouldIngressLimitPrAt now bi)"
| "ingress_step order (EgressLimitPrOp now) bi = fst (shouldEgressLimitPrAt now bi)"
| "ingress_step order (HoldOp raw recv hops destHash) bi = HoldAnnounce raw recv hops destHash bi"
| "ingress_step order (ReleaseOp destHash) bi = fst (ReleaseHeldAnnounce destHash bi)"
| "ingress_step order (ProcessOp now) bi = fst (processHeldAnnouncesAt order now bi)"
| "ingress_step order ClearOp bi = ClearHeldAnnounces bi"

lemma appendFreqSample_length: "length q \<le> n \<Longrightarrow> length (appendFreqSample q now n) \<le> n"
  by (auto simp: appendFreqSample_def Let_def)

lemma deque_frequency_length: "length q \<le> n \<Longrightarrow> length (fst (deque_frequency m d now q)) \<le> n"
  by (auto simp: deque_frequency_def Let_def)

lemma delete_wf:
  assumes "ingress_wf bi"
  shows "ingress_wf (bi\<lparr>heldAnnounces := AList.delete k (heldAnnounces bi)\<rparr>)"
proof -
  have "length (AList.delete k (heldAnnounces bi)) \<le> length (heldAnnounces bi)"
    by (simp add: AList.delete_eq)
  moreover have "set (AList.delete k (heldAnnounces bi)) \<subseteq> set (heldAnnounces bi)" by (auto simp: AList.delete_eq)
  ultimately show ?thesis
    using assms by (force simp: ingress_wf_def distinct_delete)
qed

lemma Hold_wf:
  assumes "ingress_wf bi"
  shows "ingress_wf (HoldAnnounce raw recv hops dest bi)"
proof -
  have len: "length (AList.update k v xs) = (if map_of xs k = None then Suc (length xs) else length xs)"
    for k and v :: held_announce and xs
    by (induction xs) auto
  have "set (AList.update k v xs) \<subseteq> insert (k, v) (set xs)" for k and v :: held_announce and xs
    by (induction xs) auto
  then show ?thesis
    using assms by (fastforce simp: HoldAnnounce_def Let_def ingress_wf_def len distinct_update split: if_splits)
qed

lemma ingress_step_wf:
  assumes "ingress_wf bi"
  shows "ingress_wf (ingress_step order op1 bi) \<and> icMaxHeldAnnounces (ingress_step order op1 bi) = icMaxHeldAnnounces bi"
proof (cases op1)
  case (HoldOp raw recv hops dest)
  then show ?thesis using Hold_wf [OF assms] by (simp add: HoldAnnounce_def Let_def)
next
  case (ReleaseOp dest)
  then show ?thesis using assms delete_wf [OF assms] by (simp add: ReleaseHeldAnnounce_def split: option.split)
next
  case (ProcessOp now)
  have w: "ingress_wf (bi\<lparr>iaFreqDeque := fst (deque_frequency 2 10 now (iaFreqDeque bi))\<rparr>)"
    using assms deque_frequency_length [of "iaFreqDeque bi" 48] by (simp add: ingress_wf_def)
  then have "ingress_wf (bi\<lparr>iaFreqDeque := fst (deque_frequency 2 10 now (iaFreqDeque bi)),
      icHeldRelease := x, heldAnnounces := AList.delete k (heldAnnounces bi)\<rparr>)" for x k
    using delete_wf [OF w, of k] by (simp add: ingress_wf_def)
  with w assms ProcessOp show ?thesis
    by (auto simp: processHeldAnnouncesAt_def incomingAnnounceFrequencyAtLocked_def Let_def split: prod.splits option.splits)
next
  case (IngressLimitOp now)
  then show ?thesis using assms deque_frequency_length [of "iaFreqDeque bi" 48 2 10 now]
    by (auto simp: shouldIngressLimitAt_def incomingAnnounceFrequencyAtLocked_def Let_def ingress_wf_def split: prod.splits)
next
  case (IngressLimitPrOp now)
  then show ?thesis using assms deque_frequency_length [of "ipFreqDeque bi" 48 2 10 now]
    by (auto simp: shouldIngressLimitPrAt_def incomingPrFrequencyAtLocked_def Let_def ingress_wf_def split: prod.splits)
next
  case (EgressLimitPrOp now)
  then show ?thesis using assms deque_frequency_length [of "opFreqDeque bi" 48 1 10 now]
    by (auto simp: shouldEgressLimitPrAt_def outgoingPrFrequencyAtLocked_def Let_def ingress_wf_def split: prod.splits)
qed (use assms appendFreqSample_length in \<open>auto simp: ingress_wf_def receivedAnnounceAtSize_def sentAnnounceAtSize_def
  receivedPathRequestAtSize_def sentPathRequestAtSize_def ClearHeldAnnounces_def\<close>)

text \<open>
  Whatever traffic an interface sees, its state stays bounded: no sample queue exceeds 48 entries,
  at most the configured number of announces is held, one per destination, and none of them has
  travelled 127 hops or more.
\<close>

theorem ingress_bounded:
  assumes "ingress_wf bi"
  shows "ingress_wf (fold (ingress_step order) ops bi)
     \<and> icMaxHeldAnnounces (fold (ingress_step order) ops bi) = icMaxHeldAnnounces bi"
  using assms
proof (induction ops arbitrary: bi)
  case Nil
  then show ?case by simp
next
  case (Cons op1 ops)
  then show ?case using ingress_step_wf [OF Cons.prems, of order op1] Cons.IH [of "ingress_step order op1 bi"] by simp
qed

theorem ingress_bounded_witness:
  "ingress_wf (fold (ingress_step rev) [ReceivedAnnounceOp 5 100, HoldOp [1] 0 3 [7], ProcessOp 9] (NewBaseInterface 0))"
proof -
  have "ingress_wf (NewBaseInterface 0)" by (simp add: ingress_wf_def NewBaseInterface_def)
  from ingress_bounded [OF this, of rev "[ReceivedAnnounceOp 5 100, HoldOp [1] 0 3 [7], ProcessOp 9]"] show ?thesis by simp
qed

section \<open>Release of held announces\<close>

fun drain ::
  "((bytes \<times> held_announce) list \<Rightarrow> (bytes \<times> held_announce) list) \<Rightarrow> int list \<Rightarrow> ingress \<Rightarrow> ingress \<times> (bytes \<times> nat) list" where
  "drain order [] bi = (bi, [])"
| "drain order (t # ts) bi =
     (case processHeldAnnouncesAt order t bi of
        (bi, r) \<Rightarrow> (case drain order ts bi of (bi, rs) \<Rightarrow> (bi, (case r of None \<Rightarrow> [] | Some x \<Rightarrow> [x]) @ rs)))"

fun spaced :: "int \<Rightarrow> int \<Rightarrow> int list \<Rightarrow> bool" where
  "spaced gap t [] = True"
| "spaced gap t (u # us) = (t < u \<and> spaced gap (u + gap) us)"

text \<open>The samples are so old that even a full queue stays below the frequency \<open>thr\<close>.\<close>

definition quiet :: "rat \<Rightarrow> int \<Rightarrow> int list \<Rightarrow> bool" where
  "quiet thr t q \<longleftrightarrow> 0 < thr \<and> length q \<le> 48 \<and> (\<forall>s \<in> set q. 48 < thr * seconds (t - s))"

lemma quiet_frequency:
  assumes "quiet thr t q"
  shows "snd (deque_frequency m d t q) < thr"
proof -
  have "of_nat (length q) / seconds (t - hd q) < thr" if "0 < length q" "0 < seconds (t - hd q)"
  proof -
    have "rat_of_nat (length q) \<le> 48" using assms by (simp add: quiet_def)
    also have "48 < thr * seconds (t - hd q)" using assms that by (simp add: quiet_def)
    finally show ?thesis using that(2) by (simp add: divide_less_eq)
  qed
  then show ?thesis
    using assms by (fastforce simp: deque_frequency_def Let_def quiet_def)
qed

lemma quiet_shrink:
  assumes "quiet thr u q"
  shows "quiet thr u (fst (deque_frequency m d t q))"
proof -
  have "set (tl q) \<subseteq> set q" by (cases q) auto
  then show ?thesis using assms by (auto simp: deque_frequency_def Let_def quiet_def)
qed

lemma fewest_hops_least:
  "fewest_hops (Some s) es = Some m \<Longrightarrow> m \<in> insert s (set es) \<and> (\<forall>x \<in> insert s (set es). ha_hops (snd m) \<le> ha_hops (snd x))"
proof (induction es arbitrary: s)
  case Nil
  then show ?case by simp
next
  case (Cons e es)
  from Cons.IH [of "if ha_hops (snd e) < ha_hops (snd s) then e else s"] Cons.prems show ?case by (fastforce split: if_splits)
qed

lemma fewest_hops_total: "\<exists>m. fewest_hops (Some s) es = Some m"
  by (induction es arbitrary: s) auto

lemma fewest_hops_None:
  assumes "es \<noteq> []"
  obtains m where "fewest_hops None es = Some m" "m \<in> set es" "\<And>x. x \<in> set es \<Longrightarrow> ha_hops (snd m) \<le> ha_hops (snd x)"
proof -
  obtain e es' where e: "es = e # es'" using assms by (cases es) auto
  obtain m where "fewest_hops (Some e) es' = Some m" using fewest_hops_total by blast
  with fewest_hops_least [OF this] e show thesis by (intro that [of m]) auto
qed

lemma mset_delete:
  "distinct (map fst xs) \<Longrightarrow> (k, e) \<in> set xs \<Longrightarrow> mset xs = add_mset (k, e) (mset (AList.delete k xs))"
proof (induction xs)
  case Nil
  then show ?case by simp
next
  case (Cons x xs)
  then show ?case
  proof (cases "fst x = k")
    case True
    with Cons.prems have "x = (k, e)" "k \<notin> fst ` set xs" by (auto simp: image_iff)
    moreover have "AList.delete k xs = xs" if "k \<notin> fst ` set xs" using that by (simp add: AList.delete_eq filter_id_conv) (force)
    ultimately show ?thesis by simp
  qed (use Cons in \<open>cases x, auto\<close>)
qed

lemma process_step:
  assumes "ingress_wf bi" and "heldAnnounces bi \<noteq> []" and "icHeldRelease bi < t" and "quiet thr t (iaFreqDeque bi)"
    and "thr \<le> icBurstFreq bi" and "thr \<le> icBurstFreqNew bi" and perm: "\<forall>xs. mset (order xs) = mset xs"
  obtains k e where "(k, e) \<in> set (heldAnnounces bi)" "\<And>x. x \<in> set (heldAnnounces bi) \<Longrightarrow> ha_hops e \<le> ha_hops (snd x)"
    "processHeldAnnouncesAt order t bi =
       (bi\<lparr>iaFreqDeque := fst (deque_frequency 2 10 t (iaFreqDeque bi)),
           icHeldRelease := t + whole_seconds (icHeldReleaseInterval bi),
           heldAnnounces := AList.delete k (heldAnnounces bi)\<rparr>, Some (ha_raw e, ha_recv e))"
proof -
  have s: "set (order (heldAnnounces bi)) = set (heldAnnounces bi)" using perm mset_eq_setD by blast
  then have "order (heldAnnounces bi) \<noteq> []" using assms(2) by auto
  then obtain m where m: "fewest_hops None (order (heldAnnounces bi)) = Some m" "m \<in> set (heldAnnounces bi)"
    "\<And>x. x \<in> set (heldAnnounces bi) \<Longrightarrow> ha_hops (snd m) \<le> ha_hops (snd x)" using fewest_hops_None s by metis
  have "\<not> (if ageAt t bi \<ge> icNewTime bi then icBurstFreq bi else icBurstFreqNew bi)
      \<le> snd (deque_frequency 2 10 t (iaFreqDeque bi))"
    using quiet_frequency [OF assms(4), of 2 10] assms(5,6) by (simp add: not_le)
  with m assms(2,3) show thesis
    by (intro that [of "fst m" "snd m"])
      (simp_all add: processHeldAnnouncesAt_def incomingAnnounceFrequencyAtLocked_def Let_def case_prod_beta)
qed


definition demo_held :: ingress where
  "demo_held = (NewBaseInterface 0)\<lparr>icHeldRelease := 15 * 10 ^ 9, iaFreqDeque := [1, 2, 3],
     heldAnnounces := [([7], \<lparr>ha_raw = [1], ha_recv = 0, ha_hops = 4\<rparr>), ([8], \<lparr>ha_raw = [2], ha_recv = 0, ha_hops = 2\<rparr>)]\<rparr>"


end
