(* ===== verification/Announces.thy ===== *)
theory Announces
  imports Inbound KnownDests Ingress
begin

text \<open>
  How a transport node learns paths from announces and passes announces on (\<^verbatim>\<open>rns/transport.go\<close> and
  \<^verbatim>\<open>rns/transport-pathtable-heal.go\<close>): the path table with its replay protection, the announce table and its
  rebroadcasts, the announce rate and the per-interface announce queues.

  The state of the node is the record \<open>node\<close>; its \<open>nd_ts\<close> holds the tables of the inbound path, and
  \<open>node_transport\<close> shows the path table to them. Interfaces are numbers, what the code asks of
  them is a field of \<open>node_env\<close>; their ingress control is in \<open>nd_ingress\<close>. Instants are nanoseconds after 1970 and one
  call reads the clock once. A Go map that the code iterates over is an association list in
  iteration order. Frames leave a node either through the interface's access-code hook (\<open>Sealed\<close>) or
  without it (\<open>Bare\<close>).
\<close>

section \<open>State\<close>

datatype iface_mode =
    ModeFull | ModePointToPoint | ModeAccessPoint | ModeRoaming | ModeBoundary | ModeGateway | ModeInternal

record node_env = iface_env +
  iface_Mode :: "nat \<Rightarrow> iface_mode"
  iface_Gravity :: "nat \<Rightarrow> int"
  iface_Status :: "nat \<Rightarrow> bool"
  iface_IsOut :: "nat \<Rightarrow> bool"
  iface_IsDetached :: "nat \<Rightarrow> bool"
  AnnouncesFromInternal :: "nat \<Rightarrow> bool"
  AnnouncesToInternal :: "nat \<Rightarrow> bool option"
  RecursivePrs :: "nat \<Rightarrow> bool"
  SpawnedClientInterfaces :: "nat \<Rightarrow> nat list option"
  parentInterface :: "nat \<Rightarrow> nat option"

record route = path_entry +
  pe_Timestamp :: int
  pe_Expires :: int
  pe_RandomBlobs :: "bytes list"
  pe_Packet :: bytes
  pe_PacketHash :: bytes
  pe_Unresponsive :: bool
  pe_ResponsiveState :: int

record announce_entry =
  ae_PacketRaw :: bytes
  ae_SourceInterface :: nat
  ae_Hops :: int
  ae_NextRebroadcastAt :: int
  ae_Retries :: int
  ae_LocalRebroadcasts :: int

record announce_rate_entry =
  ar_Last :: int
  ar_RateViolations :: int
  ar_BlockedUntil :: int
  ar_Timestamps :: "int list"

record announce_queue_entry =
  aq_destinationHash :: bytes
  aq_queuedAt :: int
  aq_hops :: int
  aq_emitted :: nat
  aq_raw :: bytes

record announce_queue =
  aq_allowedAt :: int
  aq_queue :: "announce_queue_entry list"
  aq_timer :: "int option"

record announce_handler =
  ah_AspectFilter :: bytes
  ah_ReceivePathResponses :: bool
  ah_ReceivedAnnounce :: bool
  ah_ReceivedAnnounceWithContext :: bool

record node =
  nd_ts :: transport
  nd_known :: known_state
  nd_pathTable :: "(bytes \<times> route) list"
  nd_announceTable :: "(bytes \<times> announce_entry) list"
  nd_announceRateTable :: "bytes \<rightharpoonup> announce_rate_entry"
  nd_announceQueues :: "nat \<rightharpoonup> announce_queue"
  nd_pathRequests :: "(bytes \<times> int) list"
  nd_inflightPathRequests :: "(bytes \<times> int) list"
  nd_pendingPathRequests :: "(bytes \<times> nat list) list"
  nd_discoveryPRTags :: "bytes list"
  nd_discoveryPRTagsPrev :: "bytes list"
  nd_interfaces :: "nat list"
  nd_ingress :: "nat \<Rightarrow> ingress"
  nd_destinationsMap :: "bytes \<rightharpoonup> destination"
  nd_announceHandlers :: "announce_handler list"
  nd_ratchetFiles :: ratchet_files

datatype node_out =
    Sealed nat bytes
  | Bare nat bytes
  | HandlerCalled nat bytes identity "bytes option"
  | ProtocolViolation nat

abbreviation (input) pathfinderRetries :: int where "pathfinderRetries \<equiv> 1"
abbreviation (input) pathfinderGrace :: int where "pathfinderGrace \<equiv> 5 * 10 ^ 9"
abbreviation (input) pathfinderRandomWindow :: int where "pathfinderRandomWindow \<equiv> 500 * 10 ^ 6"
abbreviation (input) localRebroadcastsMax :: int where "localRebroadcastsMax \<equiv> 2"
abbreviation (input) maxRateTimestamps :: nat where "maxRateTimestamps \<equiv> 16"
abbreviation (input) maxQueuedAnnounces :: nat where "maxQueuedAnnounces \<equiv> 16384"
abbreviation (input) queuedAnnounceLife :: int where "queuedAnnounceLife \<equiv> 24 * 3600 * 10 ^ 9"
abbreviation (input) announceCapDefault :: rat where "announceCapDefault \<equiv> 2 / 100"
abbreviation (input) maxRandomBlobs :: nat where "maxRandomBlobs \<equiv> 64"
abbreviation (input) pathfinderE :: int where "pathfinderE \<equiv> 7 * 24 * 3600 * 10 ^ 9"
abbreviation (input) apPathTime :: int where "apPathTime \<equiv> 24 * 3600 * 10 ^ 9"
abbreviation (input) roamingPathTime :: int where "roamingPathTime \<equiv> 6 * 3600 * 10 ^ 9"
abbreviation (input) maxAnnounceTimebaseSkew :: int where "maxAnnounceTimebaseSkew \<equiv> 24 * 3600"

definition node_transport :: "node \<Rightarrow> transport" where
  "node_transport nd = (nd_ts nd)\<lparr>ts_pathTable := (\<lambda>h. map_option path_entry.truncate (map_of (nd_pathTable nd) h))\<rparr>"

section \<open>Emission times\<close>

definition announce_blob :: "packet \<Rightarrow> bytes option" where
  "announce_blob p =
     (let randomBlobStart = IdentityKeySize div 8 + NameHashLength div 8;
          randomBlobEnd = randomBlobStart + 10
      in if length (Data p) \<ge> randomBlobEnd then Some (go_slice randomBlobStart randomBlobEnd (Data p)) else None)"

definition announceEmissionFromPacket :: "packet \<Rightarrow> nat" where
  "announceEmissionFromPacket p =
     (let randomBlobStart = IdentityKeySize div 8 + NameHashLength div 8;
          randomBlobEnd = randomBlobStart + 10
      in if length (Data p) < randomBlobEnd then 0 else be_dec (go_slice (randomBlobStart + 5) randomBlobEnd (Data p)))"

definition announceEmissionFromRaw :: "bytes \<Rightarrow> nat" where
  "announceEmissionFromRaw raw =
     (case Unpack (NewPacketFromRaw raw) of (p, Some _) \<Rightarrow> 0 | (p, None) \<Rightarrow> announceEmissionFromPacket p)"

definition randomBlobTimebase :: "bytes \<Rightarrow> nat" where
  "randomBlobTimebase blob = (if length blob < 10 then 0 else be_dec (go_slice 5 10 blob))"

definition plausibleAnnounceTimebase :: "nat \<Rightarrow> int \<Rightarrow> bool" where
  "plausibleAnnounceTimebase tb now = (\<not> int tb > now div 10 ^ 9 + maxAnnounceTimebaseSkew)"

definition timebaseFromRandomBlobs :: "int \<Rightarrow> bytes list \<Rightarrow> nat" where
  "timebaseFromRandomBlobs now blobs =
     foldl (\<lambda>timebase b.
       if length b < 10 then timebase
       else
         let emitted = randomBlobTimebase b in
         if \<not> plausibleAnnounceTimebase emitted now then timebase
         else if emitted > timebase then emitted else timebase) 0 blobs"

section \<open>The path table\<close>

definition containsBlob :: "bytes list \<Rightarrow> bytes \<Rightarrow> bool" where
  "containsBlob blobs blob = list_ex (\<lambda>b. b = blob) blobs"

definition nextHopFromAnnounce :: "packet \<Rightarrow> bytes option" where
  "nextHopFromAnnounce p =
     (case TransportID p of
        Some (x # xs) \<Rightarrow> Some (x # xs)
      | _ \<Rightarrow> if DestinationHash p \<noteq> [] then Some (DestinationHash p) else None)"

definition pathExpiryForInterface :: "node_env \<Rightarrow> nat \<Rightarrow> int" where
  "pathExpiryForInterface env iface =
     (case iface_Mode env iface of
        ModeAccessPoint \<Rightarrow> apPathTime
      | ModeRoaming \<Rightarrow> roamingPathTime
      | _ \<Rightarrow> pathfinderE)"

definition markPathUnknownStateLocked :: "bytes \<Rightarrow> node \<Rightarrow> node" where
  "markPathUnknownStateLocked destHash nd =
     (case map_of (nd_pathTable nd) destHash of
        None \<Rightarrow> nd
      | Some entry \<Rightarrow> nd\<lparr>nd_pathTable := AList.update destHash (entry\<lparr>pe_Unresponsive := False, pe_ResponsiveState := 0\<rparr>) (nd_pathTable nd)\<rparr>)"

definition markPathUnresponsiveLocked :: "bytes \<Rightarrow> node \<Rightarrow> node" where
  "markPathUnresponsiveLocked destHash nd =
     (case map_of (nd_pathTable nd) destHash of
        None \<Rightarrow> nd
      | Some entry \<Rightarrow> nd\<lparr>nd_pathTable := AList.update destHash (entry\<lparr>pe_Unresponsive := True, pe_ResponsiveState := 2\<rparr>) (nd_pathTable nd)\<rparr>)"

definition MarkPathResponsive :: "bytes \<Rightarrow> node \<Rightarrow> node" where
  "MarkPathResponsive destHash nd =
     (case map_of (nd_pathTable nd) destHash of
        None \<Rightarrow> nd
      | Some entry \<Rightarrow> nd\<lparr>nd_pathTable := AList.update destHash (entry\<lparr>pe_Unresponsive := False, pe_ResponsiveState := 1\<rparr>) (nd_pathTable nd)\<rparr>)"

definition PathIsUnresponsive :: "bytes \<Rightarrow> node \<Rightarrow> bool" where
  "PathIsUnresponsive destHash nd =
     (case map_of (nd_pathTable nd) destHash of None \<Rightarrow> False | Some entry \<Rightarrow> pe_Unresponsive entry)"

definition expirePathLocked :: "bytes \<Rightarrow> node \<Rightarrow> node" where
  "expirePathLocked destHash nd = nd\<lparr>nd_pathTable := AList.delete destHash (nd_pathTable nd)\<rparr>"

definition HopsTo :: "bytes \<Rightarrow> node \<Rightarrow> int" where
  "HopsTo destHash nd = (case map_of (nd_pathTable nd) destHash of Some entry \<Rightarrow> pe_Hops entry | None \<Rightarrow> PathfinderM)"

definition HasPath :: "bytes \<Rightarrow> node \<Rightarrow> bool" where
  "HasPath destHash nd \<longleftrightarrow> map_of (nd_pathTable nd) destHash \<noteq> None"

definition InvalidatePath :: "bytes \<Rightarrow> node \<Rightarrow> node \<times> bool" where
  "InvalidatePath destHash nd =
     (let ok1 = (map_of (nd_pathTable nd) destHash \<noteq> None);
          ok2 = (map_of (knownDestinations (nd_known nd)) destHash \<noteq> None)
      in (nd\<lparr>nd_pathTable := AList.delete destHash (nd_pathTable nd),
             nd_known := (nd_known nd)\<lparr>knownDestinations := AList.delete destHash (knownDestinations (nd_known nd))\<rparr>,
             nd_announceTable := AList.delete destHash (nd_announceTable nd),
             nd_pathRequests := AList.delete destHash (nd_pathRequests nd)\<rparr>, ok1 \<or> ok2))"

definition drop_paths :: "(route \<Rightarrow> bool) \<Rightarrow> node \<Rightarrow> node \<times> int" where
  "drop_paths bad nd =
     (let gone = map fst (filter (\<lambda>(h, e). bad e) (nd_pathTable nd))
      in (nd\<lparr>nd_pathTable := filter (\<lambda>(h, e). h \<notin> set gone) (nd_pathTable nd),
             nd_known := (nd_known nd)\<lparr>knownDestinations := filter (\<lambda>(h, e). h \<notin> set gone) (knownDestinations (nd_known nd))\<rparr>,
             nd_announceTable := filter (\<lambda>(h, e). h \<notin> set gone) (nd_announceTable nd),
             nd_pathRequests := filter (\<lambda>(h, e). h \<notin> set gone) (nd_pathRequests nd)\<rparr>, int (length gone)))"

definition InvalidatePathsViaInterface :: "nat \<Rightarrow> node \<Rightarrow> node \<times> int" where
  "InvalidatePathsViaInterface iface nd = drop_paths (\<lambda>e. pe_Interface e = Some iface) nd"

definition InvalidatePathsViaNextHop :: "bytes \<Rightarrow> node \<Rightarrow> node \<times> int" where
  "InvalidatePathsViaNextHop nextHop nd = drop_paths (\<lambda>e. pe_NextHop e = nextHop) nd"

definition cullExpiredPaths :: "node_env \<Rightarrow> int \<Rightarrow> node \<Rightarrow> node" where
  "cullExpiredPaths env now nd =
     (let bad = (\<lambda>e. (pe_Expires e \<noteq> year1 \<and> now > pe_Expires e)
                    \<or> (case pe_Interface e of None \<Rightarrow> False | Some i \<Rightarrow> iface_IsDetached env i));
          gone = map fst (filter (\<lambda>(h, e). bad e) (nd_pathTable nd))
      in nd\<lparr>nd_pathTable := filter (\<lambda>(h, e). h \<notin> set gone) (nd_pathTable nd),
            nd_announceTable := filter (\<lambda>(h, e). h \<notin> set gone) (nd_announceTable nd),
            nd_pathRequests := filter (\<lambda>(h, e). h \<notin> set gone) (nd_pathRequests nd)\<rparr>)"

text \<open>Whether an announce replaces the known path; the flag tells that the path is marked unknown first.\<close>

datatype path_choice = KeepPath | ReplacePath bool

definition path_verdict :: "node_env \<Rightarrow> int \<Rightarrow> packet \<Rightarrow> nat \<Rightarrow> bytes option \<Rightarrow> route \<Rightarrow> path_choice" where
  "path_verdict env now p iface randomBlob entry =
     (let announceEmitted = announceEmissionFromPacket p;
          pathTimebase = timebaseFromRandomBlobs now (pe_RandomBlobs entry);
          newBlob = (case randomBlob of None \<Rightarrow> False | Some b \<Rightarrow> \<not> containsBlob (pe_RandomBlobs entry) b)
      in
      if Hops p \<le> pe_Hops entry then
        if newBlob \<and> announceEmitted > pathTimebase then ReplacePath True
        else if announceEmitted = pathTimebase then
          if pe_Unresponsive entry then ReplacePath False
          else (case pe_Interface entry of
                  None \<Rightarrow> KeepPath
                | Some current \<Rightarrow> if iface_Gravity env iface > iface_Gravity env current then ReplacePath False else KeepPath)
        else KeepPath
      else if \<not> now < pe_Expires entry then (if newBlob then ReplacePath True else KeepPath)
      else if announceEmitted > pathTimebase then (if newBlob then ReplacePath True else KeepPath)
      else if announceEmitted = pathTimebase then (if pe_Unresponsive entry then ReplacePath False else KeepPath)
      else KeepPath)"

definition remember_blob :: "bytes option \<Rightarrow> bytes list \<Rightarrow> bytes list" where
  "remember_blob randomBlob blobs =
     (case randomBlob of
        None \<Rightarrow> blobs
      | Some b \<Rightarrow>
          if containsBlob blobs b then blobs
          else
            let blobs = blobs @ [b] in
            if length blobs > maxRandomBlobs then drop (length blobs - maxRandomBlobs) blobs else blobs)"

definition announced_route :: "node_env \<Rightarrow> int \<Rightarrow> packet \<Rightarrow> nat \<Rightarrow> bytes \<Rightarrow> bytes list \<Rightarrow> route" where
  "announced_route env now p iface nextHop blobs =
     \<lparr>pe_NextHop = nextHop, pe_Hops = Hops p, pe_Interface = Some iface, pe_Timestamp = now,
      pe_Expires = now + pathExpiryForInterface env iface, pe_RandomBlobs = blobs, pe_Packet = Raw p,
      pe_PacketHash = (case packet_GetHash p of None \<Rightarrow> [] | Some h \<Rightarrow> h), pe_Unresponsive = False, pe_ResponsiveState = 0\<rparr>"

text \<open>The path-table part of the announce handler; the flag tells that a path was installed or replaced.\<close>

definition learn_path :: "node_env \<Rightarrow> int \<Rightarrow> packet \<Rightarrow> nat \<Rightarrow> node \<Rightarrow> node \<times> bool" where
  "learn_path env now p iface nd =
     (let destHash = DestinationHash p; randomBlob = announce_blob p in
      case map_of (nd_pathTable nd) destHash of
        Some entry \<Rightarrow>
          (case path_verdict env now p iface randomBlob entry of
             KeepPath \<Rightarrow> (nd, False)
           | ReplacePath mark \<Rightarrow>
               let nd = (if mark then markPathUnknownStateLocked destHash nd else nd) in
               (case nextHopFromAnnounce p of
                  None \<Rightarrow> (nd, False)
                | Some nextHop \<Rightarrow>
                    (nd\<lparr>nd_pathTable := AList.update destHash
                          (announced_route env now p iface nextHop (remember_blob randomBlob (pe_RandomBlobs entry)))
                          (nd_pathTable nd)\<rparr>, True)))
      | None \<Rightarrow>
          (case nextHopFromAnnounce p of
             None \<Rightarrow> (nd, False)
           | Some nextHop \<Rightarrow>
               let blobs = (case randomBlob of None \<Rightarrow> [] | Some b \<Rightarrow> [b]);
                   nd = nd\<lparr>nd_pathTable := AList.update destHash (announced_route env now p iface nextHop blobs) (nd_pathTable nd),
                           nd_inflightPathRequests := AList.delete destHash (nd_inflightPathRequests nd)\<rparr>
               in (markPathUnknownStateLocked destHash nd, True)))"

section \<open>Which announces are rebroadcast\<close>

definition has_transport_id :: "packet \<Rightarrow> bool" where
  "has_transport_id p = (case TransportID p of Some (x # xs) \<Rightarrow> True | _ \<Rightarrow> False)"

text \<open>A rebroadcast of a queued announce by another node.\<close>

definition hear_rebroadcast :: "int \<Rightarrow> packet \<Rightarrow> node \<Rightarrow> node" where
  "hear_rebroadcast now p nd =
     (let destHash = DestinationHash p in
      if has_transport_id p \<and> ts_enabled (nd_ts nd) then
        (case map_of (nd_announceTable nd) destHash of
           None \<Rightarrow> nd
         | Some e \<Rightarrow>
             let same = (Hops p - 1 = ae_Hops e);
                 e = (if same then e\<lparr>ae_LocalRebroadcasts := ae_LocalRebroadcasts e + 1\<rparr> else e);
                 finished = (same \<and> ae_Retries e > 0 \<and> ae_LocalRebroadcasts e \<ge> localRebroadcastsMax);
                 passed_on = (Hops p - 1 = ae_Hops e + 1 \<and> ae_Retries e > 0 \<and> now < ae_NextRebroadcastAt e)
             in if finished \<or> passed_on then nd\<lparr>nd_announceTable := AList.delete destHash (nd_announceTable nd)\<rparr>
                else nd\<lparr>nd_announceTable := AList.update destHash e (nd_announceTable nd)\<rparr>)
      else nd)"

text \<open>The announce rate of a destination on an interface that sets a target; the flag tells that the rebroadcast is blocked.\<close>

definition announce_rate ::
  "int \<Rightarrow> ingress \<Rightarrow> bytes \<Rightarrow> (bytes \<rightharpoonup> announce_rate_entry) \<Rightarrow> (bytes \<rightharpoonup> announce_rate_entry) \<times> bool" where
  "announce_rate now bi destHash rates =
     (case announceRateTarget bi of
        None \<Rightarrow> (rates, False)
      | Some target \<Rightarrow>
          let grace = (case announceRateGrace bi of None \<Rightarrow> 0 | Some g \<Rightarrow> g);
              penalty = (case announceRatePenalty bi of None \<Rightarrow> 0 | Some q \<Rightarrow> q)
          in
          (case rates destHash of
             None \<Rightarrow>
               (rates(destHash \<mapsto> \<lparr>ar_Last = now, ar_RateViolations = 0, ar_BlockedUntil = year1, ar_Timestamps = [now]\<rparr>), False)
           | Some r \<Rightarrow>
               let stamps = ar_Timestamps r @ [now];
                   stamps = (if length stamps > maxRateTimestamps then drop (length stamps - maxRateTimestamps) stamps else stamps);
                   r = r\<lparr>ar_Timestamps := stamps\<rparr>;
                   currentRate = seconds (now - ar_Last r)
               in
               if now > ar_BlockedUntil r then
                 let r = (if currentRate < of_int target then r\<lparr>ar_RateViolations := ar_RateViolations r + 1\<rparr>
                          else if ar_RateViolations r > 0 then r\<lparr>ar_RateViolations := ar_RateViolations r - 1\<rparr> else r)
                 in if ar_RateViolations r > grace then
                      (rates(destHash \<mapsto> r\<lparr>ar_BlockedUntil := ar_Last r + (target + penalty) * 10 ^ 9\<rparr>), True)
                    else (rates(destHash \<mapsto> r\<lparr>ar_Last := now\<rparr>), False)
               else (rates(destHash \<mapsto> r), True)))"

definition randomDuration :: "byte option \<Rightarrow> int \<Rightarrow> int" where
  "randomDuration rnd maxd =
     (if maxd \<le> 0 then 0 else (case rnd of None \<Rightarrow> 0 | Some b \<Rightarrow> uint b * maxd div 255))"

definition queue_rebroadcast :: "node_env \<Rightarrow> int \<Rightarrow> byte option \<Rightarrow> packet \<Rightarrow> nat \<Rightarrow> node \<Rightarrow> node" where
  "queue_rebroadcast env now rnd p iface nd =
     (let destHash = DestinationHash p;
          isFromLocalClient = IsSpawnedLocalClient env iface
      in
      if (ts_enabled (nd_ts nd) \<or> isFromLocalClient) \<and> Context p \<noteq> ContextPathResponse then
        (case announce_rate now (nd_ingress nd iface) destHash (nd_announceRateTable nd) of
           (rates, rateBlocked) \<Rightarrow>
             let nd = nd\<lparr>nd_announceRateTable := rates\<rparr> in
             if rateBlocked then nd
             else
               let entry = \<lparr>ae_PacketRaw = (if length (Raw p) > 1 then (Raw p)[1 := word_of_int (Hops p)] else Raw p),
                            ae_SourceInterface = iface, ae_Hops = Hops p,
                            ae_NextRebroadcastAt = (if isFromLocalClient then now else now + randomDuration rnd pathfinderRandomWindow),
                            ae_Retries = (if isFromLocalClient then pathfinderRetries else 0), ae_LocalRebroadcasts = 0\<rparr>
               in if (case map_of (nd_announceTable nd) destHash of None \<Rightarrow> True | Some e \<Rightarrow> Hops p \<le> ae_Hops e)
                  then nd\<lparr>nd_announceTable := AList.update destHash entry (nd_announceTable nd)\<rparr> else nd)
      else nd)"

section \<open>The announce handler\<close>

definition shouldHoldAnnounce :: "int \<Rightarrow> packet \<Rightarrow> nat \<Rightarrow> node \<Rightarrow> node \<times> bool" where
  "shouldHoldAnnounce now p iface nd =
     (let destHash = DestinationHash p in
      if map_of (nd_pathTable nd) destHash \<noteq> None \<or> map_of (nd_pendingPathRequests nd) destHash \<noteq> None
         \<or> map_of (nd_pathRequests nd) destHash \<noteq> None
      then (nd, False)
      else
        (case shouldIngressLimitAt now (nd_ingress nd iface) of
           (bi, limited) \<Rightarrow>
             (nd\<lparr>nd_ingress := (nd_ingress nd)(iface := if limited then HoldAnnounce (Raw p) iface (Hops p) destHash bi else bi)\<rparr>,
              limited)))"

definition forwardAnnounceToLocalClients :: "node_env \<Rightarrow> packet \<Rightarrow> nat \<Rightarrow> node \<Rightarrow> node_out list" where
  "forwardAnnounceToLocalClients env p receivedOn nd =
     (case ts_identity (nd_ts nd) of
        None \<Rightarrow> []
      | Some idHash \<Rightarrow>
          if idHash = [] then []
          else concat (map (\<lambda>i. case SpawnedClientInterfaces env i of
                               None \<Rightarrow> []
                             | Some clients \<Rightarrow> map (\<lambda>sc. Sealed sc (local_client_announce idHash p)) (filter (\<lambda>sc. sc \<noteq> receivedOn) clients))
                         (nd_interfaces nd)))"

definition handler_matches :: "packet \<Rightarrow> identity \<Rightarrow> announce_handler \<Rightarrow> bool" where
  "handler_matches p announceIdentity h =
     (let executeCallback =
        (if ah_AspectFilter h = [] then True
         else
           let parts = split_dots (ah_AspectFilter h)
           in DestinationHash p = CalculateHash (Some announceIdentity) (hd parts) (tl parts))
      in executeCallback \<and> \<not> (Context p = ContextPathResponse \<and> \<not> ah_ReceivePathResponses h))"

definition call_announce_handlers :: "int \<Rightarrow> packet \<Rightarrow> node \<Rightarrow> node_out list" where
  "call_announce_handlers now p nd =
     (case snd (RecallNoUse (seconds now) (DestinationHash p) (nd_known nd)) of
        Some (Some (announceIdentity, appData)) \<Rightarrow>
          concat (map (\<lambda>(i, h). if handler_matches p announceIdentity h \<and> (ah_ReceivedAnnounceWithContext h \<or> ah_ReceivedAnnounce h)
                                 then [HandlerCalled i (DestinationHash p) announceIdentity appData] else [])
                   (enumerate 0 (nd_announceHandlers nd)))
      | _ \<Rightarrow> [])"

text \<open>
  \<open>io\<close> tells whether a ratchet file can be written, \<open>rnd\<close> is the random byte of the rebroadcast delay.
  An announce is valid or not before anything else happens; a valid one is remembered at once.
\<close>

definition handleAnnounce ::
  "curves \<Rightarrow> node_env \<Rightarrow> bool \<Rightarrow> int \<Rightarrow> byte option \<Rightarrow> packet \<Rightarrow> nat \<Rightarrow> node \<Rightarrow> node \<times> node_out list" where
  "handleAnnounce cs env io now rnd p iface nd =
     (case ValidateAnnounce cs p of
        None \<Rightarrow> (nd, [ProtocolViolation iface])
      | Some effects \<Rightarrow>
          let nd = nd\<lparr>nd_known := apply_effects io (seconds now) effects (nd_known nd)\<rparr> in
          if nd_destinationsMap nd (DestinationHash p) \<noteq> None then (nd, [])
          else
            let nd = nd\<lparr>nd_ingress := record_sample (receivedAnnounceAtSize now (int (length (Raw p)))) (parentInterface env) iface (nd_ingress nd)\<rparr> in
            (case shouldHoldAnnounce now p iface nd of
               (nd, True) \<Rightarrow> (nd, [])
             | (nd, False) \<Rightarrow>
                 (case learn_path env now p iface (hear_rebroadcast now p nd) of
                    (nd, False) \<Rightarrow> (nd, [])
                  | (nd, True) \<Rightarrow>
                      let nd = (if map_of (nd_pathRequests nd) (DestinationHash p) \<noteq> None
                                then nd\<lparr>nd_known := fst (usedDestinationDataLocked (seconds now) (DestinationHash p) (nd_known nd))\<rparr> else nd);
                          nd = queue_rebroadcast env now rnd p iface nd
                      in (nd, forwardAnnounceToLocalClients env p iface nd @ call_announce_handlers now p nd))))"

section \<open>The announce queues of the interfaces\<close>

datatype announceTransmitDecision = AnnounceBlock | AnnounceDirect | AnnounceCapped

definition shouldTransmitAnnounce :: "node_env \<Rightarrow> nat \<Rightarrow> nat option \<Rightarrow> bool \<Rightarrow> int \<Rightarrow> announceTransmitDecision" where
  "shouldTransmitAnnounce env outIface fromIface localDestination receivedHops =
     (if \<not> localDestination \<and> fromIface = None then AnnounceBlock
      else if \<not> localDestination \<and> fromIface \<noteq> None \<and> \<not> AnnouncesFromInternal env outIface
              \<and> iface_Mode env (the fromIface) = ModeInternal then AnnounceBlock
      else if iface_Mode env outIface = ModeAccessPoint then AnnounceBlock
      else if \<not> localDestination \<and> iface_Mode env outIface = ModeInternal then
        (case fromIface of
           None \<Rightarrow> AnnounceBlock
         | Some f \<Rightarrow>
             if AnnouncesToInternal env f = Some True then AnnounceDirect
             else if iface_Mode env f = ModeBoundary then AnnounceBlock
             else AnnounceDirect)
      else if iface_Mode env outIface = ModeRoaming then
        (if localDestination then AnnounceDirect
         else (case fromIface of
                 None \<Rightarrow> AnnounceBlock
               | Some f \<Rightarrow> if iface_Mode env f = ModeRoaming \<or> iface_Mode env f = ModeBoundary then AnnounceBlock else AnnounceDirect))
      else if iface_Mode env outIface = ModeBoundary then
        (if localDestination then AnnounceDirect
         else (case fromIface of
                 None \<Rightarrow> AnnounceBlock
               | Some f \<Rightarrow> if iface_Mode env f = ModeRoaming then AnnounceBlock else AnnounceDirect))
      else if receivedHops > 0 then AnnounceCapped else AnnounceDirect)"

definition announceWaitDuration :: "int \<Rightarrow> int \<Rightarrow> int" where
  "announceWaitDuration rawLen bitrate =
     (if rawLen \<le> 0 \<or> bitrate \<le> 0 then 0
      else \<lfloor>of_int (rawLen * 8) / of_int bitrate / announceCapDefault * 10 ^ 9\<rfloor>)"

definition announceQueueStateLocked :: "nat \<Rightarrow> node \<Rightarrow> announce_queue" where
  "announceQueueStateLocked iface nd =
     (case nd_announceQueues nd iface of Some st \<Rightarrow> st | None \<Rightarrow> \<lparr>aq_allowedAt = year1, aq_queue = [], aq_timer = None\<rparr>)"

text \<open>A queued announce of the same destination is replaced by one emitted later.\<close>

fun refresh_queued :: "int \<Rightarrow> bytes \<Rightarrow> int \<Rightarrow> nat \<Rightarrow> bytes \<Rightarrow> announce_queue_entry list \<Rightarrow> announce_queue_entry list option" where
  "refresh_queued now destHash hops emitted raw [] = None"
| "refresh_queued now destHash hops emitted raw (e # es) =
     (if aq_destinationHash e \<noteq> destHash then map_option (Cons e) (refresh_queued now destHash hops emitted raw es)
      else Some ((if emitted > aq_emitted e
                  then e\<lparr>aq_queuedAt := now, aq_hops := hops, aq_emitted := emitted, aq_raw := raw\<rparr> else e) # es))"

definition queue_or_send :: "int \<Rightarrow> int \<Rightarrow> bytes \<Rightarrow> bytes \<Rightarrow> int \<Rightarrow> announce_queue \<Rightarrow> announce_queue \<times> bytes option" where
  "queue_or_send now bitrate destHash raw hops st =
     (let queuedAnnounces = (aq_queue st \<noteq> []) in
      if bitrate \<le> 0 then (st, Some raw)
      else if \<not> queuedAnnounces \<and> now > aq_allowedAt st then
        (st\<lparr>aq_allowedAt := now + announceWaitDuration (int (length raw)) bitrate\<rparr>, Some raw)
      else if length (aq_queue st) \<ge> maxQueuedAnnounces then (st, None)
      else
        let emitted = announceEmissionFromRaw raw in
        (case refresh_queued now destHash hops emitted raw (aq_queue st) of
           Some q \<Rightarrow> (st\<lparr>aq_queue := q\<rparr>, None)
         | None \<Rightarrow>
             let st = st\<lparr>aq_queue := aq_queue st @ [\<lparr>aq_destinationHash = destHash, aq_queuedAt = now, aq_hops = hops,
                                                  aq_emitted = emitted, aq_raw = raw\<rparr>]\<rparr>
             in (if \<not> queuedAnnounces then st\<lparr>aq_timer := Some (now + max (aq_allowedAt st - now) 0)\<rparr> else st, None)))"

definition queueOrSendAnnounceLocked :: "node_env \<Rightarrow> int \<Rightarrow> nat \<Rightarrow> bytes \<Rightarrow> bytes \<Rightarrow> int \<Rightarrow> node \<Rightarrow> node \<times> bytes option" where
  "queueOrSendAnnounceLocked env now iface destHash raw hops nd =
     (case queue_or_send now (iface_Bitrate env iface) destHash raw hops (announceQueueStateLocked iface nd) of
        (st, out) \<Rightarrow> (nd\<lparr>nd_announceQueues := (nd_announceQueues nd)(iface \<mapsto> st)\<rparr>, out))"

fun select_announce :: "announce_queue_entry list \<Rightarrow> nat \<Rightarrow> nat \<Rightarrow> announce_queue_entry list \<Rightarrow> nat" where
  "select_announce q sel i [] = sel"
| "select_announce q sel i (c # cs) =
     (let s = q ! sel in
      select_announce q (if aq_hops c < aq_hops s \<or> (aq_hops c = aq_hops s \<and> aq_queuedAt c < aq_queuedAt s) then i else sel) (i + 1) cs)"

definition process_queue :: "int \<Rightarrow> int \<Rightarrow> announce_queue \<Rightarrow> announce_queue \<times> bytes option" where
  "process_queue now bitrate st =
     (let st = st\<lparr>aq_timer := None, aq_queue := filter (\<lambda>e. now - aq_queuedAt e \<le> queuedAnnounceLife) (aq_queue st)\<rparr> in
      if aq_queue st = [] then (st, None)
      else
        let i = select_announce (aq_queue st) 0 1 (tl (aq_queue st));
            raw = aq_raw (aq_queue st ! i);
            q = take i (aq_queue st) @ drop (i + 1) (aq_queue st);
            nextDelay = announceWaitDuration (int (length raw)) bitrate
        in (st\<lparr>aq_queue := q, aq_allowedAt := now + nextDelay,
               aq_timer := if q \<noteq> [] then Some (now + max nextDelay 0) else None\<rparr>, Some raw))"

definition sendRebroadcast :: "node \<Rightarrow> nat \<Rightarrow> bytes \<Rightarrow> node_out list" where
  "sendRebroadcast nd iface raw = (if raw = [] then [] else [Bare iface (reframeAnnounceForTransport (nd_ts nd) raw)])"

definition processAnnounceQueue :: "node_env \<Rightarrow> nat \<Rightarrow> int \<Rightarrow> node \<Rightarrow> node \<times> node_out list" where
  "processAnnounceQueue env iface now nd =
     (case nd_announceQueues nd iface of
        None \<Rightarrow> (nd, [])
      | Some st \<Rightarrow>
          (case process_queue now (iface_Bitrate env iface) st of
             (st, out) \<Rightarrow>
               (nd\<lparr>nd_announceQueues := (nd_announceQueues nd)(iface \<mapsto> st)\<rparr>,
                case out of None \<Rightarrow> [] | Some raw \<Rightarrow> sendRebroadcast nd iface raw)))"

section \<open>Rebroadcasts\<close>

type_synonym announce_job = "nat \<times> bytes \<times> int"

definition offer_announce ::
  "node_env \<Rightarrow> int \<Rightarrow> bytes \<Rightarrow> announce_entry \<Rightarrow> bool \<Rightarrow> node \<times> announce_job list \<Rightarrow> nat \<Rightarrow> node \<times> announce_job list" where
  "offer_announce env now destHash e localDest acc outIface =
     (case acc of
        (nd, jobs) \<Rightarrow>
          if \<not> iface_Status env outIface \<or> \<not> iface_IsOut env outIface then (nd, jobs)
          else
            (case shouldTransmitAnnounce env outIface (Some (ae_SourceInterface e)) localDest (ae_Hops e) of
               AnnounceBlock \<Rightarrow> (nd, jobs)
             | AnnounceDirect \<Rightarrow> (nd, jobs @ [(outIface, ae_PacketRaw e, ae_Hops e)])
             | AnnounceCapped \<Rightarrow>
                 (case queueOrSendAnnounceLocked env now outIface destHash (ae_PacketRaw e) (ae_Hops e) nd of
                    (nd, Some raw) \<Rightarrow> (nd, if raw = [] then jobs else jobs @ [(outIface, raw, ae_Hops e)])
                  | (nd, None) \<Rightarrow> (nd, jobs))))"

text \<open>One entry of the announce table. An entry of the known destinations that lacks its elements is taken as not recalled.\<close>

definition announce_tick ::
  "node_env \<Rightarrow> int \<Rightarrow> (bytes \<Rightarrow> byte option) \<Rightarrow> node \<times> announce_job list \<Rightarrow> bytes \<times> announce_entry \<Rightarrow> node \<times> announce_job list" where
  "announce_tick env now rnd acc de =
     (case (acc, de) of
        ((nd, jobs), (destHash, e)) \<Rightarrow>
          let remove = (\<lambda>nd. nd\<lparr>nd_announceTable := AList.delete destHash (nd_announceTable nd)\<rparr>) in
          if now < ae_NextRebroadcastAt e then (nd, jobs)
          else if ae_Retries e \<ge> localRebroadcastsMax \<or> ae_Retries e > pathfinderRetries then (remove nd, jobs)
          else if (case snd (recallLocked (seconds now) destHash True (nd_known nd)) of Some (Some _) \<Rightarrow> False | _ \<Rightarrow> True)
          then (remove nd, jobs)
          else
            (case foldl (offer_announce env now destHash e (nd_destinationsMap nd destHash \<noteq> None)) (nd, jobs) (nd_interfaces nd) of
               (nd, jobs) \<Rightarrow>
                 let e = e\<lparr>ae_Retries := ae_Retries e + 1,
                           ae_NextRebroadcastAt := now + (pathfinderGrace + randomDuration (rnd destHash) pathfinderRandomWindow)\<rparr>
                 in if ae_Retries e \<ge> localRebroadcastsMax \<or> ae_Retries e > pathfinderRetries then (remove nd, jobs)
                    else (nd\<lparr>nd_announceTable := AList.update destHash e (nd_announceTable nd)\<rparr>, jobs)))"

definition handleOutgoingAnnounces :: "node \<Rightarrow> announce_job list \<Rightarrow> node_out list" where
  "handleOutgoingAnnounces nd jobs =
     concat (map (\<lambda>(iface, raw, hops). sendRebroadcast nd iface raw) (sort_key (\<lambda>(iface, raw, hops). hops) jobs))"

definition processAnnounceTable :: "node_env \<Rightarrow> int \<Rightarrow> (bytes \<Rightarrow> byte option) \<Rightarrow> node \<Rightarrow> node \<times> node_out list" where
  "processAnnounceTable env now rnd nd =
     (case foldl (announce_tick env now rnd) (nd, []) (nd_announceTable nd) of
        (nd, jobs) \<Rightarrow> (nd, handleOutgoingAnnounces nd jobs))"

text \<open>The interface job: the burst states are refreshed and a held announce is put back into the inbound path.\<close>

definition runInterfaceJob ::
  "((bytes \<times> held_announce) list \<Rightarrow> (bytes \<times> held_announce) list) \<Rightarrow> int \<Rightarrow> nat \<Rightarrow> node \<Rightarrow> node \<times> (bytes \<times> nat) option" where
  "runInterfaceJob order now iface nd =
     (let bi = fst (shouldIngressLimitAt now (nd_ingress nd iface));
          bi = fst (shouldIngressLimitPrAt now bi)
      in (case processHeldAnnouncesAt order now bi of
            (bi, released) \<Rightarrow> (nd\<lparr>nd_ingress := (nd_ingress nd)(iface := bi)\<rparr>, released)))"

end
