(* ===== verification/PathRequests.thy ===== *)
theory PathRequests
  imports Announces
begin

text \<open>
  Path requests: how a node answers a request from its own destinations or from a known path, how
  it passes an unknown one on, and how the response finds back to those who asked. Requests and
  announces meet in \<open>process_inbound\<close>, the part of the inbound path behind the queues that changes
  the routing state. A packet always carries the interface it was received on, so the broadcast
  fallback for packets without one does not occur, and failures to write to an interface are left out.
\<close>

section \<open>Bookkeeping\<close>

abbreviation (input) maxPRTags :: nat where "maxPRTags \<equiv> 32000"
abbreviation (input) pathRequestMinInterval :: int where "pathRequestMinInterval \<equiv> 20 * 10 ^ 9"
abbreviation (input) pathRequestCullAfter :: int where "pathRequestCullAfter \<equiv> 2 * pathRequestMinInterval"

definition cullDiscoveryPRTagsLocked :: "node \<Rightarrow> node" where
  "cullDiscoveryPRTagsLocked nd =
     (if length (nd_discoveryPRTags nd) \<le> maxPRTags then nd
      else nd\<lparr>nd_discoveryPRTagsPrev := nd_discoveryPRTags nd, nd_discoveryPRTags := []\<rparr>)"

definition cullPathRequests :: "node_env \<Rightarrow> int \<Rightarrow> node \<Rightarrow> node" where
  "cullPathRequests env now nd =
     nd\<lparr>nd_pathRequests := filter (\<lambda>(h, t). \<not> now - t > pathRequestCullAfter) (nd_pathRequests nd),
        nd_inflightPathRequests := filter (\<lambda>(h, t). \<not> now - t > pathRequestCullAfter) (nd_inflightPathRequests nd),
        nd_pendingPathRequests := filter (\<lambda>(h, rs). list_ex (\<lambda>r. \<not> iface_IsDetached env r) rs) (nd_pendingPathRequests nd)\<rparr>"

definition clearPendingPathRequesters :: "bytes \<Rightarrow> node \<Rightarrow> node" where
  "clearPendingPathRequesters destHash nd = nd\<lparr>nd_pendingPathRequests := AList.delete destHash (nd_pendingPathRequests nd)\<rparr>"

section \<open>Answers\<close>

text \<open>The random bytes for an announce and for a ratchet, and whether the ratchet file can be replaced and stored.\<close>

record announce_io =
  an_rand :: "nat \<Rightarrow> bytes option"
  an_key :: "nat \<Rightarrow> bytes option"
  an_swap :: bool
  an_persist :: bool

definition answer_local :: "curves \<Rightarrow> announce_io \<Rightarrow> int \<Rightarrow> bytes \<Rightarrow> destination \<Rightarrow> nat \<Rightarrow> node \<Rightarrow> node \<times> node_out list" where
  "answer_local cs aio now targetHash d iface nd =
     (case buildAnnouncePacket cs (an_rand aio) (an_key aio) (\<lambda>_. None) (an_swap aio) now (nd_ratchetFiles nd) d None True of
        (d, fs, effects, res) \<Rightarrow>
          (nd\<lparr>nd_destinationsMap := (nd_destinationsMap nd)(targetHash \<mapsto> d), nd_ratchetFiles := fs,
              nd_known := apply_effects (an_persist aio) (seconds now) effects (nd_known nd)\<rparr>,
           case res of
             Inl e \<Rightarrow> []
           | Inr p \<Rightarrow>
               (case Pack (p\<lparr>HeaderType := Header1, TransportType := TransportBroadcast, TransportID := None\<rparr>) of
                  (p, Some e) \<Rightarrow> []
                | (p, None) \<Rightarrow> [Sealed iface (Raw p)])))"

definition cached_response :: "bytes \<Rightarrow> bytes \<Rightarrow> int \<Rightarrow> packet \<Rightarrow> bytes" where
  "cached_response idHash targetHash hops cached =
     [word_of_int (push_bit 6 Header2 OR push_bit 5 (ContextFlag cached) OR push_bit 4 TransportForward
        OR push_bit 2 (DestinationType cached) OR PacketAnnounce), word_of_int hops]
       @ idHash @ targetHash @ [word_of_int ContextPathResponse] @ Data cached"

definition answer_cached :: "bytes \<Rightarrow> int \<Rightarrow> bytes option \<Rightarrow> bytes \<Rightarrow> route \<Rightarrow> nat \<Rightarrow> node \<Rightarrow> node \<times> node_out list" where
  "answer_cached idHash now requestor targetHash e iface nd =
     (if length (pe_NextHop e) = dstLen \<and> requestor = Some (pe_NextHop e) then (nd, [])
      else
        (case Unpack (empty_packet\<lparr>Raw := pe_Packet e\<rparr>) of
           (cached, Some err) \<Rightarrow> (nd, [])
         | (cached, None) \<Rightarrow>
             if DestinationHash cached \<noteq> targetHash then (nd, [])
             else (nd\<lparr>nd_known := fst (usedDestinationDataLocked (seconds now) targetHash (nd_known nd))\<rparr>,
                   [Sealed iface (cached_response idHash targetHash (pe_Hops e) cached)])))"

text \<open>The flag tells that the request is settled and must not be passed on.\<close>

definition handlePathRequest ::
  "curves \<Rightarrow> node_env \<Rightarrow> announce_io \<Rightarrow> int \<Rightarrow> bytes \<Rightarrow> nat \<Rightarrow> node \<Rightarrow> node \<times> node_out list \<times> bool" where
  "handlePathRequest cs env aio now data iface nd =
     (if length data < dstLen then (nd, [], False)
      else
        let targetHash = take dstLen data;
            requestor = (if length data > dstLen then Some (go_slice dstLen (min (length data) (2 * dstLen)) data) else None);
            tag = (if length data > 2 * dstLen then drop (2 * dstLen) data else drop dstLen data);
            violation = (if length tag > dstLen then [ProtocolViolation iface] else []);
            uniqueTag = targetHash @ take dstLen tag
        in
        if tag = [] then (nd, [ProtocolViolation iface], True)
        else if uniqueTag \<in> set (nd_discoveryPRTags nd) \<or> uniqueTag \<in> set (nd_discoveryPRTagsPrev nd) then (nd, violation, True)
        else
          let nd = cullDiscoveryPRTagsLocked (nd\<lparr>nd_discoveryPRTags := uniqueTag # nd_discoveryPRTags nd\<rparr>) in
          if map_of (nd_inflightPathRequests nd) targetHash \<noteq> None then (nd, violation, True)
          else
            let answered = (\<lambda>nd. nd\<lparr>nd_inflightPathRequests := AList.delete targetHash (nd_inflightPathRequests nd)\<rparr>);
                nd = nd\<lparr>nd_inflightPathRequests := AList.update targetHash now (nd_inflightPathRequests nd)\<rparr>
            in
            (case nd_destinationsMap nd targetHash of
               Some d \<Rightarrow>
                 (case answer_local cs aio now targetHash d iface nd of (nd, out) \<Rightarrow> (answered nd, violation @ out, True))
             | None \<Rightarrow>
                 let cachedPath = (if ts_connectedToSharedInstance (nd_ts nd) then None else map_of (nd_pathTable nd) targetHash);
                     onClient = (case cachedPath of
                                   Some e \<Rightarrow> (case pe_Interface e of None \<Rightarrow> False | Some i \<Rightarrow> IsSpawnedLocalClient env i)
                                 | None \<Rightarrow> False);
                     nd = (if onClient then nd\<lparr>nd_known := fst (usedDestinationDataLocked (seconds now) targetHash (nd_known nd))\<rparr>
                           else nd)
                 in
                 (case (cachedPath, ts_identity (nd_ts nd)) of
                    (Some e, Some idHash) \<Rightarrow>
                      if pe_Packet e = [] then (nd, violation, False)
                      else (case answer_cached idHash now requestor targetHash e iface nd of
                              (nd, out) \<Rightarrow> (answered nd, violation @ out, True))
                  | _ \<Rightarrow> (nd, violation, False))))"

section \<open>Passing requests on\<close>

definition relay_request :: "curves \<Rightarrow> bytes \<Rightarrow> bytes option" where
  "relay_request cs data =
     (case NewDestination cs (\<lambda>_. None) (\<lambda>_. None) True None DestinationOut DestinationPlain (utf8 ''rnstransport'') [utf8 ''path'', utf8 ''request''] of
        Inl e \<Rightarrow> None
      | Inr d \<Rightarrow>
          (case Pack ((NewPacketWithTransport (d_transport d) (Some (as_packet_dest Some d)) data)\<lparr>TransportType := TransportBroadcast\<rparr>) of
             (p, Some e) \<Rightarrow> None
           | (p, None) \<Rightarrow> Some (Raw p)))"

definition forwardPathRequestToLocalClients :: "curves \<Rightarrow> node_env \<Rightarrow> bytes \<Rightarrow> node \<Rightarrow> node_out list" where
  "forwardPathRequestToLocalClients cs env data nd =
     (case relay_request cs data of
        None \<Rightarrow> []
      | Some raw \<Rightarrow>
          concat (map (\<lambda>i. case SpawnedClientInterfaces env i of
                             None \<Rightarrow> []
                           | Some clients \<Rightarrow> map (\<lambda>sc. Sealed sc raw) (filter (iface_Status env) clients))
                   (nd_interfaces nd)))"

text \<open>Whether unknown paths are searched for an interface, and the modes the search is restricted to.\<close>

definition search_modes :: "node_env \<Rightarrow> nat \<Rightarrow> bool \<times> iface_mode list" where
  "search_modes env source =
     (if RecursivePrs env source then (True, [])
      else if iface_Mode env source \<in> set [ModeAccessPoint, ModeGateway, ModeRoaming, ModeInternal] then (True, [])
      else if iface_Mode env source = ModeBoundary then (True, [ModeBoundary, ModeGateway])
      else (False, []))"

definition relay_on ::
  "node_env \<Rightarrow> int \<Rightarrow> bytes \<Rightarrow> nat \<Rightarrow> iface_mode list \<Rightarrow> node \<times> node_out list \<Rightarrow> nat \<Rightarrow> node \<times> node_out list" where
  "relay_on env now raw source filt acc outIface =
     (case acc of
        (nd, out) \<Rightarrow>
          if outIface = source \<or> (filt \<noteq> [] \<and> iface_Mode env outIface \<notin> set filt) \<or> \<not> iface_Status env outIface then (nd, out)
          else if (case nd_announceQueues nd outIface of None \<Rightarrow> False | Some st \<Rightarrow> aq_queue st \<noteq> [] \<or> now < aq_allowedAt st) then (nd, out)
          else
            (case shouldEgressLimitPrAt now (nd_ingress nd outIface) of
               (bi, limited) \<Rightarrow>
                 (nd\<lparr>nd_ingress := (nd_ingress nd)(outIface := bi)\<rparr>, if limited then out else out @ [Sealed outIface raw])))"

definition forwardPathRequest :: "curves \<Rightarrow> node_env \<Rightarrow> int \<Rightarrow> bytes \<Rightarrow> nat \<Rightarrow> node \<Rightarrow> node \<times> node_out list" where
  "forwardPathRequest cs env now data source nd =
     (if length data < dstLen then (nd, [])
      else
        let targetHash = take dstLen data; fromClient = IsSpawnedLocalClient env source in
        (case (if fromClient then (nd, False)
               else (case shouldIngressLimitPrAt now (nd_ingress nd source) of
                       (bi, limited) \<Rightarrow> (nd\<lparr>nd_ingress := (nd_ingress nd)(source := bi)\<rparr>, limited))) of
           (nd, True) \<Rightarrow> (nd, [])
         | (nd, False) \<Rightarrow>
             (case search_modes env source of
                (search, filt) \<Rightarrow>
                  let clients = (if \<not> fromClient \<and> \<not> search then forwardPathRequestToLocalClients cs env data nd else []) in
                  if clients \<noteq> [] then (nd, clients)
                  else
                    let requesters = (case map_of (nd_pendingPathRequests nd) targetHash of None \<Rightarrow> [] | Some rs \<Rightarrow> rs);
                        nd = (if source \<in> set requesters then nd
                              else nd\<lparr>nd_pendingPathRequests := AList.update targetHash (requesters @ [source]) (nd_pendingPathRequests nd)\<rparr>)
                    in (case relay_request cs data of
                          None \<Rightarrow> (nd, [])
                        | Some raw \<Rightarrow> foldl (relay_on env now raw source filt) (nd, []) (nd_interfaces nd)))))"

definition forwardPathResponseToRequesters :: "node_env \<Rightarrow> packet \<Rightarrow> nat \<Rightarrow> node \<Rightarrow> node_out list" where
  "forwardPathResponseToRequesters env p source nd =
     (case map_of (nd_pendingPathRequests nd) (DestinationHash p) of
        None \<Rightarrow> []
      | Some requesters \<Rightarrow>
          let raw = (if length (Raw p) > 1 then (Raw p)[1 := word_of_int (Hops p)] else Raw p)
          in map (\<lambda>r. Sealed r (reframeAnnounceForTransport (nd_ts nd) raw))
               (filter (\<lambda>r. r \<noteq> source \<and> iface_Status env r) requesters))"

section \<open>Inbound packets\<close>

definition process_path_request ::
  "curves \<Rightarrow> node_env \<Rightarrow> announce_io \<Rightarrow> int \<Rightarrow> packet \<Rightarrow> nat \<Rightarrow> node \<Rightarrow> node \<times> node_out list" where
  "process_path_request cs env aio now p iface nd =
     (let nd = (if length (Data p) > dstLen
                then nd\<lparr>nd_ingress := record_sample (receivedPathRequestAtSize now (int (length (Raw p)))) (parentInterface env) iface (nd_ingress nd)\<rparr>
                else nd)
      in (case handlePathRequest cs env aio now (Data p) iface nd of
            (nd, out, True) \<Rightarrow> (nd, out)
          | (nd, out, False) \<Rightarrow>
              (case forwardPathRequest cs env now (Data p) iface nd of (nd, out') \<Rightarrow> (nd, out @ out'))))"

definition process_announce ::
  "curves \<Rightarrow> node_env \<Rightarrow> announce_io \<Rightarrow> int \<Rightarrow> byte option \<Rightarrow> packet \<Rightarrow> nat \<Rightarrow> node \<Rightarrow> node \<times> node_out list" where
  "process_announce cs env aio now rnd p iface nd =
     (case handleAnnounce cs env (an_persist aio) now rnd p iface nd of
        (nd, out) \<Rightarrow>
          if Context p = ContextPathResponse then
            let served = forwardPathResponseToRequesters env p iface nd
            in (if served \<noteq> [] then clearPendingPathRequesters (DestinationHash p) nd else nd, out @ served)
          else (nd, out))"

text \<open>Packets for a local destination, for a link or for the next hop take their own ways.\<close>

definition process_inbound ::
  "curves \<Rightarrow> node_env \<Rightarrow> announce_io \<Rightarrow> int \<Rightarrow> byte option \<Rightarrow> packet \<Rightarrow> nat \<Rightarrow> node \<Rightarrow> node \<times> node_out list" where
  "process_inbound cs env aio now rnd p iface nd =
     (if isPathRequestPacket (nd_ts nd) p then process_path_request cs env aio now p iface nd
      else if nd_destinationsMap nd (DestinationHash p) \<noteq> None then (nd, [])
      else if PacketType p = PacketAnnounce then process_announce cs env aio now rnd p iface nd
      else (nd, []))"

section \<open>What a path request leaves alone\<close>

text \<open>Two nodes with the same routing tables; the interfaces of the second are no worse off.\<close>

definition same_routes :: "node \<Rightarrow> node \<Rightarrow> bool" where
  "same_routes nd nd' \<longleftrightarrow> nd_pathTable nd' = nd_pathTable nd \<and> nd_announceTable nd' = nd_announceTable nd
     \<and> nd_announceQueues nd' = nd_announceQueues nd \<and> nd_ts nd' = nd_ts nd \<and> nd_interfaces nd' = nd_interfaces nd
     \<and> ((\<forall>i. ingress_wf (nd_ingress nd i)) \<longrightarrow> (\<forall>i. ingress_wf (nd_ingress nd' i)))"

lemma same_routes_refl [simp]: "same_routes nd nd"
  by (simp add: same_routes_def)

lemma same_routes_trans: "same_routes nd nd' \<Longrightarrow> same_routes nd' nd'' \<Longrightarrow> same_routes nd nd''"
  by (simp add: same_routes_def)

lemma answer_local_routes: "same_routes nd (fst (answer_local cs aio now h d i nd))"
  by (simp add: answer_local_def same_routes_def split: prod.split)

lemma answer_cached_routes: "same_routes nd (fst (answer_cached idh now r h e i nd))"
  by (simp add: answer_cached_def same_routes_def split: prod.split option.split)

lemma cull_tags_routes: "same_routes nd (cullDiscoveryPRTagsLocked (nd\<lparr>nd_discoveryPRTags := ts\<rparr>))"
  by (simp add: cullDiscoveryPRTagsLocked_def same_routes_def)

lemma inflight_routes: "same_routes nd (nd\<lparr>nd_inflightPathRequests := xs\<rparr>)"
  by (simp add: same_routes_def)

lemma used_routes: "same_routes nd (if b then nd\<lparr>nd_known := ks\<rparr> else nd)"
  by (simp add: same_routes_def)

text \<open>The result of a branch keeps the routes if every branch does.\<close>

lemma same_routes_split:
  "(c \<Longrightarrow> same_routes nd (fst a)) \<Longrightarrow> (\<not> c \<Longrightarrow> same_routes nd (fst b)) \<Longrightarrow> same_routes nd (fst (if c then a else b))"
  "(x = None \<Longrightarrow> same_routes nd (fst a)) \<Longrightarrow> (\<And>v. x = Some v \<Longrightarrow> same_routes nd (fst (f v))) \<Longrightarrow>
    same_routes nd (fst (case x of None \<Rightarrow> a | Some v \<Rightarrow> f v))"
  "(\<And>u v. y = (u, v) \<Longrightarrow> same_routes nd (fst (g u v))) \<Longrightarrow> same_routes nd (fst (case y of (u, v) \<Rightarrow> g u v))"
  by (simp_all split: option.split prod.split)

lemma handlePathRequest_routes: "same_routes nd (fst (handlePathRequest cs env aio now data iface nd))"
proof -
  have s: "same_routes nd (m\<lparr>nd_inflightPathRequests := xs\<rparr>)" if "same_routes nd m" for m xs
    using that by (simp add: same_routes_def)
  have u: "same_routes nd (if b then m\<lparr>nd_known := ks\<rparr> else m)" if "same_routes nd m" for m b ks
    using that by (simp add: same_routes_def)
  have a: "same_routes nd n" if "same_routes nd m" "answer_local cs aio now h d i m = (n, out)" for h d i m n out
    using same_routes_trans [OF that(1) answer_local_routes [of m cs aio now h d i]] that(2) by simp
  have c: "same_routes nd n" if "same_routes nd m" "answer_cached idh now r h e i m = (n, out)" for idh r h e i m n out
    using same_routes_trans [OF that(1) answer_cached_routes [of m idh now r h e i]] that(2) by simp
  show ?thesis
    unfolding handlePathRequest_def Let_def prod.case
    by (intro same_routes_split; unfold fst_conv; (intro same_routes_refl cull_tags_routes s u | erule a [rotated] | erule c [rotated])+)
qed

lemma ingress_limits_wf:
  assumes "ingress_wf bi"
  shows "ingress_wf (fst (shouldIngressLimitPrAt now bi))" "ingress_wf (fst (shouldEgressLimitPrAt now bi))"
    "ingress_wf (receivedPathRequestAtSize now k bi)"
  using ingress_step_wf [OF assms, of undefined "IngressLimitPrOp now"] ingress_step_wf [OF assms, of undefined "EgressLimitPrOp now"]
    ingress_step_wf [OF assms, of undefined "ReceivedPathRequestOp now k"] by simp_all

lemma relay_on_routes: "same_routes (fst acc) (fst (relay_on env now raw source filt acc i))"
  using ingress_limits_wf(2) by (cases acc) (auto simp: relay_on_def same_routes_def case_prod_beta split: option.split)

lemma relay_all_routes: "same_routes (fst acc) (fst (foldl (relay_on env now raw source filt) acc is))"
proof (induction "is" arbitrary: acc)
  case (Cons i "is")
  show ?case unfolding foldl.simps by (rule same_routes_trans [OF relay_on_routes Cons.IH])
qed simp

lemma forwardPathRequest_routes: "same_routes nd (fst (forwardPathRequest cs env now data source nd))"
proof -
  define m where "m = (if IsSpawnedLocalClient env source then (nd, False)
      else (case shouldIngressLimitPrAt now (nd_ingress nd source) of
              (bi, limited) \<Rightarrow> (nd\<lparr>nd_ingress := (nd_ingress nd)(source := bi)\<rparr>, limited)))"
  have m: "same_routes nd (fst m)"
    using ingress_limits_wf(1) by (auto simp: m_def same_routes_def case_prod_beta)
  have p: "same_routes nd (fst (foldl (relay_on env now raw source filt) (n, []) is))" if "same_routes nd n" for n raw filt "is"
    using that relay_all_routes [of "(n, [])"] same_routes_trans by fastforce
  have q: "same_routes nd (n\<lparr>nd_pendingPathRequests := xs\<rparr>)" if "same_routes nd n" for n xs
    using that by (simp add: same_routes_def)
  show ?thesis
    unfolding forwardPathRequest_def Let_def m_def [symmetric]
    using m p q by (cases m) (auto split: bool.split prod.split option.split)
qed

lemma process_path_request_routes: "same_routes nd (fst (process_path_request cs env aio now p iface nd))"
proof -
  define m where "m = (if length (Data p) > dstLen
      then nd\<lparr>nd_ingress := record_sample (receivedPathRequestAtSize now (int (length (Raw p)))) (parentInterface env) iface (nd_ingress nd)\<rparr>
      else nd)"
  have "same_routes nd m"
    using ingress_limits_wf(3) by (auto simp: m_def same_routes_def record_sample_def Let_def split: option.split)
  moreover obtain n out b where h: "handlePathRequest cs env aio now (Data p) iface m = (n, out, b)" by (metis prod_cases3)
  ultimately have "same_routes nd n"
    using handlePathRequest_routes [of m cs env aio now "Data p" iface] same_routes_trans by simp
  then show ?thesis
    using same_routes_trans [OF _ forwardPathRequest_routes [of n cs env now "Data p" iface]]
    unfolding process_path_request_def Let_def m_def [symmetric] h by (cases b) (simp_all add: case_prod_beta)
qed

lemma process_announce_state:
  "\<exists>pending. fst (process_announce cs env aio now rnd p iface nd) =
     (fst (handleAnnounce cs env (an_persist aio) now rnd p iface nd))\<lparr>nd_pendingPathRequests := pending\<rparr>"
proof -
  have "\<exists>q. n = n\<lparr>nd_pendingPathRequests := q\<rparr>" for n :: node by (rule exI [of _ "nd_pendingPathRequests n"]) simp
  then show ?thesis
    by (auto simp: process_announce_def clearPendingPathRequesters_def Let_def case_prod_beta)
qed

end
