(* ===== verification/Routes.thy ===== *)
theory Routes
  imports PathRequests
begin

text \<open>
  The path table and the announce tables of a transport node as a whole: the node is driven by
  frames, timers and maintenance calls (\<open>node_step\<close>), and the theorems hold along every such run. The
  invariant \<open>node_wf\<close> bounds all tables and states that every path and every queued rebroadcast rests on an announce signed
  by the destination itself.
\<close>

section \<open>Events\<close>

datatype transport_event =
    FrameEvent int "byte option" announce_io bytes nat
  | AnnounceTickEvent int "bytes \<Rightarrow> byte option"
  | QueueTimerEvent nat int
  | InterfaceJobEvent int nat
  | CullPathsEvent int
  | CullRequestsEvent int
  | CullTagsEvent
  | UnresponsiveEvent bytes
  | ResponsiveEvent bytes
  | ExpireEvent bytes
  | InvalidateEvent bytes
  | InvalidateInterfaceEvent nat
  | InvalidateNextHopEvent bytes

text \<open>A received frame runs through the filter of the inbound path; requests and announces reach their handlers.\<close>

definition receive_frame ::
  "curves \<Rightarrow> node_env \<Rightarrow> announce_io \<Rightarrow> int \<Rightarrow> byte option \<Rightarrow> bytes \<Rightarrow> nat \<Rightarrow> node \<Rightarrow> node \<times> node_out list" where
  "receive_frame cs env aio now rnd raw iface nd =
     (case accept_frame (iface_env.truncate env) (node_transport nd) raw iface noTrafficClass of
        (ts, InboundAccepted c p) \<Rightarrow> process_inbound cs env aio now rnd p iface (nd\<lparr>nd_ts := ts\<rparr>)
      | (ts, InboundDropped d) \<Rightarrow> (nd\<lparr>nd_ts := ts\<rparr>, []))"

fun node_step ::
  "curves \<Rightarrow> node_env \<Rightarrow> ((bytes \<times> held_announce) list \<Rightarrow> (bytes \<times> held_announce) list) \<Rightarrow> transport_event \<Rightarrow> node
     \<Rightarrow> node \<times> node_out list" where
  "node_step cs env order (FrameEvent now rnd aio raw iface) nd = receive_frame cs env aio now rnd raw iface nd"
| "node_step cs env order (AnnounceTickEvent now rnd) nd = processAnnounceTable env now rnd nd"
| "node_step cs env order (QueueTimerEvent iface now) nd = processAnnounceQueue env iface now nd"
| "node_step cs env order (InterfaceJobEvent now iface) nd = (fst (runInterfaceJob order now iface nd), [])"
| "node_step cs env order (CullPathsEvent now) nd = (cullExpiredPaths env now nd, [])"
| "node_step cs env order (CullRequestsEvent now) nd = (cullPathRequests env now nd, [])"
| "node_step cs env order CullTagsEvent nd = (cullDiscoveryPRTagsLocked nd, [])"
| "node_step cs env order (UnresponsiveEvent dest) nd = (markPathUnresponsiveLocked dest nd, [])"
| "node_step cs env order (ResponsiveEvent dest) nd = (MarkPathResponsive dest nd, [])"
| "node_step cs env order (ExpireEvent dest) nd = (expirePathLocked dest nd, [])"
| "node_step cs env order (InvalidateEvent dest) nd = (fst (InvalidatePath dest nd), [])"
| "node_step cs env order (InvalidateInterfaceEvent iface) nd = (fst (InvalidatePathsViaInterface iface nd), [])"
| "node_step cs env order (InvalidateNextHopEvent nextHop) nd = (fst (InvalidatePathsViaNextHop nextHop nd), [])"

section \<open>Well-formed nodes\<close>

text \<open>A frame that holds an announce for \<open>dest\<close>, signed by the identity behind it.\<close>

definition signed_announce :: "curves \<Rightarrow> bytes \<Rightarrow> bytes \<Rightarrow> bool" where
  "signed_announce cs dest raw \<longleftrightarrow>
     (\<exists>p. Unpack (NewPacketFromRaw raw) = (p, None) \<and> DestinationHash p = dest \<and> ValidateAnnounce cs p \<noteq> None)"

definition route_wf :: "curves \<Rightarrow> bytes \<Rightarrow> route \<Rightarrow> bool" where
  "route_wf cs dest e \<longleftrightarrow> 0 \<le> pe_Hops e \<and> pe_Hops e \<le> PathfinderM \<and> length (pe_NextHop e) = dstLen \<and> pe_Interface e \<noteq> None
     \<and> length (pe_RandomBlobs e) \<le> maxRandomBlobs \<and> distinct (pe_RandomBlobs e) \<and> (\<forall>b \<in> set (pe_RandomBlobs e). length b = 10)
     \<and> signed_announce cs dest (pe_Packet e)
     \<and> (\<exists>p b. Unpack (NewPacketFromRaw (pe_Packet e)) = (p, None) \<and> announce_blob p = Some b \<and> b \<in> set (pe_RandomBlobs e))"

text \<open>The queued frame is the received one with the hop count of the arrival.\<close>

definition announce_entry_wf :: "curves \<Rightarrow> bytes \<Rightarrow> announce_entry \<Rightarrow> bool" where
  "announce_entry_wf cs dest e \<longleftrightarrow> 0 \<le> ae_Hops e \<and> ae_Hops e \<le> PathfinderM \<and> 0 \<le> ae_Retries e \<and> ae_Retries e \<le> pathfinderRetries
     \<and> (\<exists>raw. signed_announce cs dest raw \<and> ae_PacketRaw e = raw[1 := word_of_int (ae_Hops e)])"

definition queue_wf :: "announce_queue \<Rightarrow> bool" where
  "queue_wf st \<longleftrightarrow> length (aq_queue st) \<le> maxQueuedAnnounces \<and> distinct (map aq_destinationHash (aq_queue st))"

definition node_wf :: "curves \<Rightarrow> node \<Rightarrow> bool" where
  "node_wf cs nd \<longleftrightarrow> distinct (map fst (nd_pathTable nd)) \<and> (\<forall>(dest, e) \<in> set (nd_pathTable nd). route_wf cs dest e)
     \<and> distinct (map fst (nd_announceTable nd)) \<and> (\<forall>(dest, e) \<in> set (nd_announceTable nd). announce_entry_wf cs dest e)
     \<and> (\<forall>i st. nd_announceQueues nd i = Some st \<longrightarrow> queue_wf st)
     \<and> (\<forall>i. ingress_wf (nd_ingress nd i))"

text \<open>Association lists: an update, a deletion and a filter keep what holds of all entries.\<close>

definition table_ok :: "('k \<Rightarrow> 'v \<Rightarrow> bool) \<Rightarrow> ('k \<times> 'v) list \<Rightarrow> bool" where
  "table_ok P xs \<longleftrightarrow> distinct (map fst xs) \<and> (\<forall>(k, v) \<in> set xs. P k v)"

lemma table_ok_update: "table_ok P xs \<Longrightarrow> P k v \<Longrightarrow> table_ok P (AList.update k v xs)"
proof -
  assume a: "table_ok P xs" "P k v"
  have "set (AList.update k v xs) \<subseteq> insert (k, v) (set xs)" by (induction xs) auto
  with a show ?thesis by (auto simp: table_ok_def distinct_update)
qed

lemma table_ok_filter: "table_ok P xs \<Longrightarrow> table_ok P (filter Q xs)"
  by (auto simp: table_ok_def distinct_map_filter)

lemma table_ok_delete: "table_ok P xs \<Longrightarrow> table_ok P (AList.delete k xs)"
  unfolding AList.delete_eq by (rule table_ok_filter)

lemma table_ok_find: "table_ok P xs \<Longrightarrow> map_of xs k = Some v \<Longrightarrow> P k v"
  by (auto simp: table_ok_def dest: map_of_SomeD)

lemma node_wf_tables:
  "node_wf cs nd \<longleftrightarrow> table_ok (route_wf cs) (nd_pathTable nd) \<and> table_ok (announce_entry_wf cs) (nd_announceTable nd)
     \<and> (\<forall>i st. nd_announceQueues nd i = Some st \<longrightarrow> queue_wf st) \<and> (\<forall>i. ingress_wf (nd_ingress nd i))"
  by (auto simp: node_wf_def table_ok_def)

section \<open>What an accepted frame looks like\<close>

text \<open>The part of a packet that the receiver of a frame sees; hop count and transport do not enter the announce check.\<close>

lemma ValidateAnnounce_cong:
  "ValidateAnnounce cs (p\<lparr>packet_transport := t, Hops := h\<rparr>) = ValidateAnnounce cs p"
  by (cases p) (simp only: ValidateAnnounce_def packet.simps)

lemma parsed_transport_id:
  assumes "Unpack (NewPacketFromRaw raw) = (u, None)"
  shows "length (DestinationHash u) = dstLen \<and> (TransportID u = None \<or> (\<exists>tid. TransportID u = Some tid \<and> length tid = dstLen))"
  using assms
proof (cases rule: parsed_cases)
  case (h1 f h dst c data)
  with parse_frame1 [of dst h f c data] assms show ?thesis by (auto simp: records_frame_def)
next
  case (h2 f h tid dst c data)
  then show ?thesis by (auto simp: records_frame_def)
qed

lemma accepted_announce:
  assumes "accept_frame env ts raw iface tc = (ts', InboundAccepted c p)"
  obtains u where "Unpack (NewPacketFromRaw raw) = (u, None)" "p = u\<lparr>packet_transport := True, Hops := Hops p\<rparr>" "Raw p = raw"
    "0 \<le> Hops p" "Hops p \<le> PathfinderM" "Hops p = arrival_hops env iface (Hops u)" "length raw > 1"
proof -
  obtain u where u: "Unpack (NewPacketFromRaw raw) = (u, None)" "p = u\<lparr>packet_transport := True, Hops := arrival_hops env iface (Hops u)\<rparr>"
    using assms by (auto simp: accept_frame_def accept_packet_def split: prod.splits option.splits if_splits)
  from u(1) have "Raw u = raw \<and> 0 \<le> Hops u \<and> Hops u < PathfinderM \<and> length raw > 1"
    by (cases rule: parsed_cases) (simp_all add: frame1_def frame2_def)
  with u show thesis by (intro that [of u]) (auto simp: arrival_hops_def Let_def)
qed

definition well_received :: "packet \<Rightarrow> bool" where
  "well_received p \<longleftrightarrow> (\<exists>u. Unpack (NewPacketFromRaw (Raw p)) = (u, None) \<and> p = u\<lparr>packet_transport := True, Hops := Hops p\<rparr>)
     \<and> 0 \<le> Hops p \<and> Hops p \<le> PathfinderM \<and> length (Raw p) > 1"

lemma accepted_received: "accept_frame env ts raw iface tc = (ts', InboundAccepted c p) \<Longrightarrow> well_received p"
  by (erule accepted_announce) (auto simp: well_received_def)

lemma received_signed:
  assumes "well_received p" and "ValidateAnnounce cs p \<noteq> None"
  shows "signed_announce cs (DestinationHash p) (Raw p)"
proof -
  obtain u where u: "Unpack (NewPacketFromRaw (Raw p)) = (u, None)" "p = u\<lparr>packet_transport := True, Hops := Hops p\<rparr>"
    using assms(1) by (auto simp: well_received_def)
  have "ValidateAnnounce cs u = ValidateAnnounce cs p" "DestinationHash u = DestinationHash p"
    by (subst u(2), simp add: ValidateAnnounce_cong) (subst u(2), simp)
  with u(1) assms(2) show ?thesis by (auto simp: signed_announce_def)
qed

lemma received_next_hop:
  assumes "well_received p" and "nextHopFromAnnounce p = Some nh"
  shows "length nh = dstLen"
proof -
  obtain u where u: "Unpack (NewPacketFromRaw (Raw p)) = (u, None)" "p = u\<lparr>packet_transport := True, Hops := Hops p\<rparr>"
    using assms(1) by (auto simp: well_received_def)
  have "TransportID p = TransportID u" "DestinationHash p = DestinationHash u"
    by (subst u(2), simp)+
  with parsed_transport_id [OF u(1)] assms(2) show ?thesis
    by (auto simp: nextHopFromAnnounce_def split: option.splits list.splits if_splits)
qed

section \<open>Preservation\<close>

definition blobs_ok :: "bytes list \<Rightarrow> bool" where
  "blobs_ok blobs \<longleftrightarrow> length blobs \<le> maxRandomBlobs \<and> distinct blobs \<and> (\<forall>b \<in> set blobs. length b = 10)"

lemma announce_blob_length: "announce_blob p = Some b \<Longrightarrow> length b = 10"
  by (auto simp: announce_blob_def Let_def length_go_slice split: if_splits)

lemma containsBlob_iff: "containsBlob blobs b \<longleftrightarrow> b \<in> set blobs"
  by (auto simp: containsBlob_def list_ex_iff)

lemma remember_blob_ok:
  assumes "blobs_ok blobs"
  shows "blobs_ok (remember_blob (announce_blob p) blobs)"
proof (cases "announce_blob p")
  case (Some b)
  define bl where "bl = blobs @ [b]"
  have "blobs_ok blobs" "b \<notin> set blobs \<Longrightarrow> distinct bl" "\<forall>x \<in> set bl. length x = 10"
    using assms announce_blob_length [OF Some] by (auto simp: blobs_ok_def bl_def)
  then show ?thesis
    unfolding remember_blob_def Some option.case Let_def containsBlob_iff bl_def [symmetric]
    by (auto simp: blobs_ok_def dest: in_set_dropD)
qed (use assms in \<open>simp add: remember_blob_def\<close>)

lemma valid_announce_blob:
  assumes "ValidateAnnounce cs p \<noteq> None"
  obtains b where "announce_blob p = Some b"
proof -
  have "length (Data p) \<ge> 84" using assms by (auto simp: ValidateAnnounce_def Let_def split: if_splits)
  then show thesis by (intro that) (simp add: announce_blob_def)
qed

lemma remember_blob_keeps:
  assumes "announce_blob p = Some b"
  shows "b \<in> set (remember_blob (announce_blob p) blobs)"
  using assms by (auto simp: remember_blob_def containsBlob_iff Let_def)

lemma received_blob:
  assumes "well_received p"
  obtains u where "Unpack (NewPacketFromRaw (Raw p)) = (u, None)" "announce_blob u = announce_blob p"
    "announceEmissionFromPacket u = announceEmissionFromPacket p"
proof -
  obtain u where u: "Unpack (NewPacketFromRaw (Raw p)) = (u, None)" "p = u\<lparr>packet_transport := True, Hops := Hops p\<rparr>"
    using assms by (auto simp: well_received_def)
  have "Data p = Data u" by (subst u(2)) simp
  then show thesis by (intro that [OF u(1)]) (simp_all add: announce_blob_def announceEmissionFromPacket_def)
qed

lemma announced_route_wf:
  assumes "well_received p" and "ValidateAnnounce cs p \<noteq> None" and "nextHopFromAnnounce p = Some nh" and "blobs_ok blobs"
    and "\<And>b. announce_blob p = Some b \<Longrightarrow> b \<in> set blobs"
  shows "route_wf cs (DestinationHash p) (announced_route env now p iface nh blobs)"
proof -
  obtain u where u: "Unpack (NewPacketFromRaw (Raw p)) = (u, None)" "announce_blob u = announce_blob p"
    by (rule received_blob [OF assms(1)])
  obtain b where "announce_blob p = Some b" by (rule valid_announce_blob [OF assms(2)])
  with u assms(5) have "\<exists>q b. Unpack (NewPacketFromRaw (Raw p)) = (q, None) \<and> announce_blob q = Some b \<and> b \<in> set blobs" by auto
  then show ?thesis
    using assms(1,4) received_signed [OF assms(1,2)] received_next_hop [OF assms(1,3)]
    by (simp add: route_wf_def announced_route_def well_received_def blobs_ok_def)
qed

lemma mark_tables:
  "table_ok (route_wf cs) (nd_pathTable nd) \<Longrightarrow> table_ok (route_wf cs) (nd_pathTable (markPathUnknownStateLocked d nd))"
  "table_ok (route_wf cs) (nd_pathTable nd) \<Longrightarrow> table_ok (route_wf cs) (nd_pathTable (markPathUnresponsiveLocked d nd))"
  "table_ok (route_wf cs) (nd_pathTable nd) \<Longrightarrow> table_ok (route_wf cs) (nd_pathTable (MarkPathResponsive d nd))"
  by (auto simp: markPathUnknownStateLocked_def markPathUnresponsiveLocked_def MarkPathResponsive_def
      split: option.split intro!: table_ok_update dest: table_ok_find) (auto simp: route_wf_def dest: table_ok_find)

lemma mark_other [simp]:
  "nd_announceTable (markPathUnknownStateLocked d nd) = nd_announceTable nd"
  "nd_announceQueues (markPathUnknownStateLocked d nd) = nd_announceQueues nd"
  "nd_ingress (markPathUnknownStateLocked d nd) = nd_ingress nd"
  "nd_known (markPathUnknownStateLocked d nd) = nd_known nd"
  "nd_ts (markPathUnknownStateLocked d nd) = nd_ts nd"
  "nd_pathRequests (markPathUnknownStateLocked d nd) = nd_pathRequests nd"
  "nd_announceRateTable (markPathUnknownStateLocked d nd) = nd_announceRateTable nd"
  "nd_interfaces (markPathUnknownStateLocked d nd) = nd_interfaces nd"
  "nd_destinationsMap (markPathUnknownStateLocked d nd) = nd_destinationsMap nd"
  by (simp_all add: markPathUnknownStateLocked_def split: option.split)

lemma learn_path_wf:
  assumes "node_wf cs nd" and "well_received p" and "ValidateAnnounce cs p \<noteq> None"
  shows "node_wf cs (fst (learn_path env now p iface nd))"
proof -
  have t: "table_ok (route_wf cs) (nd_pathTable nd)" using assms(1) by (simp add: node_wf_tables)
  have m: "table_ok (route_wf cs) (AList.update (DestinationHash p) (announced_route env now p iface nh blobs) xs)"
    if "table_ok (route_wf cs) xs" "nextHopFromAnnounce p = Some nh" "blobs_ok blobs"
      "\<And>b. announce_blob p = Some b \<Longrightarrow> b \<in> set blobs" for xs nh blobs
    by (rule table_ok_update [OF that(1) announced_route_wf [OF assms(2,3) that(2,3)]]) (rule that(4))
  have b: "blobs_ok (remember_blob (announce_blob p) (pe_RandomBlobs e))"
    if "map_of (nd_pathTable nd) (DestinationHash p) = Some e" for e
    using table_ok_find [OF t that] by (intro remember_blob_ok) (simp add: route_wf_def blobs_ok_def)
  have "blobs_ok (case announce_blob p of None \<Rightarrow> [] | Some b \<Rightarrow> [b])"
    using announce_blob_length by (auto simp: blobs_ok_def split: option.split)
  with assms(1) t show ?thesis
    using m b mark_tables(1) remember_blob_keeps [of p]
    by (auto simp: learn_path_def Let_def node_wf_tables split: option.split path_choice.split)
qed

lemma hear_rebroadcast_wf: "node_wf cs nd \<Longrightarrow> node_wf cs (hear_rebroadcast now p nd)"
  by (auto simp: hear_rebroadcast_def Let_def node_wf_tables split: option.split
      intro!: table_ok_delete table_ok_update dest: table_ok_find)
    (auto simp: announce_entry_wf_def dest: table_ok_find)

lemma queue_rebroadcast_wf:
  assumes "node_wf cs nd" and "well_received p" and "ValidateAnnounce cs p \<noteq> None"
  shows "node_wf cs (queue_rebroadcast env now rnd p iface nd)"
proof -
  have "announce_entry_wf cs (DestinationHash p) \<lparr>ae_PacketRaw = (if length (Raw p) > 1 then (Raw p)[1 := word_of_int (Hops p)] else Raw p),
      ae_SourceInterface = iface, ae_Hops = Hops p, ae_NextRebroadcastAt = t, ae_Retries = r, ae_LocalRebroadcasts = 0\<rparr>"
    if "r = 0 \<or> r = 1" for t r
    using that received_signed [OF assms(2,3)] assms(2) by (auto simp: announce_entry_wf_def well_received_def)
  with assms(1) show ?thesis
    by (auto simp: queue_rebroadcast_def Let_def node_wf_tables split: prod.split option.split intro!: table_ok_update)
qed

lemma record_sample_wf:
  assumes "\<And>bi. ingress_wf bi \<Longrightarrow> ingress_wf (f bi)" and "\<forall>i. ingress_wf (st i)"
  shows "\<forall>i. ingress_wf (record_sample f par i0 st i)"
  using assms by (auto simp: record_sample_def Let_def split: option.split)

lemma shouldHold_wf:
  assumes "node_wf cs nd"
  shows "node_wf cs (fst (shouldHoldAnnounce now p iface nd))"
proof -
  have "ingress_wf (fst (shouldIngressLimitAt now (nd_ingress nd iface)))"
    using assms ingress_step_wf [of "nd_ingress nd iface" undefined "IngressLimitOp now"] by (simp add: node_wf_tables)
  then show ?thesis
    using assms Hold_wf by (auto simp: shouldHoldAnnounce_def Let_def node_wf_tables split: prod.split)
qed

lemma handleAnnounce_wf:
  assumes "node_wf cs nd" and "well_received p"
  shows "node_wf cs (fst (handleAnnounce cs env io now rnd p iface nd))"
proof (cases "ValidateAnnounce cs p")
  case None
  with assms show ?thesis by (simp add: handleAnnounce_def)
next
  case (Some eff)
  define n1 where "n1 = nd\<lparr>nd_known := apply_effects io (seconds now) eff (nd_known nd)\<rparr>"
  define n2 where "n2 = n1\<lparr>nd_ingress := record_sample (receivedAnnounceAtSize now (int (length (Raw p)))) (parentInterface env) iface (nd_ingress n1)\<rparr>"
  have "ingress_wf (receivedAnnounceAtSize now k bi)" if "ingress_wf bi" for k bi
    using ingress_step_wf [OF that, of undefined "ReceivedAnnounceOp now k"] by simp
  then have w2: "node_wf cs n1" "node_wf cs n2"
    using assms(1) record_sample_wf by (simp_all add: n1_def n2_def node_wf_tables)
  define n3 where "n3 = fst (shouldHoldAnnounce now p iface n2)"
  define n4 where "n4 = fst (learn_path env now p iface (hear_rebroadcast now p n3))"
  define n5 where "n5 = (if map_of (nd_pathRequests n4) (DestinationHash p) \<noteq> None
      then n4\<lparr>nd_known := fst (usedDestinationDataLocked (seconds now) (DestinationHash p) (nd_known n4))\<rparr> else n4)"
  have w: "node_wf cs n3" unfolding n3_def by (rule shouldHold_wf [OF w2(2)])
  have w4: "node_wf cs n4"
    unfolding n4_def by (rule learn_path_wf [OF hear_rebroadcast_wf [OF w] assms(2)]) (simp add: Some)
  then have "node_wf cs n5" by (simp add: n5_def node_wf_tables)
  then have w5: "node_wf cs (queue_rebroadcast env now rnd p iface n5)"
    by (rule queue_rebroadcast_wf [OF _ assms(2)]) (simp add: Some)
  have "fst (handleAnnounce cs env io now rnd p iface nd) \<in> {n1, n3, n4, queue_rebroadcast env now rnd p iface n5}"
  proof -
    obtain b c where bc: "shouldHoldAnnounce now p iface n2 = (n3, b)" "learn_path env now p iface (hear_rebroadcast now p n3) = (n4, c)"
      unfolding n3_def n4_def by (metis prod.collapse)
    show ?thesis
      unfolding handleAnnounce_def Some option.case Let_def n1_def [symmetric] n2_def [symmetric] bc prod.case n5_def [symmetric]
      by (cases b; cases c) (simp_all add: bc n5_def)
  qed
  with w2 w w4 w5 show ?thesis by auto
qed

text \<open>The announce queues.\<close>

lemma refresh_queued_dests:
  "refresh_queued now d hops em raw q = Some q' \<Longrightarrow> map aq_destinationHash q' = map aq_destinationHash q"
  by (induction q arbitrary: q') (auto split: if_splits)

lemma refresh_queued_None: "refresh_queued now d hops em raw q = None \<Longrightarrow> d \<notin> set (map aq_destinationHash q)"
  by (induction q) (auto split: if_splits)

lemma queue_or_send_wf:
  assumes "queue_wf st"
  shows "queue_wf (fst (queue_or_send now rate d raw hops st))"
proof -
  have "length q' = length (aq_queue st)" if "refresh_queued now d hops em raw (aq_queue st) = Some q'" for em q'
    using arg_cong [OF refresh_queued_dests [OF that], of length] by simp
  then show ?thesis
    using assms refresh_queued_dests refresh_queued_None
    by (fastforce simp: queue_or_send_def Let_def queue_wf_def split: option.split)
qed

lemma process_queue_wf:
  assumes "queue_wf st"
  shows "queue_wf (fst (process_queue now rate st))"
proof -
  define q where "q = filter (\<lambda>e. now - aq_queuedAt e \<le> queuedAnnounceLife) (aq_queue st)"
  have q: "length q \<le> maxQueuedAnnounces" "distinct (map aq_destinationHash q)"
    using assms length_filter_le [of "\<lambda>e. now - aq_queuedAt e \<le> queuedAnnounceLife" "aq_queue st"]
    by (auto simp: q_def queue_wf_def distinct_map_filter simp del: length_filter_le)
  have d: "distinct (map aq_destinationHash (take i q @ drop (i + 1) q))" for i
    using q(2) set_take_disj_set_drop_if_distinct [of "map aq_destinationHash q" i "i + 1"]
      distinct_take [OF q(2), of i] distinct_drop [OF q(2), of "i + 1"]
    by (simp add: take_map drop_map)
  have "aq_queue (fst (process_queue now rate st)) = [] \<or>
      (\<exists>i. aq_queue (fst (process_queue now rate st)) = take i q @ drop (i + 1) q)"
    unfolding process_queue_def Let_def by (auto simp: q_def)
  then show ?thesis
  proof (elim disjE exE)
    fix i assume e: "aq_queue (fst (process_queue now rate st)) = take i q @ drop (i + 1) q"
    have "length (take i q @ drop (i + 1) q) \<le> length q" by simp
    with q(1) d [of i] show ?thesis unfolding queue_wf_def e by linarith
  qed (simp add: queue_wf_def)
qed

lemma queueState_wf: "node_wf cs nd \<Longrightarrow> queue_wf (announceQueueStateLocked i nd)"
  by (auto simp: announceQueueStateLocked_def node_wf_tables queue_wf_def split: option.split)

lemma queueOrSend_wf:
  assumes "node_wf cs nd"
  shows "node_wf cs (fst (queueOrSendAnnounceLocked env now i d raw hops nd))"
  using assms queue_or_send_wf [OF queueState_wf [OF assms]]
  by (auto simp: queueOrSendAnnounceLocked_def node_wf_tables case_prod_beta)

lemma processAnnounceQueue_wf:
  assumes "node_wf cs nd"
  shows "node_wf cs (fst (processAnnounceQueue env i now nd))"
  using assms process_queue_wf by (auto simp: processAnnounceQueue_def node_wf_tables case_prod_beta split: option.split)

lemma offer_announce_wf:
  "node_wf cs (fst acc) \<Longrightarrow> node_wf cs (fst (offer_announce env now d e l acc i))"
  using queueOrSend_wf [of cs "fst acc" env now i d "ae_PacketRaw e" "ae_Hops e"]
  by (cases acc) (auto simp: offer_announce_def split: announceTransmitDecision.split prod.split option.split)

lemma announce_tick_wf:
  assumes "node_wf cs (fst acc)" and "announce_entry_wf cs (fst de) (snd de)"
  shows "node_wf cs (fst (announce_tick env now rnd acc de))"
proof -
  obtain nd jobs d e where a: "acc = (nd, jobs)" "de = (d, e)" by (cases acc; cases de)
  define r where "r = foldl (offer_announce env now d e (nd_destinationsMap nd d \<noteq> None)) (nd, jobs) (nd_interfaces nd)"
  have "node_wf cs (fst (foldl (offer_announce env now d e l) acc0 is))" if "node_wf cs (fst acc0)" for l acc0 "is"
    using that by (induction "is" arbitrary: acc0) (simp_all add: offer_announce_wf)
  then have r: "node_wf cs (fst r)" using assms(1) a by (simp add: r_def)
  have del: "node_wf cs (n\<lparr>nd_announceTable := AList.delete d (nd_announceTable n)\<rparr>)" if "node_wf cs n" for n
    using that table_ok_delete by (auto simp: node_wf_tables)
  have upd: "node_wf cs (n\<lparr>nd_announceTable := AList.update d x (nd_announceTable n)\<rparr>)" if "node_wf cs n" "announce_entry_wf cs d x" for n x
    using that table_ok_update by (auto simp: node_wf_tables)
  have "announce_entry_wf cs d (e\<lparr>ae_Retries := ae_Retries e + 1, ae_NextRebroadcastAt := t\<rparr>)" if "\<not> ae_Retries e + 1 > 1" for t
    using assms(2) a that by (auto simp: announce_entry_wf_def)
  with r assms(1) a del upd show ?thesis
    unfolding announce_tick_def a prod.case Let_def r_def [symmetric]
    by (auto simp: case_prod_beta)
qed

lemma processAnnounceTable_wf:
  assumes "node_wf cs nd"
  shows "node_wf cs (fst (processAnnounceTable env now rnd nd))"
proof -
  have "node_wf cs (fst (foldl (announce_tick env now rnd) acc es))"
    if "node_wf cs (fst acc)" "\<forall>de \<in> set es. announce_entry_wf cs (fst de) (snd de)" for acc es
    using that by (induction es arbitrary: acc) (simp_all add: announce_tick_wf)
  moreover have "\<forall>de \<in> set (nd_announceTable nd). announce_entry_wf cs (fst de) (snd de)"
    using assms by (simp add: node_wf_def case_prod_beta)
  ultimately have "node_wf cs (fst (foldl (announce_tick env now rnd) (nd, []) (nd_announceTable nd)))" using assms by simp
  then show ?thesis by (simp add: processAnnounceTable_def case_prod_beta)
qed

lemma runInterfaceJob_wf:
  assumes "node_wf cs nd"
  shows "node_wf cs (fst (runInterfaceJob order now i nd))"
proof -
  have "ingress_wf (fst (shouldIngressLimitAt now (nd_ingress nd i)))"
    using assms ingress_step_wf [of "nd_ingress nd i" undefined "IngressLimitOp now"] by (simp add: node_wf_tables)
  then have "ingress_wf (fst (shouldIngressLimitPrAt now (fst (shouldIngressLimitAt now (nd_ingress nd i)))))"
    using ingress_step_wf [of _ undefined "IngressLimitPrOp now"] by simp
  from ingress_step_wf [OF this, of order "ProcessOp now"] assms show ?thesis
    by (auto simp: runInterfaceJob_def Let_def case_prod_beta node_wf_tables)
qed

lemma same_routes_wf: "same_routes nd nd' \<Longrightarrow> node_wf cs nd \<Longrightarrow> node_wf cs nd'"
  by (simp add: same_routes_def node_wf_tables)

lemma process_announce_wf:
  assumes "node_wf cs nd" and "well_received p"
  shows "node_wf cs (fst (process_announce cs env aio now rnd p iface nd))"
  using process_announce_state [of cs env aio now rnd p iface nd] handleAnnounce_wf [OF assms, of env "an_persist aio" now rnd iface]
  by (auto simp: node_wf_tables)

lemma receive_frame_wf:
  assumes "node_wf cs nd"
  shows "node_wf cs (fst (receive_frame cs env aio now rnd raw iface nd))"
proof -
  have w: "node_wf cs (nd\<lparr>nd_ts := ts\<rparr>)" for ts using assms by (simp add: node_wf_tables)
  then show ?thesis
    using process_announce_wf accepted_received same_routes_wf [OF process_path_request_routes]
    by (auto simp: receive_frame_def process_inbound_def split: prod.split inbound_outcome.split)
qed

lemma node_step_wf:
  assumes "node_wf cs nd"
  shows "node_wf cs (fst (node_step cs env order ev nd))"
proof (cases ev)
  case (FrameEvent now rnd aio raw iface)
  then show ?thesis using receive_frame_wf [OF assms] by simp
next
  case (AnnounceTickEvent now rnd)
  then show ?thesis using processAnnounceTable_wf [OF assms] by simp
next
  case (QueueTimerEvent iface now)
  then show ?thesis using processAnnounceQueue_wf [OF assms] by simp
next
  case (InterfaceJobEvent now iface)
  then show ?thesis using runInterfaceJob_wf [OF assms] by simp
next
  case (UnresponsiveEvent d)
  then show ?thesis using assms mark_tables(2)
    by (auto simp: node_wf_tables markPathUnresponsiveLocked_def split: option.splits)
next
  case (ResponsiveEvent d)
  then show ?thesis using assms mark_tables(3)
    by (auto simp: node_wf_tables MarkPathResponsive_def split: option.splits)
qed (use assms in \<open>auto simp: node_wf_tables cullExpiredPaths_def expirePathLocked_def InvalidatePath_def drop_paths_def
  InvalidatePathsViaInterface_def InvalidatePathsViaNextHop_def cullPathRequests_def
  cullDiscoveryPRTagsLocked_def Let_def intro!: table_ok_filter table_ok_delete\<close>)

definition node_run ::
  "curves \<Rightarrow> node_env \<Rightarrow> ((bytes \<times> held_announce) list \<Rightarrow> (bytes \<times> held_announce) list) \<Rightarrow> transport_event list \<Rightarrow> node \<Rightarrow> node" where
  "node_run cs env order evs nd = foldl (\<lambda>nd ev. fst (node_step cs env order ev nd)) nd evs"


section \<open>Emission times\<close>

lemma blob_emission:
  assumes "announce_blob p = Some b"
  shows "randomBlobTimebase b = announceEmissionFromPacket p"
  using assms
  by (auto simp: announce_blob_def announceEmissionFromPacket_def randomBlobTimebase_def go_slice_def Let_def
      take_drop min_def split: if_splits)

lemma timebase_ge:
  assumes "b \<in> set blobs" and "length b = 10" and "plausibleAnnounceTimebase (randomBlobTimebase b) now"
  shows "randomBlobTimebase b \<le> timebaseFromRandomBlobs now blobs"
proof -
  define f where "f = (\<lambda>timebase b. if length (b :: bytes) < 10 then timebase
       else
         let emitted = randomBlobTimebase b in
         if \<not> plausibleAnnounceTimebase emitted now then timebase
         else if emitted > timebase then emitted else timebase)"
  have mono: "t \<le> foldl f t bs" for t bs
  proof (induction bs arbitrary: t)
    case (Cons x bs)
    have "t \<le> f t x" by (simp add: f_def Let_def)
    with Cons.IH [of "f t x"] show ?case by simp
  qed simp
  have "randomBlobTimebase b \<le> foldl f t blobs" for t
    using assms(1)
  proof (induction blobs arbitrary: t)
    case (Cons x xs)
    show ?case
    proof (cases "b = x")
      case True
      have "randomBlobTimebase b \<le> f t b" using assms(2,3) by (simp add: f_def Let_def)
      with True mono [of "f t x" xs] show ?thesis by simp
    qed (use Cons in simp)
  qed simp
  then show ?thesis by (simp add: timebaseFromRandomBlobs_def f_def)
qed

definition path_emission :: "route \<Rightarrow> nat" where
  "path_emission e = announceEmissionFromRaw (pe_Packet e)"

lemma timebase_path_emission:
  assumes "route_wf cs dest e" and "plausibleAnnounceTimebase (path_emission e) now"
  shows "path_emission e \<le> timebaseFromRandomBlobs now (pe_RandomBlobs e)"
proof -
  obtain p b where p: "Unpack (NewPacketFromRaw (pe_Packet e)) = (p, None)" "announce_blob p = Some b" "b \<in> set (pe_RandomBlobs e)"
    using assms(1) by (auto simp: route_wf_def)
  have "path_emission e = randomBlobTimebase b"
    using p(1) blob_emission [OF p(2)] by (simp add: path_emission_def announceEmissionFromRaw_def)
  with timebase_ge [OF p(3) announce_blob_length [OF p(2)]] assms(2) show ?thesis by simp
qed

lemma verdict_emission:
  assumes "path_verdict env now p iface blob e = ReplacePath m" and "now < pe_Expires e"
  shows "timebaseFromRandomBlobs now (pe_RandomBlobs e) \<le> announceEmissionFromPacket p"
  using assms by (auto simp: path_verdict_def Let_def split: if_splits option.splits)

lemma mark_lookup:
  assumes "map_of (nd_pathTable (markPathUnknownStateLocked d nd)) k = Some e"
  obtains e0 where "map_of (nd_pathTable nd) k = Some e0" "pe_Packet e = pe_Packet e0"
  using assms by (auto simp: markPathUnknownStateLocked_def update_conv' split: option.splits if_splits)

lemma learn_path_emission:
  assumes "node_wf cs nd" and "well_received p" and "map_of (nd_pathTable nd) dest = Some e" and "now < pe_Expires e"
    and "plausibleAnnounceTimebase (path_emission e) now"
    and "map_of (nd_pathTable (fst (learn_path env now p iface nd))) dest = Some e'"
  shows "path_emission e \<le> path_emission e'"
proof -
  have w: "route_wf cs dest e" using assms(1,3) table_ok_find by (fastforce simp: node_wf_tables)
  obtain u where u: "Unpack (NewPacketFromRaw (Raw p)) = (u, None)" "announceEmissionFromPacket u = announceEmissionFromPacket p"
    by (rule received_blob [OF assms(2)])
  then have em: "path_emission (announced_route env now p iface nh blobs) = announceEmissionFromPacket p" for nh blobs
    by (simp add: path_emission_def announced_route_def announceEmissionFromRaw_def)
  show ?thesis
  proof (cases "DestinationHash p = dest")
    case False
    then have "map_of (nd_pathTable (fst (learn_path env now p iface nd))) dest = map_of (nd_pathTable nd) dest"
      by (auto simp: learn_path_def Let_def markPathUnknownStateLocked_def update_conv' split: option.split path_choice.split)
    with assms(3,6) show ?thesis by simp
  next
    case True
    show ?thesis
    proof (cases "path_verdict env now p iface (announce_blob p) e")
      case KeepPath
      with True assms(3,6) show ?thesis by (simp add: learn_path_def)
    next
      case (ReplacePath m)
      have "path_emission e \<le> announceEmissionFromPacket p"
        using timebase_path_emission [OF w assms(5)] verdict_emission [OF ReplacePath assms(4)] by simp
      moreover have "pe_Packet e' = pe_Packet e \<or> path_emission e' = announceEmissionFromPacket p"
        using ReplacePath True assms(3,6) em
        by (cases m; cases "nextHopFromAnnounce p")
          (auto simp: learn_path_def Let_def markPathUnknownStateLocked_def update_conv')
      ultimately show ?thesis by (auto simp: path_emission_def)
    qed
  qed
qed

text \<open>The announce handler reaches the path table only through \<open>learn_path\<close>.\<close>

lemma learn_path_cong:
  assumes "nd_pathTable m = nd_pathTable nd"
  shows "nd_pathTable (fst (learn_path env now p iface m)) = nd_pathTable (fst (learn_path env now p iface nd))"
    and "snd (learn_path env now p iface m) = snd (learn_path env now p iface nd)"
  using assms
  by (auto simp: learn_path_def Let_def markPathUnknownStateLocked_def split: option.split path_choice.split)

lemma handler_paths [simp]:
  "nd_pathTable (hear_rebroadcast now p nd) = nd_pathTable nd"
  "nd_pathTable (fst (shouldHoldAnnounce now p iface nd)) = nd_pathTable nd"
  "nd_pathTable (queue_rebroadcast env now rnd p iface nd) = nd_pathTable nd"
  by (auto simp: hear_rebroadcast_def shouldHoldAnnounce_def queue_rebroadcast_def Let_def split: option.split prod.split)

definition heard :: "curves \<Rightarrow> node_env \<Rightarrow> bool \<Rightarrow> int \<Rightarrow> announce_effect list \<Rightarrow> packet \<Rightarrow> nat \<Rightarrow> node \<Rightarrow> node" where
  "heard cs env io now eff p iface nd =
     (let n1 = nd\<lparr>nd_known := apply_effects io (seconds now) eff (nd_known nd)\<rparr>
      in n1\<lparr>nd_ingress := record_sample (receivedAnnounceAtSize now (int (length (Raw p)))) (parentInterface env) iface (nd_ingress n1)\<rparr>)"

lemma handleAnnounce_paths:
  assumes "ValidateAnnounce cs p = Some eff" and "nd_destinationsMap nd (DestinationHash p) = None"
    and hold: "hold = snd (shouldHoldAnnounce now p iface (heard cs env io now eff p iface nd))"
  shows "nd_pathTable (fst (handleAnnounce cs env io now rnd p iface nd)) =
     (if hold then nd_pathTable nd else nd_pathTable (fst (learn_path env now p iface nd)))"
    and "hold \<or> \<not> snd (learn_path env now p iface nd) \<Longrightarrow> snd (handleAnnounce cs env io now rnd p iface nd) = []"
proof -
  define n2 where "n2 = heard cs env io now eff p iface nd"
  obtain n3 b where b: "shouldHoldAnnounce now p iface n2 = (n3, b)" by (cases "shouldHoldAnnounce now p iface n2")
  have "nd_pathTable n2 = nd_pathTable nd" by (simp add: n2_def heard_def Let_def)
  then have n3: "nd_pathTable n3 = nd_pathTable nd" using handler_paths(2) [of now p iface n2] b by simp
  obtain n4 c where c: "learn_path env now p iface (hear_rebroadcast now p n3) = (n4, c)"
    by (cases "learn_path env now p iface (hear_rebroadcast now p n3)")
  have n4: "nd_pathTable n4 = nd_pathTable (fst (learn_path env now p iface nd))" "c = snd (learn_path env now p iface nd)"
    using learn_path_cong [of "hear_rebroadcast now p n3" nd env now p iface] n3 c by simp_all
  have h: "hold = b" using b by (simp add: hold n2_def)
  have d: "nd_destinationsMap (nd\<lparr>nd_known := x\<rparr>) (DestinationHash p) = None" for x using assms(2) by simp
  have "handleAnnounce cs env io now rnd p iface nd =
      (if b then (n3, []) else if \<not> c then (n4, [])
       else let n5 = (if map_of (nd_pathRequests n4) (DestinationHash p) \<noteq> None
                   then n4\<lparr>nd_known := fst (usedDestinationDataLocked (seconds now) (DestinationHash p) (nd_known n4))\<rparr> else n4);
                n6 = queue_rebroadcast env now rnd p iface n5
            in (n6, forwardAnnounceToLocalClients env p iface n6 @ call_announce_handlers now p n6))"
    using assms(1) d b c unfolding handleAnnounce_def n2_def heard_def
    by (cases b; cases c) (simp_all add: Let_def)
  with n3 n4 h show "nd_pathTable (fst (handleAnnounce cs env io now rnd p iface nd)) =
     (if hold then nd_pathTable nd else nd_pathTable (fst (learn_path env now p iface nd)))"
    and "hold \<or> \<not> snd (learn_path env now p iface nd) \<Longrightarrow> snd (handleAnnounce cs env io now rnd p iface nd) = []"
    by (auto simp: Let_def)
qed


section \<open>From an announce to forwarded packets\<close>

lemma not_held:
  assumes "map_of (nd_pathTable nd) (DestinationHash p) \<noteq> None \<or> map_of (nd_pathRequests nd) (DestinationHash p) \<noteq> None
      \<or> map_of (nd_pendingPathRequests nd) (DestinationHash p) \<noteq> None \<or> \<not> ingressControl (nd_ingress nd iface)"
  shows "\<not> snd (shouldHoldAnnounce now p iface (heard cs env io now eff p iface nd))"
proof -
  have c: "ingressControl (receivedAnnounceAtSize now k bi) = ingressControl bi" for k bi by (simp add: receivedAnnounceAtSize_def)
  have "ingressControl (nd_ingress (heard cs env io now eff p iface nd) iface) = ingressControl (nd_ingress nd iface)"
    by (auto simp: heard_def Let_def record_sample_def c split: option.split)
  with assms show ?thesis
    by (auto simp: shouldHoldAnnounce_def Let_def shouldIngressLimitAt_def) (auto simp: heard_def Let_def)
qed

lemma accept_frame_identity:
  assumes "accept_frame env ts raw iface tc = (ts', r)"
  shows "ts_identity ts' = ts_identity ts"
  using accept_frame_state [of env ts raw iface tc] assms
  by (auto simp: seenOrRememberPacketHashLocked_def ensureStateLocked_def Let_def split: if_splits)

lemma handleAnnounce_ts: "nd_ts (fst (handleAnnounce cs env io now rnd p iface nd)) = nd_ts nd"
proof -
  have l: "nd_ts (fst (learn_path env now p iface m)) = nd_ts m" for m
    by (auto simp: learn_path_def Let_def split: option.split path_choice.split)
  have "nd_ts (hear_rebroadcast now p m) = nd_ts m" "nd_ts (fst (shouldHoldAnnounce now p iface m)) = nd_ts m"
    "nd_ts (queue_rebroadcast env now rnd p iface m) = nd_ts m" for m
    by (auto simp: hear_rebroadcast_def shouldHoldAnnounce_def queue_rebroadcast_def Let_def split: option.split prod.split)
  note k = this l
  show ?thesis
    using k by (auto simp: handleAnnounce_def Let_def case_prod_beta split: option.split bool.split)
qed

lemma learn_new_path:
  assumes "map_of (nd_pathTable nd) (DestinationHash p) = None" and "well_received p"
  obtains e where "map_of (nd_pathTable (fst (learn_path env now p iface nd))) (DestinationHash p) = Some e"
    "pe_Hops e = Hops p" "pe_Interface e = Some iface" "snd (learn_path env now p iface nd)"
proof -
  obtain u where u: "Unpack (NewPacketFromRaw (Raw p)) = (u, None)" "p = u\<lparr>packet_transport := True, Hops := Hops p\<rparr>"
    using assms(2) by (auto simp: well_received_def)
  have "DestinationHash p = DestinationHash u" by (subst u(2)) simp
  with parsed_transport_id [OF u(1)] have "DestinationHash p \<noteq> []" by (auto simp: dstLen_def)
  then have "nextHopFromAnnounce p \<noteq> None" by (simp add: nextHopFromAnnounce_def split: option.split list.split)
  then obtain nh where "nextHopFromAnnounce p = Some nh" by blast
  with assms(1) show thesis
    by (intro that [of "announced_route env now p iface nh (case announce_blob p of None \<Rightarrow> [] | Some b \<Rightarrow> [b])"])
      (simp_all add: learn_path_def Let_def markPathUnknownStateLocked_def update_conv' announced_route_def)
qed


section \<open>Replayed announces\<close>

lemma parts_blob:
  assumes "announce_parts (Data p) f pk nh rh ratchet sig app"
  shows "announce_blob p = Some rh"
  using assms by (auto simp: announce_parts_def announce_blob_def Let_def go_slice_def)

lemma handleAnnounce_known:
  assumes "ValidateAnnounce cs p = Some eff" and "\<not> snd (learn_path env now p iface nd)"
  shows "nd_known (fst (handleAnnounce cs env io now rnd p iface nd)) = apply_effects io (seconds now) eff (nd_known nd)"
proof -
  have l: "nd_known (fst (learn_path env now p iface m)) = nd_known m" for m
    by (auto simp: learn_path_def Let_def split: option.split path_choice.split)
  have "nd_known (hear_rebroadcast now p m) = nd_known m" "nd_known (fst (shouldHoldAnnounce now p iface m)) = nd_known m" for m
    by (auto simp: hear_rebroadcast_def shouldHoldAnnounce_def Let_def split: option.split prod.split)
  note k = this l
  define n2 where "n2 = heard cs env io now eff p iface nd"
  have n2: "nd_known n2 = apply_effects io (seconds now) eff (nd_known nd)" "nd_pathTable n2 = nd_pathTable nd"
    by (simp_all add: n2_def heard_def Let_def)
  obtain n3 b where b: "shouldHoldAnnounce now p iface n2 = (n3, b)" by (cases "shouldHoldAnnounce now p iface n2")
  have n3: "nd_known n3 = nd_known n2" "nd_pathTable n3 = nd_pathTable nd"
    using k(2) [of n2] handler_paths(2) [of now p iface n2] b n2(2) by simp_all
  obtain n4 where c: "learn_path env now p iface (hear_rebroadcast now p n3) = (n4, False)"
    using learn_path_cong(2) [of "hear_rebroadcast now p n3" nd env now p iface] n3(2) assms(2)
    by (cases "learn_path env now p iface (hear_rebroadcast now p n3)") simp
  then have "nd_known n4 = nd_known n3" using k(1,3) by (metis fst_conv)
  then show ?thesis
    using assms(1) b c n2(1) n3(1) unfolding handleAnnounce_def n2_def heard_def
    by (cases b) (simp_all add: Let_def)
qed

text \<open>
  C21: A replayed announce is kept out of the path table but not out of the ratchet table: any old
  announce of a destination, signed once upon a time, leaves the path as it is and sets the key
  that packets to the destination are encrypted with back to the old ratchet.
\<close>

theorem replay_rolls_back_ratchet:
  assumes parts: "announce_parts (Data p) (ContextFlag p = FlagSet) pk nh rh ratchet sig app"
    and ann: "PacketType p = PacketAnnounce" "ContextFlag p = FlagSet" "DestinationHash p \<noteq> []"
      "announce_signed cs (DestinationHash p) pk nh rh ratchet sig app" "nd_destinationsMap nd (DestinationHash p) = None"
    and known: "map_of (nd_pathTable nd) (DestinationHash p) = Some e" "rh \<in> set (pe_RandomBlobs e)"
    and older: "announceEmissionFromPacket p < timebaseFromRandomBlobs now (pe_RandomBlobs e)"
  shows "nd_pathTable (fst (handleAnnounce cs env io now rnd p iface nd)) = nd_pathTable nd
     \<and> snd (handleAnnounce cs env io now rnd p iface nd) = []
     \<and> knownRatchets (nd_known (fst (handleAnnounce cs env io now rnd p iface nd))) (DestinationHash p) = Some ratchet"
proof -
  have eff: "ValidateAnnounce cs p = Some (announce_effects p pk ratchet app)"
    using ValidateAnnounce_parts [OF parts ann(1), of cs] ann(4) by simp
  have r: "ratchet \<noteq> []" using parts ann(2) by (auto simp: announce_parts_def)
  have "path_verdict env now p iface (announce_blob p) e = KeepPath"
    using older known(2) by (simp add: path_verdict_def parts_blob [OF parts] containsBlob_iff Let_def)
  then have l: "learn_path env now p iface nd = (nd, False)" using known(1) by (simp add: learn_path_def)
  have n: "knownRatchets (apply_effects io (seconds now) (announce_effects p pk ratchet app) (nd_known nd)) (DestinationHash p) = Some ratchet"
    using r ann(3) by (simp add: announce_effects_def apply_effects_def SetRatchet_known(1))
  show ?thesis
    using handleAnnounce_paths [OF eff ann(5) refl, where env = env and now = now and iface = iface and io = io and rnd = rnd] l n
      handleAnnounce_known [OF eff, where env = env and now = now and iface = iface and nd = nd and io = io and rnd = rnd]
    by simp
qed

section \<open>A concrete node\<close>

lemma announce_frame_accepted:
  assumes "Unpack (NewPacketFromRaw raw) = (u, None)" and "PacketType u = PacketAnnounce" and "DestinationType u = DestinationSingle"
    and "\<not> context_exempt u"
  obtains ts' where "accept_frame env ts raw iface noTrafficClass =
     (ts', InboundAccepted TCAnnounce (u\<lparr>packet_transport := True, Hops := arrival_hops env iface (Hops u)\<rparr>))"
proof -
  define p where "p = u\<lparr>packet_transport := True, Hops := arrival_hops env iface (Hops u)\<rparr>"
  have p: "PacketType p = PacketAnnounce" "DestinationType p = DestinationSingle" "\<not> context_exempt p"
    using assms(2-4) by (simp_all add: p_def context_exempt_def)
  then have "fst (packetFilter ts p)"
    by (auto simp: packetFilter_def Let_def packet_consts)
  then have "snd (accept_packet ts p noTrafficClass) = InboundAccepted TCAnnounce p"
    using p by (auto simp: accept_packet_def classify_def Let_def packet_consts split: prod.split)
  then obtain ts' where "accept_packet ts p noTrafficClass = (ts', InboundAccepted TCAnnounce p)"
    by (metis prod.collapse)
  with assms(1) show thesis by (intro that [of ts']) (simp add: accept_frame_def p_def)
qed

definition demo_dest :: bytes where
  "demo_dest = take dstLen (FullHash (replicate 10 2 @ TruncatedHash (replicate 64 1)))"

definition demo_sig :: "bytes \<Rightarrow> bytes \<Rightarrow> bytes" where
  "demo_sig rh ratchet = replicate 32 1 @ sha256 (demo_dest @ replicate 64 1 @ replicate 10 2 @ rh @ ratchet)"

definition demo_announce_data :: "bytes \<Rightarrow> bytes \<Rightarrow> bytes" where
  "demo_announce_data rh ratchet = replicate 64 1 @ replicate 10 2 @ rh @ ratchet @ demo_sig rh ratchet"

definition demo_announce_frame :: "bytes \<Rightarrow> bytes \<Rightarrow> bytes" where
  "demo_announce_frame rh ratchet = frame1 0x21 0 demo_dest 0 (demo_announce_data rh ratchet)"

definition demo_node_env :: node_env where
  "demo_node_env = iface_env.extend demo_env
     (node_env.fields (\<lambda>_. ModeFull) (\<lambda>_. 0) (\<lambda>_. True) (\<lambda>_. True) (\<lambda>_. False) (\<lambda>_. True) (\<lambda>_. None) (\<lambda>_. False) (\<lambda>_. None) (\<lambda>_. None))"

definition demo_router :: node where
  "demo_router = \<lparr>nd_ts = demo_ts, nd_known = demo_known, nd_pathTable = [], nd_announceTable = [], nd_announceRateTable = Map.empty,
     nd_announceQueues = Map.empty, nd_pathRequests = [(demo_dest, 0)], nd_inflightPathRequests = [], nd_pendingPathRequests = [],
     nd_discoveryPRTags = [], nd_discoveryPRTagsPrev = [], nd_interfaces = [1, 2], nd_ingress = \<lambda>_. NewBaseInterface 0,
     nd_destinationsMap = Map.empty, nd_announceHandlers = [], nd_ratchetFiles = demo_files\<rparr>"

definition demo_aio :: announce_io where
  "demo_aio = \<lparr>an_rand = \<lambda>n. Some (replicate n 7), an_key = \<lambda>n. Some (replicate n 8), an_swap = True, an_persist = True\<rparr>"

lemma length_demo: "length demo_dest = dstLen" "demo_dest \<noteq> []" "length (demo_sig rh r) = 64"
proof -
  show l: "length demo_dest = dstLen" by (simp add: demo_dest_def dstLen_def FullHash_def)
  then show "demo_dest \<noteq> []" by (auto simp: dstLen_def)
  show "length (demo_sig rh r) = 64" by (simp add: demo_sig_def)
qed

lemma demo_parts: "length rh = 10 \<Longrightarrow> length r = 32 \<Longrightarrow>
    announce_parts (demo_announce_data rh r) True (replicate 64 1) (replicate 10 2) rh r (demo_sig rh r) []"
  by (simp add: announce_parts_def demo_announce_data_def length_demo)

lemma demo_signed:
  "announce_signed demo_curves demo_dest (replicate 64 1) (replicate 10 2) rh r (demo_sig rh r) []"
  by (simp add: announce_signed_def demo_curves_def demo_sig_def demo_dest_def)

lemma demo_frame_parsed:
  obtains u where "Unpack (NewPacketFromRaw (demo_announce_frame rh r)) = (u, None)" "PacketType u = PacketAnnounce"
    "DestinationType u = DestinationSingle" "ContextFlag u = FlagSet" "\<not> context_exempt u" "DestinationHash u = demo_dest"
    "Data u = demo_announce_data rh r" "TransportID u = None" "Hops u = 0" "Raw u = demo_announce_frame rh r"
proof -
  have raw: "Raw (NewPacketFromRaw (demo_announce_frame rh r)) = 0x21 # 0 # demo_dest @ 0 # demo_announce_data rh r"
    by (simp add: NewPacketFromRaw_def demo_announce_frame_def frame1_def)
  show thesis
    by (rule that, rule Unpack_layout1 [OF raw])
      (simp_all add: length_demo packet_consts context_exempt_def NewPacketFromRaw_def empty_packet_def demo_announce_frame_def)
qed

lemma demo_frame_accepted:
  assumes "length rh = 10" and "length r = 32"
  obtains ts' p where "accept_frame (iface_env.truncate demo_node_env) ts (demo_announce_frame rh r) 1 noTrafficClass
      = (ts', InboundAccepted TCAnnounce p)" "PacketType p = PacketAnnounce" "DestinationHash p = demo_dest" "ContextFlag p = FlagSet"
    "Data p = demo_announce_data rh r" "TransportID p = None" "Hops p = 1" "Raw p = demo_announce_frame rh r"
    "ValidateAnnounce demo_curves p = Some (announce_effects p (replicate 64 1) r [])"
proof -
  obtain u where u: "Unpack (NewPacketFromRaw (demo_announce_frame rh r)) = (u, None)" "PacketType u = PacketAnnounce"
    "DestinationType u = DestinationSingle" "ContextFlag u = FlagSet" "\<not> context_exempt u" "DestinationHash u = demo_dest"
    "Data u = demo_announce_data rh r" "TransportID u = None" "Hops u = 0" "Raw u = demo_announce_frame rh r"
    by (rule demo_frame_parsed)
  obtain ts' where acc: "accept_frame (iface_env.truncate demo_node_env) ts (demo_announce_frame rh r) 1 noTrafficClass
      = (ts', InboundAccepted TCAnnounce (u\<lparr>packet_transport := True, Hops := arrival_hops (iface_env.truncate demo_node_env) 1 (Hops u)\<rparr>))"
    by (rule announce_frame_accepted [OF u(1-3,5)])
  define p where "p = u\<lparr>packet_transport := True, Hops := arrival_hops (iface_env.truncate demo_node_env) 1 (Hops u)\<rparr>"
  have p: "PacketType p = PacketAnnounce" "DestinationHash p = demo_dest" "ContextFlag p = FlagSet"
    "Data p = demo_announce_data rh r" "TransportID p = None" "Raw p = demo_announce_frame rh r" "Hops p = 1"
    using u by (simp_all add: p_def arrival_hops_def demo_node_env_def iface_env.defs node_env.defs demo_env_def)
  have "ValidateAnnounce demo_curves p = Some (announce_effects p (replicate 64 1) r [])"
    using ValidateAnnounce_parts [of p "replicate 64 1" "replicate 10 2" rh r "demo_sig rh r" "[]" demo_curves] p
      demo_parts [OF assms] demo_signed by simp
  with p acc show thesis by (intro that [of ts' p]) (simp_all add: p_def)
qed



text \<open>A newer announce takes over the path of an older one.\<close>

definition demo_blob :: "byte \<Rightarrow> bytes" where
  "demo_blob t = [9, 9, 9, 9, 9, 0, 0, 0, 0, t]"

definition demo_route :: route where
  "demo_route = \<lparr>pe_NextHop = demo_dest, pe_Hops = 1, pe_Interface = Some 1, pe_Timestamp = 0, pe_Expires = 10 ^ 12,
     pe_RandomBlobs = [demo_blob 1, demo_blob 2], pe_Packet = demo_announce_frame (demo_blob 2) (replicate 32 4), pe_PacketHash = [],
     pe_Unresponsive = False, pe_ResponsiveState = 0\<rparr>"

definition demo_known_route :: node where
  "demo_known_route = demo_router\<lparr>nd_pathTable := [(demo_dest, demo_route)]\<rparr>"

lemma length_demo_blob [simp]: "length (demo_blob t) = 10" by (simp add: demo_blob_def)

lemma demo_blob_timebase: "randomBlobTimebase (demo_blob t) = unat t"
  by (simp add: randomBlobTimebase_def demo_blob_def go_slice_def be_dec_def)

lemma demo_emission:
  assumes "Data p = demo_announce_data (demo_blob t) (replicate 32 4)"
  shows "announce_blob p = Some (demo_blob t)" "announceEmissionFromPacket p = unat t"
proof -
  show b: "announce_blob p = Some (demo_blob t)"
    using parts_blob [of p True] demo_parts [of "demo_blob t" "replicate 32 4"] assms by simp
  show "announceEmissionFromPacket p = unat t" using blob_emission [OF b] by (simp add: demo_blob_timebase)
qed

lemma demo_route_wf: "route_wf demo_curves demo_dest demo_route" "path_emission demo_route = 2"
proof -
  obtain u where u: "Unpack (NewPacketFromRaw (demo_announce_frame (demo_blob 2) (replicate 32 4))) = (u, None)" "PacketType u = PacketAnnounce"
    "ContextFlag u = FlagSet" "DestinationHash u = demo_dest" "Data u = demo_announce_data (demo_blob 2) (replicate 32 4)"
    by (rule demo_frame_parsed)
  have "ValidateAnnounce demo_curves u \<noteq> None"
    using ValidateAnnounce_parts [of u "replicate 64 1" "replicate 10 2" "demo_blob 2" "replicate 32 4" "demo_sig (demo_blob 2) (replicate 32 4)" "[]"
        demo_curves] u demo_parts [of "demo_blob 2" "replicate 32 4"] demo_signed by simp
  moreover have "demo_blob 1 \<noteq> demo_blob 2" by (simp add: demo_blob_def)
  ultimately show "route_wf demo_curves demo_dest demo_route"
    using u(1,4) demo_emission(1) [OF u(5)]
    by (auto simp: route_wf_def demo_route_def signed_announce_def length_demo packet_consts)
  show "path_emission demo_route = 2"
    using u(1) demo_emission(2) [OF u(5)] by (simp add: path_emission_def demo_route_def announceEmissionFromRaw_def)
qed

lemma demo_timebase: "timebaseFromRandomBlobs 0 [demo_blob 1, demo_blob 2] = 2"
  by (simp add: timebaseFromRandomBlobs_def demo_blob_timebase plausibleAnnounceTimebase_def)

lemma demo_newer_learned:
  "\<exists>e'. map_of (nd_pathTable (fst (receive_frame demo_curves demo_node_env demo_aio 0 None
      (demo_announce_frame (demo_blob 3) (replicate 32 4)) 1 demo_known_route))) demo_dest = Some e' \<and> path_emission e' = 3"
proof -
  obtain ts' p where p: "accept_frame (iface_env.truncate demo_node_env) (node_transport demo_known_route)
      (demo_announce_frame (demo_blob 3) (replicate 32 4)) 1 noTrafficClass = (ts', InboundAccepted TCAnnounce p)"
    "PacketType p = PacketAnnounce" "DestinationHash p = demo_dest" "Data p = demo_announce_data (demo_blob 3) (replicate 32 4)"
    "TransportID p = None" "Hops p = 1" "ValidateAnnounce demo_curves p = Some (announce_effects p (replicate 64 1) (replicate 32 4) [])"
    by (rule demo_frame_accepted [of "demo_blob 3" "replicate 32 4" "node_transport demo_known_route"]) simp_all
  define m where "m = demo_known_route\<lparr>nd_ts := ts'\<rparr>"
  have "demo_blob 3 \<noteq> demo_blob 1" "demo_blob 3 \<noteq> demo_blob 2" by (simp_all add: demo_blob_def)
  then have v: "path_verdict demo_node_env 0 p 1 (Some (demo_blob 3)) demo_route = ReplacePath True"
    using p(6) demo_emission [OF p(4)]
    by (simp add: path_verdict_def demo_route_def demo_timebase containsBlob_iff Let_def)
  have lookup: "map_of (nd_pathTable m) demo_dest = Some demo_route" by (simp add: m_def demo_known_route_def)
  obtain blobs where l: "map_of (nd_pathTable (fst (learn_path demo_node_env 0 p 1 m))) demo_dest
      = Some (announced_route demo_node_env 0 p 1 demo_dest blobs)"
    using v lookup p(3,5) demo_emission(1) [OF p(4)] length_demo(2)
    by (simp add: learn_path_def nextHopFromAnnounce_def update_conv' Let_def)
  have "\<not> snd (shouldHoldAnnounce 0 p 1 (heard demo_curves demo_node_env True 0 (announce_effects p (replicate 64 1) (replicate 32 4) []) p 1 m))"
    by (rule not_held) (simp add: lookup p(3))
  moreover have "nd_destinationsMap m (DestinationHash p) = None" by (simp add: m_def demo_known_route_def demo_router_def)
  ultimately have t: "nd_pathTable (fst (handleAnnounce demo_curves demo_node_env True 0 None p 1 m)) = nd_pathTable (fst (learn_path demo_node_env 0 p 1 m))"
    using handleAnnounce_paths(1) [OF p(7) _ refl] by simp
  obtain u where "Unpack (NewPacketFromRaw (Raw p)) = (u, None)" "announceEmissionFromPacket u = announceEmissionFromPacket p"
    by (rule received_blob [OF accepted_received [OF p(1)]])
  then have "path_emission (announced_route demo_node_env 0 p 1 demo_dest blobs) = 3"
    using demo_emission(2) [OF p(4)] by (simp add: path_emission_def announced_route_def announceEmissionFromRaw_def)
  with l t p(1-3) process_announce_state [of demo_curves demo_node_env demo_aio 0 None p 1 m] show ?thesis
    by (auto simp: receive_frame_def process_inbound_def isPathRequestPacket_def packet_consts m_def demo_aio_def demo_known_route_def demo_router_def)
qed


theorem replay_rolls_back_ratchet_witness:
  "\<exists>p. knownRatchets (nd_known (fst (handleAnnounce demo_curves demo_node_env True 0 None p 1 demo_known_route))) demo_dest = Some (replicate 32 5)
     \<and> nd_pathTable (fst (handleAnnounce demo_curves demo_node_env True 0 None p 1 demo_known_route)) = [(demo_dest, demo_route)]"
proof -
  define p where "p = empty_packet\<lparr>PacketType := PacketAnnounce, ContextFlag := FlagSet, DestinationHash := demo_dest,
    Data := demo_announce_data (demo_blob 1) (replicate 32 5)\<rparr>"
  have d: "announce_parts (Data p) (ContextFlag p = FlagSet) (replicate 64 1) (replicate 10 2) (demo_blob 1) (replicate 32 5)
      (demo_sig (demo_blob 1) (replicate 32 5)) []"
    using demo_parts [of "demo_blob 1" "replicate 32 5"] by (simp add: p_def)
  have "announceEmissionFromPacket p = 1"
    using blob_emission [OF parts_blob [OF d]] by (simp add: demo_blob_timebase)
  then show ?thesis
    using replay_rolls_back_ratchet [OF d, of demo_curves demo_known_route demo_route 0 demo_node_env True None 1]
      demo_signed [of "demo_blob 1" "replicate 32 5"] length_demo(2) demo_timebase
    by (intro exI [of _ p]) (simp add: p_def demo_known_route_def demo_router_def demo_route_def)
qed

end
