(* ===== verification/Discovery.thy ===== *)
theory Discovery
  imports Routes
begin

text \<open>
  Path discovery between nodes: a request answered from a known path gives the node that asked a path
  through the node that answered, and two ways in which a response never gets to a node that asked.
\<close>

section \<open>Answers from a known path\<close>

text \<open>What the parser reads depends on the bytes only.\<close>

lemma Unpack_bare:
  assumes "Unpack (NewPacketFromRaw raw) = (u, None)"
  obtains c where "Unpack (empty_packet\<lparr>Raw := raw\<rparr>) = (c, None)" "DestinationHash c = DestinationHash u"
    "ContextFlag c = ContextFlag u" "DestinationType c = DestinationType u" "Data c = Data u"
  using assms
proof (cases rule: parsed_cases)
  case (h1 f h dst c data)
  from Unpack_layout1 [of "empty_packet\<lparr>Raw := raw\<rparr>" f h dst c data] h1 show thesis
    by (intro that) (auto simp: frame1_def header_bit_def records_frame_def)
next
  case (h2 f h tid dst c data)
  from Unpack_layout2 [of "empty_packet\<lparr>Raw := raw\<rparr>" f h tid dst c data] h2 show thesis
    by (intro that) (auto simp: frame2_def header_bit_def records_frame_def)
qed

lemma parsed_flags:
  assumes "Unpack (NewPacketFromRaw raw) = (u, None)"
  shows "ContextFlag u \<in> {0, 1}" "DestinationType u \<in> {0, 1, 2, 3}"
proof -
  have r: "records_frame u f dst c data \<Longrightarrow> ContextFlag u \<in> {0, 1} \<and> DestinationType u \<in> {0, 1, 2, 3}" for f dst c data
    using flag_facts(6) [of f] byte_table [OF flags_low_table, of f] by (simp add: records_frame_def Let_def)
  from assms show "ContextFlag u \<in> {0, 1}" "DestinationType u \<in> {0, 1, 2, 3}"
    by (cases rule: parsed_cases; use r in blast)+
qed

text \<open>The announce check reads type, context flag, destination and data.\<close>

lemma ValidateAnnounce_fields:
  assumes "PacketType q = PacketType p" "ContextFlag q = ContextFlag p" "DestinationHash q = DestinationHash p" "Data q = Data p"
  shows "ValidateAnnounce cs q = None \<longleftrightarrow> ValidateAnnounce cs p = None"
  unfolding ValidateAnnounce_def assms Let_def by (auto split: prod.split option.split sum.split)

lemma cached_response_parsed:
  assumes "length ident = dstLen" "length dest = dstLen" "0 \<le> hops" "hops < PathfinderM"
    "ContextFlag c \<in> {0, 1}" "DestinationType c \<in> {0, 1, 2, 3}"
  obtains v where "Unpack (NewPacketFromRaw (cached_response ident dest hops c)) = (v, None)" "PacketType v = PacketAnnounce"
    "Context v = ContextPathResponse" "ContextFlag v = ContextFlag c" "DestinationType v = DestinationType c" "DestinationHash v = dest"
    "Data v = Data c" "TransportID v = Some ident" "Hops v = hops"
proof -
  define f where "f = flag_byte 1 (ContextFlag c) 1 (DestinationType c) PacketAnnounce"
  have "(1::int) \<in> {0, 1}" "PacketAnnounce \<in> {0, 1, 2, 3}" by simp_all
  note f = flag_byte_fields [OF this(1) assms(5) this(1) assms(6) this(2), folded f_def]
  have h: "uint (word_of_int hops :: byte) = hops" using assms(3,4) by (intro uint_byte_of_int) (auto simp: PathfinderM_def)
  have raw: "Raw (NewPacketFromRaw (cached_response ident dest hops c))
      = f # word_of_int hops # ident @ dest @ word_of_int ContextPathResponse # Data c"
    by (simp add: NewPacketFromRaw_def cached_response_def f_def flag_byte_def)
  show thesis
    by (rule that, rule Unpack_layout2 [OF raw assms(1,2)]) (use f h assms(4) in \<open>simp_all add: NewPacketFromRaw_def\<close>)
qed

lemma learn_first_path:
  assumes "map_of (nd_pathTable nd) (DestinationHash p) = None" and "nextHopFromAnnounce p = Some nh"
  obtains e where "map_of (nd_pathTable (fst (learn_path env now p iface nd))) (DestinationHash p) = Some e"
    "pe_Hops e = Hops p" "pe_Interface e = Some iface" "pe_NextHop e = nh"
  using assms
  by (intro that [of "announced_route env now p iface nh (case announce_blob p of None \<Rightarrow> [] | Some b \<Rightarrow> [b])"])
    (simp_all add: learn_path_def Let_def markPathUnknownStateLocked_def update_conv' announced_route_def)

text \<open>A node that asked takes the path from any announce of an unknown destination.\<close>

lemma asked_path_learned:
  assumes v: "Unpack (NewPacketFromRaw frame) = (v, None)" "PacketType v = PacketAnnounce" "DestinationType v = DestinationSingle"
      "\<not> context_exempt v" "TransportID v = Some ident" "ident \<noteq> []" "ValidateAnnounce cs v \<noteq> None"
    and rq: "map_of (nd_pathTable rq) (DestinationHash v) = None" "nd_destinationsMap rq (DestinationHash v) = None"
      "map_of (nd_pathRequests rq) (DestinationHash v) \<noteq> None"
  shows "\<exists>e. map_of (nd_pathTable (fst (receive_frame cs env aio now rnd frame j rq))) (DestinationHash v) = Some e
     \<and> pe_NextHop e = ident \<and> pe_Interface e = Some j \<and> pe_Hops e = arrival_hops (iface_env.truncate env) j (Hops v)"
proof -
  define q where "q = v\<lparr>packet_transport := True, Hops := arrival_hops (iface_env.truncate env) j (Hops v)\<rparr>"
  obtain ts where acc: "accept_frame (iface_env.truncate env) (node_transport rq) frame j noTrafficClass = (ts, InboundAccepted TCAnnounce q)"
    unfolding q_def by (rule announce_frame_accepted [OF v(1-4)])
  define m where "m = rq\<lparr>nd_ts := ts\<rparr>"
  have q: "PacketType q = PacketAnnounce" "DestinationHash q = DestinationHash v" "TransportID q = Some ident"
    "Hops q = arrival_hops (iface_env.truncate env) j (Hops v)"
    using v by (simp_all add: q_def)
  obtain eff where eff: "ValidateAnnounce cs q = Some eff" using v(7) by (auto simp: q_def ValidateAnnounce_cong)
  have nh: "nextHopFromAnnounce q = Some ident" using q(3) v(6) by (cases ident) (simp_all add: nextHopFromAnnounce_def)
  obtain e where e: "map_of (nd_pathTable (fst (learn_path env now q j m))) (DestinationHash q) = Some e"
    "pe_Hops e = Hops q" "pe_Interface e = Some j" "pe_NextHop e = ident"
    by (rule learn_first_path [OF _ nh, of m env now j]) (use rq(1) q(2) in \<open>auto simp: m_def\<close>)
  have "\<not> snd (shouldHoldAnnounce now q j (heard cs env (an_persist aio) now eff q j m))"
    using rq(3) q(2) by (intro not_held) (simp add: m_def)
  with handleAnnounce_paths(1) [OF eff _ refl, of m env "an_persist aio" now rnd j] rq(2) q(2)
  have "nd_pathTable (fst (handleAnnounce cs env (an_persist aio) now rnd q j m)) = nd_pathTable (fst (learn_path env now q j m))"
    by (simp add: m_def)
  with process_announce_state [of cs env aio now rnd q j m]
  have "nd_pathTable (fst (receive_frame cs env aio now rnd frame j rq)) = nd_pathTable (fst (learn_path env now q j m))"
    using acc q rq(2) by (auto simp: receive_frame_def process_inbound_def isPathRequestPacket_def packet_consts m_def)
  with e q show ?thesis by auto
qed

lemma cached_answer:
  assumes ident: "ts_identity (nd_ts nd) = Some ident" "\<not> ts_connectedToSharedInstance (nd_ts nd)"
    and known: "map_of (nd_pathTable nd) dest = Some e" "nd_destinationsMap nd dest = None" "length dest = dstLen" "pe_Packet e \<noteq> []"
    and c: "Unpack (empty_packet\<lparr>Raw := pe_Packet e\<rparr>) = (c, None)" "DestinationHash c = dest"
    and request: "length asker = dstLen" "tag \<noteq> []" "length tag \<le> dstLen" "asker \<noteq> pe_NextHop e"
      "dest @ tag \<notin> set (nd_discoveryPRTags nd)" "dest @ tag \<notin> set (nd_discoveryPRTagsPrev nd)"
      "map_of (nd_inflightPathRequests nd) dest = None"
  shows "\<exists>nd'. handlePathRequest cs env aio now (dest @ asker @ tag) iface nd
     = (nd', [Sealed iface (cached_response ident dest (pe_Hops e) c)], True) \<and> map_of (nd_inflightPathRequests nd') dest = None"
proof -
  define data where "data = dest @ asker @ tag"
  have d: "take dstLen data = dest" "go_slice dstLen (min (length data) (2 * dstLen)) data = asker" "drop (2 * dstLen) data = tag"
    "\<not> length data < dstLen" "length data > 2 * dstLen" "length data > dstLen" "take dstLen tag = tag" "\<not> length tag > dstLen"
    using known(3) request(1-3) by (auto simp: data_def go_slice_def)
  define n1 where "n1 = cullDiscoveryPRTagsLocked (nd\<lparr>nd_discoveryPRTags := (dest @ tag) # nd_discoveryPRTags nd\<rparr>)"
  have n1: "nd_ts n1 = nd_ts nd" "nd_pathTable n1 = nd_pathTable nd" "nd_inflightPathRequests n1 = nd_inflightPathRequests nd"
    "nd_destinationsMap n1 = nd_destinationsMap nd"
    by (simp_all add: n1_def cullDiscoveryPRTagsLocked_def)
  show ?thesis
    unfolding data_def [symmetric] handlePathRequest_def d Let_def
    using d(4-8) request(2,4-7) ident known(1,2,4) n1 c
    by (simp add: n1_def [symmetric] answer_cached_def delete_conv')
qed

text \<open>
  C8: A path request is answered with a path: a node that knows the way to a destination and hears
  a new request for it sends back a frame that, at the node that asked, passes the filter and the announce check and enters
  the path to the destination, with the answering node as next hop and one hop more than its own path has.
\<close>

theorem path_request_answered:
  assumes wf: "node_wf cs nd" and ident: "ts_identity (nd_ts nd) = Some ident" "length ident = dstLen"
      "\<not> ts_connectedToSharedInstance (nd_ts nd)"
    and known: "map_of (nd_pathTable nd) dest = Some e" "pe_Hops e < PathfinderM" "nd_destinationsMap nd dest = None"
    and single: "Unpack (NewPacketFromRaw (pe_Packet e)) = (u, None)" "DestinationType u = DestinationSingle"
    and request: "length asker = dstLen" "tag \<noteq> []" "length tag \<le> dstLen" "asker \<noteq> pe_NextHop e"
      "dest @ tag \<notin> set (nd_discoveryPRTags nd)" "dest @ tag \<notin> set (nd_discoveryPRTagsPrev nd)"
      "map_of (nd_inflightPathRequests nd) dest = None"
    and rq: "map_of (nd_pathTable rq) dest = None" "nd_destinationsMap rq dest = None" "map_of (nd_pathRequests rq) dest \<noteq> None"
  shows "\<exists>nd' frame e'. handlePathRequest cs env aio now (dest @ asker @ tag) iface nd = (nd', [Sealed iface frame], True)
     \<and> map_of (nd_pathTable (fst (receive_frame cs env' aio' now' rnd frame j rq))) dest = Some e'
     \<and> pe_NextHop e' = ident \<and> pe_Interface e' = Some j \<and> pe_Hops e' = arrival_hops (iface_env.truncate env') j (pe_Hops e)"
proof -
  have w: "route_wf cs dest e" using wf known(1) by (auto simp: node_wf_tables intro: table_ok_find)
  then have u: "DestinationHash u = dest" "ValidateAnnounce cs u \<noteq> None" and h: "0 \<le> pe_Hops e"
    using single(1) by (auto simp: route_wf_def signed_announce_def)
  have dl: "length dest = dstLen" using parsed_transport_id [OF single(1)] u(1) by simp
  have pt: "PacketType u = PacketAnnounce" using u(2) by (auto simp: ValidateAnnounce_def split: if_splits)
  obtain c where c: "Unpack (empty_packet\<lparr>Raw := pe_Packet e\<rparr>) = (c, None)" "DestinationHash c = dest"
    "ContextFlag c = ContextFlag u" "DestinationType c = DestinationType u" "Data c = Data u"
    by (rule Unpack_bare [OF single(1)]) (use u(1) in simp)
  have ne: "pe_Packet e \<noteq> []" using c(1) by (auto simp: Unpack_def)
  define frame where "frame = cached_response ident dest (pe_Hops e) c"
  obtain v where v: "Unpack (NewPacketFromRaw frame) = (v, None)" "PacketType v = PacketAnnounce"
    "Context v = ContextPathResponse" "ContextFlag v = ContextFlag c" "DestinationType v = DestinationType c" "DestinationHash v = dest"
    "Data v = Data c" "TransportID v = Some ident" "Hops v = pe_Hops e"
    using parsed_flags [OF single(1)] c(3,4) unfolding frame_def
    by (metis cached_response_parsed [OF ident(2) dl h known(2)])
  have ok: "ValidateAnnounce cs v \<noteq> None" using ValidateAnnounce_fields [of v u cs] v c u pt by simp
  have "\<not> context_exempt v" using v(3) by (simp add: context_exempt_def packet_consts)
  moreover have "ident \<noteq> []" using ident(2) by (auto simp: dstLen_def)
  ultimately have "\<exists>e'. map_of (nd_pathTable (fst (receive_frame cs env' aio' now' rnd frame j rq))) dest = Some e'
     \<and> pe_NextHop e' = ident \<and> pe_Interface e' = Some j \<and> pe_Hops e' = arrival_hops (iface_env.truncate env') j (pe_Hops e)"
    using asked_path_learned [OF v(1,2) _ _ v(8) _ ok] v c single(2) rq by simp
  with cached_answer [OF ident(1,3) known(1,3) dl ne c(1,2) request] show ?thesis
    unfolding frame_def by blast
qed

section \<open>Responses that do not arrive\<close>

definition sends_to :: "nat \<Rightarrow> node_out \<Rightarrow> bool" where
  "sends_to i out = (case out of Sealed k _ \<Rightarrow> k = i | Bare k _ \<Rightarrow> k = i | _ \<Rightarrow> False)"

text \<open>The announce handler itself sends to local clients only and does not touch the list of those who asked.\<close>

lemma handleAnnounce_out:
  assumes "\<forall>k cl. SpawnedClientInterfaces env k = Some cl \<longrightarrow> i \<notin> set cl"
  shows "\<not> list_ex (sends_to i) (snd (handleAnnounce cs env io now rnd p iface nd))"
proof -
  have f: "\<not> list_ex (sends_to i) (forwardAnnounceToLocalClients env p iface m)" for m
  proof -
    have "\<exists>k cl. SpawnedClientInterfaces env k = Some cl \<and> (\<exists>sc \<in> set cl. \<exists>fr. x = Sealed sc fr)"
      if x: "x \<in> set (forwardAnnounceToLocalClients env p iface m)" for x
    proof -
      from x obtain idh k where "x \<in> set (case SpawnedClientInterfaces env k of None \<Rightarrow> []
          | Some cl \<Rightarrow> map (\<lambda>sc. Sealed sc (local_client_announce idh p)) (filter (\<lambda>sc. sc \<noteq> iface) cl))"
        by (auto simp: forwardAnnounceToLocalClients_def split: option.split_asm if_split_asm)
      then show ?thesis by (cases "SpawnedClientInterfaces env k") auto
    qed
    with assms show ?thesis unfolding list_ex_iff sends_to_def by fastforce
  qed
  have c: "\<not> list_ex (sends_to i) (call_announce_handlers now p m)" for m
    by (auto simp: call_announce_handlers_def list_ex_iff sends_to_def split: option.split)
  show ?thesis
    using f c by (auto simp: handleAnnounce_def Let_def sends_to_def case_prod_beta split: option.split bool.split)
qed

lemma handleAnnounce_pending: "nd_pendingPathRequests (fst (handleAnnounce cs env io now rnd p iface nd)) = nd_pendingPathRequests nd"
proof -
  have l: "nd_pendingPathRequests (fst (learn_path env now p iface m)) = nd_pendingPathRequests m" for m
    by (auto simp: learn_path_def Let_def markPathUnknownStateLocked_def split: option.split path_choice.split)
  have "nd_pendingPathRequests (hear_rebroadcast now p m) = nd_pendingPathRequests m"
    "nd_pendingPathRequests (fst (shouldHoldAnnounce now p iface m)) = nd_pendingPathRequests m"
    "nd_pendingPathRequests (queue_rebroadcast env now rnd p iface m) = nd_pendingPathRequests m" for m
    by (auto simp: hear_rebroadcast_def shouldHoldAnnounce_def queue_rebroadcast_def Let_def split: option.split prod.split)
  note k = this l
  show ?thesis
    using k by (auto simp: handleAnnounce_def Let_def case_prod_beta split: option.split bool.split)
qed

lemma process_response:
  assumes "Context p = ContextPathResponse"
  shows "snd (process_announce cs env aio now rnd p iface nd)
      = snd (handleAnnounce cs env (an_persist aio) now rnd p iface nd) @ forwardPathResponseToRequesters env p iface nd"
    and "nd_pendingPathRequests (fst (process_announce cs env aio now rnd p iface nd))
      = (if forwardPathResponseToRequesters env p iface nd = [] then nd_pendingPathRequests nd
         else AList.delete (DestinationHash p) (nd_pendingPathRequests nd))"
proof -
  obtain n out where h: "handleAnnounce cs env (an_persist aio) now rnd p iface nd = (n, out)" by fastforce
  have k: "nd_pendingPathRequests n = nd_pendingPathRequests nd" "nd_ts n = nd_ts nd"
    using handleAnnounce_pending [of cs env "an_persist aio" now rnd p iface nd] handleAnnounce_ts [of cs env "an_persist aio" now rnd p iface nd] h
    by simp_all
  have f: "forwardPathResponseToRequesters env p iface n = forwardPathResponseToRequesters env p iface nd"
    unfolding forwardPathResponseToRequesters_def k by (rule refl)
  show "snd (process_announce cs env aio now rnd p iface nd)
      = snd (handleAnnounce cs env (an_persist aio) now rnd p iface nd) @ forwardPathResponseToRequesters env p iface nd"
    "nd_pendingPathRequests (fst (process_announce cs env aio now rnd p iface nd))
      = (if forwardPathResponseToRequesters env p iface nd = [] then nd_pendingPathRequests nd
         else AList.delete (DestinationHash p) (nd_pendingPathRequests nd))"
    using assms h f k by (simp_all add: process_announce_def clearPendingPathRequesters_def Let_def)
qed

lemma response_receivers:
  "list_ex (sends_to r) (forwardPathResponseToRequesters env p source nd) \<longleftrightarrow>
     (\<exists>rs. map_of (nd_pendingPathRequests nd) (DestinationHash p) = Some rs \<and> r \<in> set rs) \<and> r \<noteq> source \<and> iface_Status env r"
  by (cases "map_of (nd_pendingPathRequests nd) (DestinationHash p)")
    (auto simp: forwardPathResponseToRequesters_def list_ex_iff sends_to_def Let_def)

text \<open>
  C19: A forged path response uses up the request: an announce that fails the signature check is
  relayed to those who asked all the same, and the node then forgets them, so that the genuine
  response that follows is not relayed to them.
\<close>

theorem forged_response_consumes_request:
  assumes forged: "ValidateAnnounce cs p = None" "Context p = ContextPathResponse" "DestinationHash p = dest"
    and asked: "map_of (nd_pendingPathRequests nd) dest = Some rs" "r \<in> set rs" "r \<noteq> j" "iface_Status env r"
      "\<forall>k cl. SpawnedClientInterfaces env k = Some cl \<longrightarrow> r \<notin> set cl"
    and genuine: "Context q = ContextPathResponse" "DestinationHash q = dest"
  shows "\<exists>nd1 out1 nd2 out2. process_announce cs env aio now rnd p j nd = (nd1, out1) \<and> list_ex (sends_to r) out1
     \<and> process_announce cs env aio' now' rnd' q j' nd1 = (nd2, out2) \<and> \<not> list_ex (sends_to r) out2"
proof -
  obtain nd1 out1 where s1: "process_announce cs env aio now rnd p j nd = (nd1, out1)" by fastforce
  obtain nd2 out2 where s2: "process_announce cs env aio' now' rnd' q j' nd1 = (nd2, out2)" by fastforce
  have r: "list_ex (sends_to r) (forwardPathResponseToRequesters env p j nd)"
    using asked(1-4) forged(3) by (simp add: response_receivers)
  then have "list_ex (sends_to r) out1" using process_response(1) [OF forged(2), of cs env aio now rnd j nd] s1 by simp
  moreover have "forwardPathResponseToRequesters env p j nd \<noteq> []" using r by auto
  then have "nd_pendingPathRequests nd1 = AList.delete dest (nd_pendingPathRequests nd)"
    using process_response(2) [OF forged(2), of cs env aio now rnd j nd] s1 forged(3) by simp
  then have "\<not> list_ex (sends_to r) (forwardPathResponseToRequesters env q j' nd1)"
    using genuine(2) by (simp add: response_receivers delete_conv')
  then have "\<not> list_ex (sends_to r) out2"
    using process_response(1) [OF genuine(1), of cs env aio' now' rnd' j' nd1] handleAnnounce_out [OF asked(5)] s2 by simp
  ultimately show ?thesis using s1 s2 by blast
qed

lemma inflight_consumed:
  assumes "map_of (nd_inflightPathRequests nd) dest \<noteq> None" and "length dest = dstLen" and "rest \<noteq> []"
  shows "\<exists>n out. handlePathRequest cs env aio now (dest @ rest) iface nd = (n, out, True) \<and> \<not> list_ex (sends_to i) out
     \<and> nd_pendingPathRequests n = nd_pendingPathRequests nd"
proof -
  have v: "\<not> list_ex (sends_to i) (if b then [ProtocolViolation iface] else [])" for b by (simp add: sends_to_def)
  have n: "nd_inflightPathRequests (cullDiscoveryPRTagsLocked (nd\<lparr>nd_discoveryPRTags := ts\<rparr>)) = nd_inflightPathRequests nd"
    "nd_pendingPathRequests (cullDiscoveryPRTagsLocked (nd\<lparr>nd_discoveryPRTags := ts\<rparr>)) = nd_pendingPathRequests nd" for ts
    by (simp_all add: cullDiscoveryPRTagsLocked_def)
  define tag where "tag = (if length (dest @ rest) > 2 * dstLen then drop (2 * dstLen) (dest @ rest) else drop dstLen (dest @ rest))"
  have "tag \<noteq> []" "\<not> length (dest @ rest) < dstLen" "take dstLen (dest @ rest) = dest" using assms(2,3) by (auto simp: tag_def)
  with assms(1) v n show ?thesis
    unfolding handlePathRequest_def Let_def tag_def [symmetric] by simp
qed

text \<open>
  C20: A second node that asks while a request for the same destination is under way is turned away
  for good: its request is neither answered nor passed on nor noted, and the response goes to the first ones only.
\<close>

theorem batched_requester_forgotten:
  assumes busy: "map_of (nd_inflightPathRequests nd) dest \<noteq> None" "map_of (nd_pendingPathRequests nd) dest = Some rs"
    and late: "Data p = dest @ rest" "length dest = dstLen" "rest \<noteq> []" "late \<notin> set rs"
      "\<forall>k cl. SpawnedClientInterfaces env k = Some cl \<longrightarrow> late \<notin> set cl"
    and response: "Context q = ContextPathResponse" "DestinationHash q = dest"
  shows "\<exists>nd1 out1 nd2 out2. process_path_request cs env aio now p late nd = (nd1, out1)
     \<and> process_announce cs env aio' now' rnd q j nd1 = (nd2, out2)
     \<and> \<not> list_ex (sends_to late) (out1 @ out2)
     \<and> list_all (\<lambda>r. r \<noteq> j \<and> iface_Status env r \<longrightarrow> list_ex (sends_to r) out2) rs"
proof -
  define m where "m = nd\<lparr>nd_ingress := record_sample (receivedPathRequestAtSize now (int (length (Raw p)))) (parentInterface env) late (nd_ingress nd)\<rparr>"
  have m: "map_of (nd_inflightPathRequests m) dest \<noteq> None" using busy(1) by (simp add: m_def)
  obtain nd1 out1 where h: "handlePathRequest cs env aio now (dest @ rest) late m = (nd1, out1, True)" "\<not> list_ex (sends_to late) out1"
    "nd_pendingPathRequests nd1 = nd_pendingPathRequests m"
    using inflight_consumed [OF m late(2,3)] by blast
  have s1: "process_path_request cs env aio now p late nd = (nd1, out1)"
    using h(1) late(1-3) by (simp add: process_path_request_def m_def Let_def)
  obtain nd2 out2 where s2: "process_announce cs env aio' now' rnd q j nd1 = (nd2, out2)" by fastforce
  have p: "map_of (nd_pendingPathRequests nd1) (DestinationHash q) = Some rs" using h(3) busy(2) response(2) by (simp add: m_def)
  have out2: "out2 = snd (handleAnnounce cs env (an_persist aio') now' rnd q j nd1) @ forwardPathResponseToRequesters env q j nd1"
    using process_response(1) [OF response(1), of cs env aio' now' rnd j nd1] s2 by simp
  have "\<not> list_ex (sends_to late) out2"
    using handleAnnounce_out [OF late(5)] late(4) p unfolding out2 by (simp add: response_receivers)
  moreover have "list_all (\<lambda>r. r \<noteq> j \<and> iface_Status env r \<longrightarrow> list_ex (sends_to r) out2) rs"
    unfolding out2 using p by (simp add: response_receivers list_all_iff)
  ultimately show ?thesis using s1 s2 h(2) by auto
qed

section \<open>Concrete nodes\<close>

lemma demo_no_clients: "\<forall>k cl. SpawnedClientInterfaces demo_node_env k = Some cl \<longrightarrow> i \<notin> set cl" "iface_Status demo_node_env i"
  by (simp_all add: demo_node_env_def iface_env.defs node_env.defs demo_env_def)

definition demo_asker :: bytes where
  "demo_asker = map (\<lambda>b. b + 1) demo_dest"

lemma demo_asker: "length demo_asker = dstLen" "demo_asker \<noteq> demo_dest"
proof -
  have "map (\<lambda>b. b + 1) xs = xs \<Longrightarrow> xs = []" for xs :: bytes by (cases xs) auto
  with length_demo(1,2) show "length demo_asker = dstLen" "demo_asker \<noteq> demo_dest" by (auto simp: demo_asker_def)
qed

theorem path_request_answered_witness:
  "\<exists>nd' frame e'. handlePathRequest demo_curves demo_node_env demo_aio 5 (demo_dest @ demo_asker @ [1]) 2 demo_known_route
      = (nd', [Sealed 2 frame], True)
     \<and> map_of (nd_pathTable (fst (receive_frame demo_curves demo_node_env demo_aio 6 None frame 1 demo_router))) demo_dest = Some e'
     \<and> pe_NextHop e' = replicate 16 9 \<and> pe_Interface e' = Some 1 \<and> pe_Hops e' = 2"
proof -
  obtain u where u: "Unpack (NewPacketFromRaw (demo_announce_frame (demo_blob 2) (replicate 32 4))) = (u, None)"
    "DestinationType u = DestinationSingle" by (rule demo_frame_parsed)
  have w: "node_wf demo_curves demo_known_route"
    using demo_route_wf(1) by (simp add: node_wf_def demo_known_route_def demo_router_def ingress_wf_def NewBaseInterface_def)
  have e: "map_of (nd_pathTable demo_known_route) demo_dest = Some demo_route" "pe_Packet demo_route = demo_announce_frame (demo_blob 2) (replicate 32 4)"
    "pe_NextHop demo_route = demo_dest" "pe_Hops demo_route = 1"
    by (simp_all add: demo_known_route_def demo_route_def)
  have "arrival_hops (iface_env.truncate demo_node_env) 1 1 = 2"
    by (simp add: arrival_hops_def demo_node_env_def iface_env.defs node_env.defs demo_env_def)
  then show ?thesis
    using path_request_answered [OF w, of "replicate 16 9" demo_dest demo_route u demo_asker "[1]" demo_router demo_node_env demo_aio 5 2
        demo_node_env demo_aio 6 None 1] u e demo_asker
    by (simp add: demo_known_route_def demo_router_def demo_ts_def packet_consts)
qed

definition demo_response :: "bytes \<Rightarrow> packet" where
  "demo_response data = empty_packet\<lparr>PacketType := PacketAnnounce, Context := ContextPathResponse, ContextFlag := FlagSet,
     DestinationHash := demo_dest, Data := data\<rparr>"

lemma demo_response_simps:
  "Context (demo_response data) = ContextPathResponse" "DestinationHash (demo_response data) = demo_dest"
  "ValidateAnnounce demo_curves (demo_response []) = None"
  "ValidateAnnounce demo_curves (demo_response (demo_announce_data (demo_blob 3) (replicate 32 5))) \<noteq> None"
proof -
  show "ValidateAnnounce demo_curves (demo_response (demo_announce_data (demo_blob 3) (replicate 32 5))) \<noteq> None"
    using ValidateAnnounce_parts [of "demo_response (demo_announce_data (demo_blob 3) (replicate 32 5))" "replicate 64 1" "replicate 10 2"
        "demo_blob 3" "replicate 32 5" "demo_sig (demo_blob 3) (replicate 32 5)" "[]" demo_curves]
      demo_parts [of "demo_blob 3" "replicate 32 5"] demo_signed
    by (simp add: demo_response_def)
qed (simp_all add: demo_response_def ValidateAnnounce_def identity_sizes)

theorem forged_response_consumes_request_witness:
  "\<exists>nd1 out1 nd2 out2. process_announce demo_curves demo_node_env demo_aio 5 None (demo_response []) 1
      (demo_router\<lparr>nd_pendingPathRequests := [(demo_dest, [2])]\<rparr>) = (nd1, out1) \<and> list_ex (sends_to 2) out1
     \<and> process_announce demo_curves demo_node_env demo_aio 6 None (demo_response (demo_announce_data (demo_blob 3) (replicate 32 5))) 1 nd1
        = (nd2, out2) \<and> \<not> list_ex (sends_to 2) out2
     \<and> ValidateAnnounce demo_curves (demo_response (demo_announce_data (demo_blob 3) (replicate 32 5))) \<noteq> None"
  using forged_response_consumes_request [OF demo_response_simps(3,1,2) _ _ _ demo_no_clients(2,1) demo_response_simps(1,2),
      of "demo_router\<lparr>nd_pendingPathRequests := [(demo_dest, [2])]\<rparr>" "[2]" 2 1 demo_aio 5 None demo_aio 6 None
        "demo_announce_data (demo_blob 3) (replicate 32 5)" 1] demo_response_simps(4)
  by simp

theorem batched_requester_forgotten_witness:
  "\<exists>nd1 out1 nd2 out2. process_path_request demo_curves demo_node_env demo_aio 5 (empty_packet\<lparr>Data := demo_dest @ demo_asker @ [1]\<rparr>) 2
      (demo_router\<lparr>nd_inflightPathRequests := [(demo_dest, 0)], nd_pendingPathRequests := [(demo_dest, [1])]\<rparr>) = (nd1, out1)
     \<and> process_announce demo_curves demo_node_env demo_aio 6 None (demo_response (demo_announce_data (demo_blob 3) (replicate 32 5))) 3 nd1
        = (nd2, out2)
     \<and> \<not> list_ex (sends_to 2) (out1 @ out2) \<and> list_ex (sends_to 1) out2"
  using batched_requester_forgotten [OF _ _ _ length_demo(1) _ _ demo_no_clients(1) demo_response_simps(1,2),
      of "demo_router\<lparr>nd_inflightPathRequests := [(demo_dest, 0)], nd_pendingPathRequests := [(demo_dest, [1])]\<rparr>" "[1]"
        "empty_packet\<lparr>Data := demo_dest @ demo_asker @ [1]\<rparr>" "demo_asker @ [1]" 2 demo_curves demo_aio 5 demo_aio 6 None
        "demo_announce_data (demo_blob 3) (replicate 32 5)" 3] demo_no_clients(2)
  by simp

end
