(* ===== verification/AnnounceCap.thy ===== *)
theory AnnounceCap
  imports Announces
begin

text \<open>
  The announce cap of an interface: its queue as a state machine driven by announces offered for
  rebroadcast and by its timer, and the share of the medium that the announces it lets through can
  take. A history lists the instants and lengths of the frames sent, latest first.
\<close>

section \<open>The queue of one interface\<close>

inductive capped :: "int \<Rightarrow> announce_queue \<Rightarrow> int \<Rightarrow> (int \<times> nat) list \<Rightarrow> bool" for rate :: int where
  start: "capped rate \<lparr>aq_allowedAt = year1, aq_queue = [], aq_timer = None\<rparr> t []"
| offer: "capped rate st t hist \<Longrightarrow> t \<le> now \<Longrightarrow> queue_or_send now rate dest raw hops st = (st', out) \<Longrightarrow>
    capped rate st' now (case out of None \<Rightarrow> hist | Some frame \<Rightarrow> (now, length frame) # hist)"
| timer: "capped rate st t hist \<Longrightarrow> t \<le> now \<Longrightarrow> aq_timer st = Some due \<Longrightarrow> due \<le> now \<Longrightarrow>
    process_queue now rate st = (st', out) \<Longrightarrow>
    capped rate st' now (case out of None \<Rightarrow> hist | Some frame \<Rightarrow> (now, length frame) # hist)"

text \<open>Nothing waits without a timer, the timer is not due before the next frame is allowed, and that is after the last one.\<close>

definition cap_inv :: "int \<Rightarrow> announce_queue \<Rightarrow> (int \<times> nat) list \<Rightarrow> bool" where
  "cap_inv rate st hist \<longleftrightarrow> (aq_queue st = [] \<longleftrightarrow> aq_timer st = None)
     \<and> (\<forall>due. aq_timer st = Some due \<longrightarrow> aq_allowedAt st \<le> due)
     \<and> (case hist of [] \<Rightarrow> True | (t, l) # _ \<Rightarrow> t + announceWaitDuration (int l) rate \<le> aq_allowedAt st)"

definition cap_gaps :: "int \<Rightarrow> (int \<times> nat) list \<Rightarrow> bool" where
  "cap_gaps rate hist \<longleftrightarrow>
     (\<forall>i. Suc i < length hist \<longrightarrow> fst (hist ! Suc i) + announceWaitDuration (int (snd (hist ! Suc i))) rate \<le> fst (hist ! i))"

lemma cap_gaps_Cons:
  assumes "cap_gaps rate hist" and "case hist of [] \<Rightarrow> True | (u, l) # _ \<Rightarrow> u + announceWaitDuration (int l) rate \<le> now"
  shows "cap_gaps rate ((now, k) # hist)"
proof -
  have "fst (((now, k) # hist) ! Suc i) + announceWaitDuration (int (snd (((now, k) # hist) ! Suc i))) rate \<le> fst (((now, k) # hist) ! i)"
    if "Suc i < length ((now, k) # hist)" for i
    using that assms by (cases i) (auto simp: cap_gaps_def split: list.splits)
  then show ?thesis by (simp add: cap_gaps_def)
qed

lemma refresh_nonempty: "refresh_queued now d hops em raw q = Some q' \<Longrightarrow> q \<noteq> [] \<and> q' \<noteq> []"
  by (cases q) (auto split: if_splits)

lemma wait_nonneg: "0 \<le> announceWaitDuration l rate"
  by (auto simp: announceWaitDuration_def)

lemma offer_inv:
  assumes "0 < rate" and "cap_inv rate st hist" and "queue_or_send now rate dest raw hops st = (st', out)"
  shows "cap_inv rate st' (case out of None \<Rightarrow> hist | Some frame \<Rightarrow> (now, length frame) # hist)"
    and "out = Some frame \<Longrightarrow> aq_allowedAt st < now"
proof -
  note d = queue_or_send_def Let_def
  have r: "(out = Some raw \<and> aq_queue st = [] \<and> aq_allowedAt st < now
        \<and> st' = st\<lparr>aq_allowedAt := now + announceWaitDuration (int (length raw)) rate\<rparr>)
      \<or> (out = None \<and> st' = st)
      \<or> (\<exists>q. out = None \<and> q \<noteq> [] \<and> aq_queue st \<noteq> [] \<and> st' = st\<lparr>aq_queue := q\<rparr>)
      \<or> (\<exists>q. out = None \<and> q \<noteq> [] \<and> aq_queue st = []
            \<and> st' = st\<lparr>aq_queue := q, aq_timer := Some (now + max (aq_allowedAt st - now) 0)\<rparr>)"
  proof (cases "aq_queue st = [] \<and> aq_allowedAt st < now")
    case True
    with assms(1,3) show ?thesis by (simp add: d)
  next
    case free: False
    show ?thesis
    proof (cases "length (aq_queue st) \<ge> maxQueuedAnnounces")
      case True
      with free assms(1,3) have "out = None \<and> st' = st" by (auto simp: d)
      then show ?thesis by blast
    next
      case room: False
      show ?thesis
      proof (cases "refresh_queued now dest hops (announceEmissionFromRaw raw) raw (aq_queue st)")
        case None
        with free room assms(1,3) show ?thesis by (cases "aq_queue st = []") (auto simp: d)
      next
        case (Some q)
        with free room assms(1,3) have "out = None \<and> st' = st\<lparr>aq_queue := q\<rparr>" by (auto simp: d)
        with refresh_nonempty [OF Some] show ?thesis by blast
      qed
    qed
  qed
  then show "cap_inv rate st' (case out of None \<Rightarrow> hist | Some frame \<Rightarrow> (now, length frame) # hist)"
    using assms(2) by (cases hist) (elim disjE exE conjE, simp_all add: cap_inv_def case_prod_beta)+
  show "out = Some frame \<Longrightarrow> aq_allowedAt st < now"
    using r by auto
qed

lemma timer_inv:
  assumes "cap_inv rate st hist" and "aq_timer st = Some due" and "due \<le> now" and "process_queue now rate st = (st', out)"
  shows "cap_inv rate st' (case out of None \<Rightarrow> hist | Some frame \<Rightarrow> (now, length frame) # hist)"
    and "aq_allowedAt st \<le> now"
proof -
  show "aq_allowedAt st \<le> now" using assms(1-3) by (auto simp: cap_inv_def)
  define q where "q = filter (\<lambda>e. now - aq_queuedAt e \<le> queuedAnnounceLife) (aq_queue st)"
  define i where "i = select_announce q 0 1 (tl q)"
  define rest where "rest = take i q @ drop (i + 1) q"
  define wait where "wait = announceWaitDuration (int (length (aq_raw (q ! i)))) rate"
  have w: "0 \<le> wait" by (simp add: wait_def wait_nonneg)
  have r: "process_queue now rate st =
      (if q = [] then (st\<lparr>aq_timer := None, aq_queue := []\<rparr>, None)
       else (st\<lparr>aq_queue := rest, aq_allowedAt := now + wait, aq_timer := if rest \<noteq> [] then Some (now + max wait 0) else None\<rparr>,
             Some (aq_raw (q ! i))))"
    unfolding process_queue_def Let_def rest_def wait_def i_def q_def by simp
  show "cap_inv rate st' (case out of None \<Rightarrow> hist | Some frame \<Rightarrow> (now, length frame) # hist)"
  proof (cases "q = []")
    case True
    with r assms(1,4) show ?thesis by (cases hist) (auto simp: cap_inv_def)
  next
    case False
    with r assms(4) have "st' = st\<lparr>aq_queue := rest, aq_allowedAt := now + wait, aq_timer := if rest \<noteq> [] then Some (now + max wait 0) else None\<rparr>"
      "out = Some (aq_raw (q ! i))" by auto
    with w show ?thesis by (simp add: cap_inv_def wait_def)
  qed
qed

lemma capped_inv:
  assumes "capped rate st t hist" and "0 < rate"
  shows "cap_inv rate st hist \<and> cap_gaps rate hist"
  using assms
proof (induction rule: capped.induct)
  case (start t)
  then show ?case by (simp add: cap_inv_def cap_gaps_def)
next
  case (offer st t hist now dest raw hops st' out)
  then have i: "cap_inv rate st hist" "cap_gaps rate hist" by simp_all
  have "cap_gaps rate ((now, k) # hist)" if "out = Some frame" for frame k
    using offer_inv(2) [OF offer.prems i(1) offer.hyps(3) that] i
    by (intro cap_gaps_Cons) (auto simp: cap_inv_def split: list.splits)
  with i offer_inv(1) [OF offer.prems i(1) offer.hyps(3)] show ?case by (auto split: option.split)
next
  case (timer st t hist now due st' out)
  then have i: "cap_inv rate st hist" "cap_gaps rate hist" by simp_all
  have "cap_gaps rate ((now, k) # hist)" for k
    using timer_inv(2) [OF i(1) timer.hyps(3,4,5)] i by (intro cap_gaps_Cons) (auto simp: cap_inv_def split: list.splits)
  with i timer_inv(1) [OF i(1) timer.hyps(3,4,5)] show ?case by (auto split: option.split)
qed



end
