(* ===== verification/Link.thy ===== *)
theory Link
  imports Forwarding Destination
begin

text \<open>
  Links (\<^verbatim>\<open>rns/link.go\<close>, \<^verbatim>\<open>rns/link-traffic-stats.go\<close>): the state of a link, its establishment by link
  request, proof and round-trip packet, the session cipher, sending, keepalives, the watchdog and
  teardown. The dispatch of received packets is in \<open>LinkReceive\<close>.

  An operation returns the new link and the list of its effects in order. Callbacks are flags, the channel
  of a link is a flag whether it exists, the attached interface is a number. Times are nanoseconds; a
  float is the rational it denotes, its IEEE encoding is a parameter. What the link asks of the transport
  and of its interface is collected in \<open>link_env\<close>. A link always has a transport, since \<^verbatim>\<open>NewLink\<close>
  dereferences it. Log messages and locks are left out, as are the fields \<^verbatim>\<open>hash\<close> (always equal to
  \<^verbatim>\<open>linkID\<close>), \<^verbatim>\<open>sharedKey\<close>, \<^verbatim>\<open>derivedKey\<close> and the byte forms of the peer keys, which no operation reads.
\<close>

section \<open>Constants\<close>

datatype link_status = LinkPending | LinkHandshake | LinkActive | LinkStale | LinkClosed

abbreviation (input) LinkModeAES128CBC :: int where "LinkModeAES128CBC \<equiv> 0x00"
abbreviation (input) LinkModeAES256CBC :: int where "LinkModeAES256CBC \<equiv> 0x01"
abbreviation (input) MTUBytemask :: int where "MTUBytemask \<equiv> 0x1FFFFF"
abbreviation (input) ModeBytemask :: int where "ModeBytemask \<equiv> 0xE0"
abbreviation (input) HeaderMinSize :: int where "HeaderMinSize \<equiv> 2 + 1 + (128 div 8) * 1"
abbreviation (input) HeaderMaxSize :: int where "HeaderMaxSize \<equiv> 2 + 1 + (128 div 8) * 2"
abbreviation (input) IFACMinSize :: int where "IFACMinSize \<equiv> 1"
abbreviation (input) AES128BlockSize :: int where "AES128BlockSize \<equiv> 16"

text \<open>Durations in nanoseconds.\<close>

definition second :: int where "second = 10 ^ 9"
abbreviation (input) LinkKeepaliveMaxRTT :: rat where "LinkKeepaliveMaxRTT \<equiv> 175 / 100"
abbreviation (input) LinkKeepaliveTimeoutFactor :: rat where "LinkKeepaliveTimeoutFactor \<equiv> 4"
abbreviation (input) LinkStaleGrace :: int where "LinkStaleGrace \<equiv> 5 * second"
abbreviation (input) LinkKeepaliveMax :: int where "LinkKeepaliveMax \<equiv> 360 * second"
abbreviation (input) LinkKeepaliveMin :: int where "LinkKeepaliveMin \<equiv> 5 * second"
abbreviation (input) LinkKeepaliveDefault :: int where "LinkKeepaliveDefault \<equiv> LinkKeepaliveMax"
abbreviation (input) LinkStaleFactor :: int where "LinkStaleFactor \<equiv> 2"
abbreviation (input) LinkWatchdogMaxSleep :: int where "LinkWatchdogMaxSleep \<equiv> 5 * second"
abbreviation (input) linkTimeoutPerHop :: int where "linkTimeoutPerHop \<equiv> 6 * second"

abbreviation (input) AcceptNone :: int where "AcceptNone \<equiv> 0x00"
abbreviation (input) AcceptApp :: int where "AcceptApp \<equiv> 0x01"
abbreviation (input) AcceptAll :: int where "AcceptAll \<equiv> 0x02"

datatype teardown_reason =
    TeardownTimeout
  | TeardownDestinationClosed
  | TeardownInitiatorClosed
  | TeardownTransportClosed
  | TeardownStale

abbreviation (input) ContextRequest :: int where "ContextRequest \<equiv> 0x09"
abbreviation (input) ContextResponse :: int where "ContextResponse \<equiv> 0x0a"
abbreviation (input) ContextLinkIdentify :: int where "ContextLinkIdentify \<equiv> 0xfb"
abbreviation (input) ContextLinkClose :: int where "ContextLinkClose \<equiv> 0xfc"
abbreviation (input) ContextLrrtt :: int where "ContextLrrtt \<equiv> 0xfe"

text \<open>\<^verbatim>\<open>time.Duration(s * float64(time.Second))\<close> and \<^verbatim>\<open>d.Seconds()\<close>.\<close>

definition to_duration :: "rat \<Rightarrow> int" where
  "to_duration s = (if s \<ge> 0 then \<lfloor>s * of_int second\<rfloor> else \<lceil>s * of_int second\<rceil>)"

definition Seconds :: "int \<Rightarrow> rat" where
  "Seconds d = of_int d / of_int second"

section \<open>The link\<close>

record link_callbacks =
  cb_LinkEstablished :: bool
  cb_LinkClosed :: bool
  cb_Packet :: bool
  cb_RemoteIdentified :: bool
  cb_ResourceStarted :: bool
  cb_ResourceConcluded :: bool

record link =
  l_destination :: "destination option"
  l_initiator :: bool
  l_status :: link_status
  l_mode :: int
  l_prv :: bytes
  l_pubBytes :: bytes
  l_sigPrv :: "bytes option"
  l_sigPubBytes :: bytes
  l_peerPub :: "bytes option"
  l_peerSigPub :: "bytes option"
  l_linkID :: bytes
  l_token :: "token option"
  l_rtt :: rat
  l_mtu :: int
  l_mdu :: int
  l_expectedHops :: int
  l_rebalancedAt :: int
  l_establishmentCost :: rat
  l_establishmentRate :: rat
  l_expectedRate :: rat
  l_lastInbound :: int
  l_lastOutbound :: int
  l_lastKeepalive :: int
  l_lastData :: int
  l_activatedAt :: int
  l_requestTime :: int
  l_lastProof :: int
  l_tx :: uint64
  l_rx :: uint64
  l_txbytes :: uint64
  l_rxbytes :: uint64
  l_callbacks :: link_callbacks
  l_remoteIdentity :: "identity option"
  l_establishmentTimeout :: int
  l_attachedInterface :: "nat option"
  l_resourceStrategy :: int
  l_trafficTimeoutFactor :: rat
  l_keepaliveTimeoutFactor :: rat
  l_keepalive :: int
  l_staleTime :: int
  l_channel :: bool
  l_teardownReason :: teardown_reason

text \<open>
  The surroundings: the curve operations, the queries to the transport, whether a send on an interface and
  \<^verbatim>\<open>Transport.Outbound\<close> succeed, the source of initialisation vectors and the encoding of floats.
\<close>

record link_env =
  lv_curves :: curves
  lv_LinkMTUDiscovery :: bool
  lv_NextHopInterfaceHWMTU :: "bytes \<Rightarrow> int option"
  lv_HopsTo :: "bytes \<Rightarrow> int"
  lv_FirstHopTimeout :: "bytes \<Rightarrow> int"
  lv_IsBlackholed :: "bytes \<Rightarrow> bool"
  lv_iface_Send :: "nat \<Rightarrow> bytes \<Rightarrow> bool"
  lv_Outbound :: "packet \<Rightarrow> bool"
  lv_random :: "nat \<Rightarrow> bytes option"
  lv_Float64bits :: "rat \<Rightarrow> uint64"
  lv_Float64frombits :: "uint64 \<Rightarrow> rat"
  lv_Float32frombits :: "uint32 \<Rightarrow> rat"

datatype link_error =
    OnlySingleLinks
  | OnlyInitiatorEstablishes
  | LinkIdentity identity_error
  | LinkCrypto crypto_error
  | LinkPacket packet_error
  | LinkIsClosed
  | IfaceSendFailed
  | OutboundFailed
  | InvalidRequestSize nat
  | NotPending
  | InvalidProofLength
  | InvalidProofSignature
  | InvalidHandshakeState link_status
  | NoPeerKey
  | NoSessionKeys
  | InvalidIdentifyState
  | NoIdentityKey
  | LinkPanic

datatype link_event =
    SentVia nat bytes
  | SentOutbound packet
  | LinkRegistered
  | LinkActivated
  | EstablishedCallback
  | ClosedCallback
  | ChannelShutdown

section \<open>Session cipher\<close>

definition link_Encrypt :: "(nat \<Rightarrow> bytes option) \<Rightarrow> 'a link_scheme \<Rightarrow> bytes \<Rightarrow> link_error + bytes" where
  "link_Encrypt rt l plaintext =
     (case l_token l of None \<Rightarrow> Inl NoSessionKeys | Some t \<Rightarrow> map_sum LinkCrypto id (TokenEncrypt rt t plaintext))"

definition link_Decrypt :: "'a link_scheme \<Rightarrow> bytes \<Rightarrow> link_error + bytes" where
  "link_Decrypt l ciphertext =
     (case l_token l of None \<Rightarrow> Inl NoSessionKeys | Some t \<Rightarrow> map_sum LinkCrypto id (TokenDecryptData t ciphertext))"

definition link_Sign :: "curves \<Rightarrow> 'a link_scheme \<Rightarrow> bytes \<Rightarrow> bytes option" where
  "link_Sign cs l data = map_option (\<lambda>k. ed25519_sign cs k data) (l_sigPrv l)"

definition link_Verify :: "curves \<Rightarrow> 'a link_scheme \<Rightarrow> bytes \<Rightarrow> bytes \<Rightarrow> bool" where
  "link_Verify cs l signature data = (case l_peerSigPub l of None \<Rightarrow> False | Some k \<Rightarrow> ed25519_verify cs k data signature)"

text \<open>The link as the destination of its packets.\<close>

definition link_dest :: "link_env \<Rightarrow> 'a link_scheme \<Rightarrow> packet_dest" where
  "link_dest env l =
     \<lparr>dest_hash = l_linkID l, dest_type = DestinationLink, dest_transport = True,
      dest_encrypt = (\<lambda>p. case link_Encrypt (lv_random env) l p of Inl e \<Rightarrow> None | Inr c \<Rightarrow> Some c),
      dest_link_closed = Some (l_status l = LinkClosed)\<rparr>"

definition link_packet :: "link_env \<Rightarrow> 'a link_scheme \<Rightarrow> bytes \<Rightarrow> packet" where
  "link_packet env l data = NewPacketWithTransport True (Some (link_dest env l)) data"

section \<open>Sending\<close>

definition accumulateEstablishmentCost :: "packet \<Rightarrow> 'a link_scheme \<Rightarrow> 'a link_scheme" where
  "accumulateEstablishmentCost p l =
     (if PacketType p \<noteq> PacketLinkRequest \<and> PacketType p \<noteq> PacketProof then l
      else l\<lparr>l_establishmentCost := l_establishmentCost l + of_nat (length (Raw p))\<rparr>)"

definition recordOutbound :: "int \<Rightarrow> nat \<Rightarrow> bool \<Rightarrow> 'a link_scheme \<Rightarrow> 'a link_scheme" where
  "recordOutbound now ciphertextLen isKeepalive l =
     (let l = l\<lparr>l_tx := l_tx l + 1, l_txbytes := l_txbytes l + of_nat ciphertextLen, l_lastOutbound := now\<rparr>
      in if \<not> isKeepalive then l\<lparr>l_lastData := now\<rparr> else l\<lparr>l_lastKeepalive := now\<rparr>)"

definition hadOutbound :: "int \<Rightarrow> 'a link_scheme \<Rightarrow> 'a link_scheme" where
  "hadOutbound now l = l\<lparr>l_lastOutbound := now, l_lastData := now\<rparr>"

definition hadKeepaliveOutbound :: "int \<Rightarrow> 'a link_scheme \<Rightarrow> 'a link_scheme" where
  "hadKeepaliveOutbound now l = l\<lparr>l_lastOutbound := now, l_lastKeepalive := now\<rparr>"

text \<open>\<^verbatim>\<open>Packet.Send\<close> for a packet of the link, with the hand-over to the transport.\<close>

definition transport_Send ::
  "link_env \<Rightarrow> int \<Rightarrow> packet \<Rightarrow> 'a link_scheme \<Rightarrow> 'a link_scheme \<times> packet \<times> link_event list \<times> link_error option" where
  "transport_Send env now p l =
     (case packet_Send p of (p, out, counted) \<Rightarrow>
        let l = (case counted of None \<Rightarrow> l | Some (n, keepalive) \<Rightarrow> recordOutbound now n keepalive l) in
        (case out of
           SendError e \<Rightarrow> (l, p, [], Some (LinkPacket e))
         | SendOutbound \<Rightarrow> if lv_Outbound env p then (l, p, [SentOutbound p], None) else (l, p, [], Some OutboundFailed)))"

definition link_send ::
  "link_env \<Rightarrow> int \<Rightarrow> packet \<Rightarrow> 'a link_scheme \<Rightarrow> 'a link_scheme \<times> packet \<times> link_event list \<times> link_error option" where
  "link_send env now p l =
     (let l = l\<lparr>l_lastOutbound := now\<rparr> in
      if l_status l = LinkClosed then (l, p, [], Some LinkIsClosed)
      else
        (case (if Packed p then (p, None) else Pack p) of
           (p, Some e) \<Rightarrow> (l, p, [], Some (LinkPacket e))
         | (p, None) \<Rightarrow>
             let l = accumulateEstablishmentCost p l in
             (case l_attachedInterface l of
                Some i \<Rightarrow>
                  let l = recordOutbound now (length (Ciphertext p)) (Context p = ContextKeepalive) l in
                  if \<not> lv_iface_Send env i (Raw p) then (l, p, [], Some IfaceSendFailed)
                  else (l, p\<lparr>Sent := True, Receipt := map_option (MarkSent (Seconds now)) (Receipt p)\<rparr>, [SentVia i (Raw p)], None)
              | None \<Rightarrow> transport_Send env now p l)))"

definition ProvePacket :: "link_env \<Rightarrow> int \<Rightarrow> packet \<Rightarrow> 'a link_scheme \<Rightarrow> 'a link_scheme \<times> link_event list" where
  "ProvePacket env now p l =
     (case l_sigPrv l of
        None \<Rightarrow> (l, [])
      | Some k \<Rightarrow>
          let signature = ed25519_sign (lv_curves env) k (PacketHash p);
              prf = (link_packet env l (PacketHash p @ signature))\<lparr>PacketType := PacketProof\<rparr>
          in (case link_send env now prf l of (l, _, ev, _) \<Rightarrow> (hadOutbound now l, ev)))"

section \<open>Establishment\<close>

definition link_mdu_of :: "int \<Rightarrow> int" where
  "link_mdu_of m = (m - IFACMinSize - HeaderMinSize - int TokenOverhead) div AES128BlockSize * AES128BlockSize - 1"

definition UpdateMDU :: "'a link_scheme \<Rightarrow> 'a link_scheme" where
  "UpdateMDU l = l\<lparr>l_mdu := link_mdu_of (l_mtu l)\<rparr>"

definition signallingBytes :: "link_env \<Rightarrow> 'a link_scheme \<Rightarrow> bytes" where
  "signallingBytes env l =
     (if \<not> lv_LinkMTUDiscovery env then []
      else
        let signallingMTU = (case l_destination l of
              None \<Rightarrow> l_mtu l
            | Some d \<Rightarrow> (case lv_NextHopInterfaceHWMTU env (d_Hash d) of None \<Rightarrow> l_mtu l | Some nh \<Rightarrow> nh));
            signallingValue = (word_of_int (signallingMTU AND MTUBytemask) :: uint32)
              + word_of_int (push_bit 16 (push_bit 5 (l_mode l) AND ModeBytemask))
        in drop 1 (be_enc 4 (unat signallingValue)))"

text \<open>\<open>rx\<close> and \<open>rs\<close> supply the two ephemeral keys.\<close>

definition NewLink ::
  "link_env \<Rightarrow> (nat \<Rightarrow> bytes option) \<Rightarrow> (nat \<Rightarrow> bytes option) \<Rightarrow> destination option \<Rightarrow> link_error + link" where
  "NewLink env rx rs destination =
     (if (case destination of None \<Rightarrow> False | Some d \<Rightarrow> d_Type d \<noteq> DestinationSingle) then Inl OnlySingleLinks
      else
        (case GenerateX25519PrivateKey rx of
           Inl e \<Rightarrow> Inl (LinkIdentity e)
         | Inr k \<Rightarrow>
             (case GenerateEd25519PrivateKey rs of
                Inl e \<Rightarrow> Inl (LinkIdentity e)
              | Inr s \<Rightarrow>
                  let l = UpdateMDU
                    \<lparr>l_destination = destination, l_initiator = True, l_status = LinkPending, l_mode = LinkModeAES256CBC,
                     l_prv = k, l_pubBytes = x25519_pub (lv_curves env) k,
                     l_sigPrv = Some s, l_sigPubBytes = ed25519_pub (lv_curves env) s,
                     l_peerPub = None, l_peerSigPub = None, l_linkID = [], l_token = None, l_rtt = 0, l_mtu = MTU, l_mdu = 0,
                     l_expectedHops = 0, l_rebalancedAt = time_zero, l_establishmentCost = 0, l_establishmentRate = 0,
                     l_expectedRate = 0, l_lastInbound = time_zero, l_lastOutbound = time_zero, l_lastKeepalive = time_zero,
                     l_lastData = time_zero, l_activatedAt = time_zero, l_requestTime = time_zero, l_lastProof = time_zero,
                     l_tx = 0, l_rx = 0, l_txbytes = 0, l_rxbytes = 0,
                     l_callbacks = \<lparr>cb_LinkEstablished = False, cb_LinkClosed = False, cb_Packet = False,
                       cb_RemoteIdentified = False, cb_ResourceStarted = False, cb_ResourceConcluded = False\<rparr>,
                     l_remoteIdentity = None, l_establishmentTimeout = 0, l_attachedInterface = None,
                     l_resourceStrategy = 0, l_trafficTimeoutFactor = 6, l_keepaliveTimeoutFactor = LinkKeepaliveTimeoutFactor,
                     l_keepalive = LinkKeepaliveDefault, l_staleTime = LinkStaleFactor * LinkKeepaliveDefault,
                     l_channel = False, l_teardownReason = TeardownTimeout\<rparr>
                  in Inr (case destination of
                       Some d \<Rightarrow> l\<lparr>l_initiator := True, l_establishmentTimeout := lv_FirstHopTimeout env (d_Hash d),
                                  l_expectedHops := lv_HopsTo env (d_Hash d)\<rparr>
                     | None \<Rightarrow> l\<lparr>l_initiator := False\<rparr>))))"

text \<open>
  \<^verbatim>\<open>Establish\<close>; the nil-pointer dereference of a link without destination is a panic. \<open>dest_of\<close> is the
  destination as the packet layer sees it.
\<close>

definition Establish :: "link_env \<Rightarrow> int \<Rightarrow> 'a link_scheme \<Rightarrow> 'a link_scheme \<times> link_event list \<times> link_error option" where
  "Establish env now l =
     (if \<not> l_initiator l then (l, [], Some OnlyInitiatorEstablishes)
      else
        (case l_destination l of
           None \<Rightarrow> (l, [], Some LinkPanic)
         | Some d \<Rightarrow>
             let requestData = l_pubBytes l @ l_sigPubBytes l @ signallingBytes env l;
                 p = (NewPacketWithTransport True (Some (as_packet_dest (\<lambda>_. None) d)) requestData)\<lparr>PacketType := PacketLinkRequest\<rparr>
             in (case Pack p of
                   (p, Some e) \<Rightarrow> (l, [], Some (LinkPacket e))
                 | (p, None) \<Rightarrow>
                     (case LinkIDFromLR p of
                        None \<Rightarrow> (l, [], Some LinkPanic)
                      | Some lid \<Rightarrow>
                          let hops = max 1 (lv_HopsTo env (d_Hash d));
                              l = l\<lparr>l_linkID := lid, l_requestTime := now,
                                    l_establishmentTimeout := lv_FirstHopTimeout env (d_Hash d) + linkTimeoutPerHop * hops\<rparr>
                          in (case link_send env now p l of (l, p, ev, e) \<Rightarrow> (l, LinkRegistered # ev, e))))))"

definition LoadPeer :: "bytes \<Rightarrow> bytes \<Rightarrow> 'a link_scheme \<Rightarrow> 'a link_scheme \<times> link_error option" where
  "LoadPeer pubBytes sigPubBytes l =
     (case NewX25519PublicKeyFromBytes pubBytes of
        Inl e \<Rightarrow> (l\<lparr>l_peerPub := None\<rparr>, Some (LinkIdentity e))
      | Inr k \<Rightarrow>
          let l = l\<lparr>l_peerPub := Some k\<rparr> in
          (case NewEd25519PublicKeyFromBytes sigPubBytes of
             Inl e \<Rightarrow> (l\<lparr>l_peerSigPub := None\<rparr>, Some (LinkIdentity e))
           | Inr s \<Rightarrow> (l\<lparr>l_peerSigPub := Some s\<rparr>, None)))"

definition handshake :: "curves \<Rightarrow> 'a link_scheme \<Rightarrow> 'a link_scheme \<times> link_error option" where
  "handshake cs l =
     (if l_status l \<noteq> LinkPending \<and> l_status l \<noteq> LinkHandshake then (l, Some (InvalidHandshakeState (l_status l)))
      else
        (case l_peerPub l of
           None \<Rightarrow> (l, Some NoPeerKey)
         | Some peer \<Rightarrow>
             (case x25519_exchange cs (l_prv l) peer of
                None \<Rightarrow> (l, Some (LinkIdentity ExchangeFailed))
              | Some sharedKey \<Rightarrow>
                  let derivedKeyLength = (if l_mode l = LinkModeAES128CBC then 32 else 64) in
                  (case HKDF derivedKeyLength sharedKey (l_linkID l) [] of
                     Inl e \<Rightarrow> (l, Some (LinkCrypto e))
                   | Inr derivedKey \<Rightarrow>
                       (case NewToken derivedKey of
                          Inl e \<Rightarrow> (l\<lparr>l_token := None\<rparr>, Some (LinkCrypto e))
                        | Inr t \<Rightarrow> (l\<lparr>l_token := Some t, l_status := LinkHandshake\<rparr>, None))))))"

text \<open>\<^verbatim>\<open>Prove\<close>: the signature is made by the identity of the destination where there is one.\<close>

definition proof_signature :: "link_env \<Rightarrow> 'a link_scheme \<Rightarrow> bytes \<Rightarrow> link_error + bytes" where
  "proof_signature env l signedData =
     (case Option.bind (l_destination l) d_identity of
        Some i \<Rightarrow> map_sum LinkIdentity id (identity_Sign (lv_curves env) i signedData)
      | None \<Rightarrow> (case l_sigPrv l of None \<Rightarrow> Inl LinkPanic | Some k \<Rightarrow> Inr (ed25519_sign (lv_curves env) k signedData)))"

definition link_Prove :: "link_env \<Rightarrow> int \<Rightarrow> 'a link_scheme \<Rightarrow> 'a link_scheme \<times> link_event list \<times> link_error option" where
  "link_Prove env now l =
     (let sigBytes = signallingBytes env l;
          signedData = l_linkID l @ l_pubBytes l @ l_sigPubBytes l @ sigBytes
      in (case proof_signature env l signedData of
            Inl e \<Rightarrow> (l, [], Some e)
          | Inr signature \<Rightarrow>
              let p = (link_packet env l (signature @ l_pubBytes l @ sigBytes))\<lparr>PacketType := PacketProof, Context := ContextLrproof\<rparr>
              in (case link_send env now p l of (l, _, ev, e) \<Rightarrow> (l, ev, e))))"

text \<open>
  \<^verbatim>\<open>ValidateRequest\<close>: the answering side. \<open>iface\<close> is the receiving interface of the packet. A link whose proof
  cannot be sent stays registered, but is not returned.
\<close>

definition ValidateRequest ::
  "link_env \<Rightarrow> (nat \<Rightarrow> bytes option) \<Rightarrow> (nat \<Rightarrow> bytes option) \<Rightarrow> int \<Rightarrow> nat option \<Rightarrow> destination \<Rightarrow> bytes \<Rightarrow> packet
     \<Rightarrow> link_event list \<times> (link_error + link)" where
  "ValidateRequest env rx rs now iface destination data p =
     (if length data < LinkECPubSize then ([], Inl (InvalidRequestSize (length data)))
      else
        (case NewLink env rx rs None of
           Inl e \<Rightarrow> ([], Inl e)
         | Inr l \<Rightarrow>
             let l = l\<lparr>l_initiator := False, l_destination := Some destination, l_attachedInterface := iface,
                       l_callbacks := (l_callbacks l)\<lparr>cb_LinkEstablished := d_linkEstablished destination\<rparr>\<rparr>
             in (case (case d_identity destination of
                         None \<Rightarrow> Inr l
                       | Some i \<Rightarrow> (case sigPub i of
                           None \<Rightarrow> Inl LinkPanic
                         | Some k \<Rightarrow> Inr (l\<lparr>l_sigPrv := sigPrv i, l_sigPubBytes := k\<rparr>))) of
                   Inl e \<Rightarrow> ([], Inl e)
                 | Inr l \<Rightarrow>
                     (case LoadPeer (take 32 data) (go_slice 32 64 data) l of
                        (l, Some e) \<Rightarrow> ([], Inl e)
                      | (l, None) \<Rightarrow>
                          (case LinkIDFromLR p of
                             None \<Rightarrow> ([], Inl LinkPanic)
                           | Some lid \<Rightarrow>
                               let l = l\<lparr>l_linkID := lid,
                                         l_establishmentTimeout := linkTimeoutPerHop * max 1 (Hops p) + LinkKeepaliveDefault\<rparr>
                               in (case handshake (lv_curves env) l of
                                     (l, Some e) \<Rightarrow> ([], Inl e)
                                   | (l, None) \<Rightarrow>
                                       let l = l\<lparr>l_requestTime := now, l_lastInbound := now,
                                                 l_establishmentCost := l_establishmentCost l + of_nat (length (Raw p))\<rparr>
                                       in (case link_Prove env now l of
                                             (l, ev, Some e) \<Rightarrow> (LinkRegistered # ev, Inl e)
                                           | (l, ev, None) \<Rightarrow> (LinkRegistered # ev, Inr l))))))))"

definition updateKeepaliveLocked :: "'a link_scheme \<Rightarrow> 'a link_scheme" where
  "updateKeepaliveLocked l =
     (let keepaliveSeconds = l_rtt l * 360 / LinkKeepaliveMaxRTT;
          keepalive = min (max (to_duration keepaliveSeconds) LinkKeepaliveMin) LinkKeepaliveMax
      in l\<lparr>l_keepalive := keepalive, l_staleTime := LinkStaleFactor * keepalive\<rparr>)"

text \<open>The public key of an identity without keys is nil, and slicing it panics.\<close>

definition verifyProofSignatureLocked :: "curves \<Rightarrow> packet \<Rightarrow> 'a link_scheme \<Rightarrow> bool option" where
  "verifyProofSignatureLocked cs p l =
     (case Option.bind (l_destination l) d_identity of
        None \<Rightarrow> Some False
      | Some i \<Rightarrow>
          if length (Data p) < 64 + 32 then Some False
          else
            (case GetPublicKey i of
               None \<Rightarrow> None
             | Some key \<Rightarrow>
                 let signature = take 64 (Data p);
                     peerPubBytes = go_slice 64 96 (Data p);
                     sigBytes = (if length (Data p) = 64 + 32 + 3 then go_slice 96 (96 + 3) (Data p) else []);
                     peerSigPubBytes = go_slice 32 64 key
                 in Some (identity_Verify cs i signature (l_linkID l @ peerPubBytes @ peerSigPubBytes @ sigBytes))))"

definition establishment_rate :: "'a link_scheme \<Rightarrow> 'a link_scheme" where
  "establishment_rate l =
     (if l_rtt l > 0 \<and> l_establishmentCost l > 0
      then l\<lparr>l_establishmentRate := l_establishmentCost l / l_rtt l\<rparr> else l)"

definition link_ValidateProof ::
  "link_env \<Rightarrow> int \<Rightarrow> nat option \<Rightarrow> packet \<Rightarrow> 'a link_scheme \<Rightarrow> 'a link_scheme \<times> link_event list \<times> link_error option" where
  "link_ValidateProof env now iface p l =
     (if l_status l \<noteq> LinkPending then (l, [], Some NotPending)
      else if length (Data p) < 64 + 32 then (l, [], Some InvalidProofLength)
      else
        (case Option.bind (Option.bind (l_destination l) d_identity) GetPublicKey of
           None \<Rightarrow> (l, [], Some LinkPanic)
         | Some key \<Rightarrow>
             (case LoadPeer (go_slice 64 96 (Data p)) (go_slice 32 64 key) l of
                (l, Some e) \<Rightarrow> (l, [], Some e)
              | (l, None) \<Rightarrow>
                  (case handshake (lv_curves env) l of
                     (l, Some e) \<Rightarrow> (l, [], Some e)
                   | (l, None) \<Rightarrow>
                       if verifyProofSignatureLocked (lv_curves env) p l \<noteq> Some True then (l, [], Some InvalidProofSignature)
                       else
                         let l = l\<lparr>l_attachedInterface := iface, l_status := LinkActive, l_activatedAt := now,
                                   l_rtt := Seconds (time_since now (l_requestTime l)),
                                   l_establishmentCost := l_establishmentCost l + of_nat (length (Raw p))\<rparr>;
                             l = updateKeepaliveLocked (establishment_rate l);
                             rttData = msgpack_Pack (MFloat64 (lv_Float64bits env (l_rtt l)));
                             rttPacket = (link_packet env l rttData)\<lparr>PacketType := PacketData, Context := ContextLrrtt\<rparr>
                         in (case link_send env now rttPacket l of
                               (l, _, ev, Some e) \<Rightarrow> (l, LinkActivated # ev, Some e)
                             | (l, _, ev, None) \<Rightarrow>
                                 (l, LinkActivated # ev @ (if cb_LinkEstablished (l_callbacks l) then [EstablishedCallback] else []), None))))))"

section \<open>Teardown\<close>

definition sendTeardownPacket :: "link_env \<Rightarrow> int \<Rightarrow> 'a link_scheme \<Rightarrow> 'a link_scheme \<times> link_event list" where
  "sendTeardownPacket env now l =
     (if l_linkID l = [] then (l, [])
      else (case link_send env now ((link_packet env l (l_linkID l))\<lparr>Context := ContextLinkClose\<rparr>) l of (l, _, ev, _) \<Rightarrow> (l, ev)))"

definition close_link :: "teardown_reason \<Rightarrow> 'a link_scheme \<Rightarrow> 'a link_scheme \<times> link_event list" where
  "close_link reason l =
     (l\<lparr>l_status := LinkClosed, l_teardownReason := reason\<rparr>,
      (if l_channel l then [ChannelShutdown] else []) @ (if cb_LinkClosed (l_callbacks l) then [ClosedCallback] else []))"

definition teardown :: "teardown_reason \<Rightarrow> 'a link_scheme \<Rightarrow> 'a link_scheme \<times> link_event list" where
  "teardown reason l = (if l_status l = LinkClosed then (l, []) else close_link reason l)"

definition Teardown :: "link_env \<Rightarrow> int \<Rightarrow> 'a link_scheme \<Rightarrow> 'a link_scheme \<times> link_event list" where
  "Teardown env now l =
     (let (l, ev) = (if l_status l \<noteq> LinkPending \<and> l_status l \<noteq> LinkClosed then sendTeardownPacket env now l else (l, [])) in
      case teardown (if l_initiator l then TeardownInitiatorClosed else TeardownDestinationClosed) l of (l, ev') \<Rightarrow> (l, ev @ ev'))"

section \<open>The round-trip packet\<close>

fun numeric_value :: "link_env \<Rightarrow> mvalue \<Rightarrow> rat option" where
  "numeric_value env (MInt i) = Some (of_int (sint i))"
| "numeric_value env (MUint i) = Some (of_nat (unat i))"
| "numeric_value env (MFloat32 f) = Some (lv_Float32frombits env f)"
| "numeric_value env (MFloat64 f) = Some (lv_Float64frombits env f)"
| "numeric_value env _ = None"

definition HandleRTT :: "link_env \<Rightarrow> int \<Rightarrow> packet \<Rightarrow> 'a link_scheme \<Rightarrow> 'a link_scheme \<times> link_event list" where
  "HandleRTT env now p l =
     (if l_status l = LinkHandshake \<or> l_status l = LinkPending then
        let measuredRTT = Seconds (time_since now (l_requestTime l)) in
        (case link_Decrypt l (Data p) of
           Inl e \<Rightarrow> Teardown env now l
         | Inr plaintext \<Rightarrow>
             (case msgpack_Unpack plaintext of
                Inl e \<Rightarrow> Teardown env now l
              | Inr v \<Rightarrow>
                  (case numeric_value env v of
                     None \<Rightarrow> Teardown env now l
                   | Some receivedRTT \<Rightarrow>
                       let l = l\<lparr>l_rtt := max measuredRTT receivedRTT, l_status := LinkActive, l_activatedAt := now,
                                 l_expectedHops := Hops p\<rparr>;
                           l = updateKeepaliveLocked (establishment_rate l)
                       in (l, LinkActivated # (if cb_LinkEstablished (l_callbacks l) then [EstablishedCallback] else [])))))
      else (l, []))"

section \<open>Watchdog\<close>

definition noteProofReceived :: "int \<Rightarrow> 'a link_scheme \<Rightarrow> 'a link_scheme" where
  "noteProofReceived now l = l\<lparr>l_lastProof := now\<rparr>"

definition effectiveLastInbound :: "'a link_scheme \<Rightarrow> int" where
  "effectiveLastInbound l = max (max (l_activatedAt l) (l_lastInbound l)) (l_lastProof l)"

definition sendKeepalive :: "link_env \<Rightarrow> int \<Rightarrow> 'a link_scheme \<Rightarrow> 'a link_scheme \<times> link_event list" where
  "sendKeepalive env now l =
     (case link_send env now ((link_packet env l [0xFF])\<lparr>Context := ContextKeepalive\<rparr>) l of
        (l, _, ev, Some e) \<Rightarrow> (l, ev)
      | (l, _, ev, None) \<Rightarrow> (hadKeepaliveOutbound now l, ev))"

text \<open>One iteration of the watchdog, with the time to sleep until the next.\<close>

definition link_watchdogStep :: "link_env \<Rightarrow> int \<Rightarrow> 'a link_scheme \<Rightarrow> 'a link_scheme \<times> link_event list \<times> int" where
  "link_watchdogStep env now l =
     (if l_status l = LinkClosed then (l, [], 0)
      else if l_status l = LinkPending \<or> l_status l = LinkHandshake then
        (let nextCheck = l_requestTime l + l_establishmentTimeout l in
         if now \<ge> nextCheck then
           (case close_link TeardownTimeout l of (l, ev) \<Rightarrow> (l, ev, 10 ^ 6))
         else (l, [], min (nextCheck - now) LinkWatchdogMaxSleep))
      else if l_status l = LinkActive then
        (let lastInbound = effectiveLastInbound l in
         if now \<ge> lastInbound + l_keepalive l \<or> now \<ge> l_lastOutbound l + l_keepalive l then
           let sending = (l_initiator l \<and> now \<ge> l_lastKeepalive l + l_keepalive l);
               l = (if sending then l\<lparr>l_lastKeepalive := now\<rparr> else l)
           in if now \<ge> lastInbound + l_staleTime l then
                let sleep = to_duration (l_rtt l * l_keepaliveTimeoutFactor l) + LinkStaleGrace;
                    l = l\<lparr>l_status := LinkStale\<rparr>
                in (case (if sending then sendKeepalive env now l else (l, [])) of
                      (l, ev) \<Rightarrow> (l, ev, min sleep LinkWatchdogMaxSleep))
              else
                let sleep = l_keepalive l in
                (case (if sending then sendKeepalive env now l else (l, [])) of
                   (l, ev) \<Rightarrow> (l, ev, min sleep LinkWatchdogMaxSleep))
         else (l, [], min (lastInbound + l_keepalive l - now) LinkWatchdogMaxSleep))
      else if l_status l = LinkStale then
        (case sendTeardownPacket env now l of
           (l, ev) \<Rightarrow>
             if l_status l = LinkClosed then (l, ev, 10 ^ 6)
             else (case close_link TeardownTimeout l of (l, ev') \<Rightarrow> (l, ev @ ev', 10 ^ 6)))
      else (l, [], LinkWatchdogMaxSleep))"

section \<open>Identification and settings\<close>

definition Identify :: "link_env \<Rightarrow> int \<Rightarrow> identity option \<Rightarrow> 'a link_scheme \<Rightarrow> 'a link_scheme \<times> link_event list \<times> link_error option" where
  "Identify env now ident l =
     (if \<not> l_initiator l \<or> l_status l \<noteq> LinkActive then (l, [], Some InvalidIdentifyState)
      else
        (case ident of
           None \<Rightarrow> (l, [], Some NoIdentityKey)
         | Some i \<Rightarrow>
             (case GetPublicKey i of
                None \<Rightarrow> (l, [], Some NoIdentityKey)
              | Some pubKey \<Rightarrow>
                  if pubKey = [] then (l, [], Some NoIdentityKey)
                  else
                    (case identity_Sign (lv_curves env) i (l_linkID l @ pubKey) of
                       Inl e \<Rightarrow> (l, [], Some (LinkIdentity e))
                     | Inr signature \<Rightarrow>
                         (case link_send env now ((link_packet env l (pubKey @ signature))\<lparr>Context := ContextLinkIdentify\<rparr>) l of
                            (l, _, ev, e) \<Rightarrow> (l, ev, e))))))"

definition SetResourceStrategy :: "int \<Rightarrow> 'a link_scheme \<Rightarrow> 'a link_scheme \<times> bool" where
  "SetResourceStrategy strategy l =
     (if strategy \<noteq> AcceptNone \<and> strategy \<noteq> AcceptApp \<and> strategy \<noteq> AcceptAll then (l, False)
      else (l\<lparr>l_resourceStrategy := strategy\<rparr>, True))"

definition GetChannel :: "'a link_scheme \<Rightarrow> 'a link_scheme" where
  "GetChannel l = (if l_channel l then l else l\<lparr>l_channel := True\<rparr>)"

definition SetExpectedHops :: "int \<Rightarrow> 'a link_scheme \<Rightarrow> 'a link_scheme" where
  "SetExpectedHops h l = l\<lparr>l_expectedHops := h\<rparr>"

definition MarkRebalanced :: "int \<Rightarrow> 'a link_scheme \<Rightarrow> 'a link_scheme" where
  "MarkRebalanced now l = (if l_rebalancedAt l = time_zero then l\<lparr>l_rebalancedAt := now\<rparr> else l)"

definition link_when_active :: "('a link_scheme \<Rightarrow> int) \<Rightarrow> 'a link_scheme \<Rightarrow> int option" where
  "link_when_active f l = (if l_status l \<noteq> LinkActive then None else Some (f l))"

definition GetMTU :: "'a link_scheme \<Rightarrow> int option" where "GetMTU = link_when_active l_mtu"

definition GetMDU :: "'a link_scheme \<Rightarrow> int option" where "GetMDU = link_when_active l_mdu"

definition GetAge :: "int \<Rightarrow> 'a link_scheme \<Rightarrow> rat option" where
  "GetAge now l = (if l_activatedAt l = time_zero then None else Some (Seconds (time_since now (l_activatedAt l))))"

definition GetEstablishmentRate :: "'a link_scheme \<Rightarrow> rat option" where
  "GetEstablishmentRate l = (if l_establishmentRate l \<le> 0 then None else Some (l_establishmentRate l * 8))"

definition GetExpectedRate :: "'a link_scheme \<Rightarrow> rat option" where
  "GetExpectedRate l = (if l_expectedRate l \<le> 0 then None else Some (l_expectedRate l))"

definition NoInboundFor :: "int \<Rightarrow> 'a link_scheme \<Rightarrow> int" where "NoInboundFor now l = time_since now (l_lastInbound l)"

definition NoOutboundFor :: "int \<Rightarrow> 'a link_scheme \<Rightarrow> int" where "NoOutboundFor now l = time_since now (l_lastOutbound l)"

definition NoDataFor :: "int \<Rightarrow> 'a link_scheme \<Rightarrow> int" where "NoDataFor now l = time_since now (l_lastData l)"

definition InactiveFor :: "int \<Rightarrow> 'a link_scheme \<Rightarrow> int" where
  "InactiveFor now l = (let i = NoInboundFor now l; out = NoOutboundFor now l in if i < out then i else out)"

section \<open>What sending changes\<close>

text \<open>Sending touches the counters, the activity times and the establishment cost, and nothing else.\<close>

definition bookkept :: "'a link_scheme \<Rightarrow> 'a link_scheme \<Rightarrow> bool" where
  "bookkept l l' \<longleftrightarrow> l'\<lparr>l_lastOutbound := l_lastOutbound l, l_establishmentCost := l_establishmentCost l, l_tx := l_tx l,
     l_txbytes := l_txbytes l, l_lastData := l_lastData l, l_lastKeepalive := l_lastKeepalive l\<rparr> = l"

lemma bookkept_refl [intro]: "bookkept l l"
  by (simp add: bookkept_def)

lemma bookkept_fields:
  assumes "bookkept l l'"
  shows "l_destination l' = l_destination l" "l_initiator l' = l_initiator l" "l_status l' = l_status l" "l_mode l' = l_mode l"
    "l_prv l' = l_prv l" "l_pubBytes l' = l_pubBytes l" "l_sigPrv l' = l_sigPrv l" "l_sigPubBytes l' = l_sigPubBytes l"
    "l_peerPub l' = l_peerPub l" "l_peerSigPub l' = l_peerSigPub l" "l_linkID l' = l_linkID l" "l_token l' = l_token l"
    "l_rtt l' = l_rtt l" "l_mtu l' = l_mtu l" "l_mdu l' = l_mdu l" "l_lastInbound l' = l_lastInbound l"
    "l_activatedAt l' = l_activatedAt l" "l_requestTime l' = l_requestTime l" "l_lastProof l' = l_lastProof l"
    "l_callbacks l' = l_callbacks l" "l_remoteIdentity l' = l_remoteIdentity l" "l_attachedInterface l' = l_attachedInterface l"
    "l_establishmentTimeout l' = l_establishmentTimeout l" "l_keepalive l' = l_keepalive l" "l_staleTime l' = l_staleTime l"
    "l_channel l' = l_channel l" "l_rx l' = l_rx l" "l_trafficTimeoutFactor l' = l_trafficTimeoutFactor l"
    "l_resourceStrategy l' = l_resourceStrategy l" "link.more l' = link.more l" "l_teardownReason l' = l_teardownReason l"
proof -
  obtain lo cost n nb ld lk where "l = l'\<lparr>l_lastOutbound := lo, l_establishmentCost := cost, l_tx := n, l_txbytes := nb,
      l_lastData := ld, l_lastKeepalive := lk\<rparr>"
    using assms unfolding bookkept_def by metis
  then show "l_destination l' = l_destination l" "l_initiator l' = l_initiator l" "l_status l' = l_status l" "l_mode l' = l_mode l"
    "l_prv l' = l_prv l" "l_pubBytes l' = l_pubBytes l" "l_sigPrv l' = l_sigPrv l" "l_sigPubBytes l' = l_sigPubBytes l"
    "l_peerPub l' = l_peerPub l" "l_peerSigPub l' = l_peerSigPub l" "l_linkID l' = l_linkID l" "l_token l' = l_token l"
    "l_rtt l' = l_rtt l" "l_mtu l' = l_mtu l" "l_mdu l' = l_mdu l" "l_lastInbound l' = l_lastInbound l"
    "l_activatedAt l' = l_activatedAt l" "l_requestTime l' = l_requestTime l" "l_lastProof l' = l_lastProof l"
    "l_callbacks l' = l_callbacks l" "l_remoteIdentity l' = l_remoteIdentity l" "l_attachedInterface l' = l_attachedInterface l"
    "l_establishmentTimeout l' = l_establishmentTimeout l" "l_keepalive l' = l_keepalive l" "l_staleTime l' = l_staleTime l"
    "l_channel l' = l_channel l" "l_rx l' = l_rx l" "l_trafficTimeoutFactor l' = l_trafficTimeoutFactor l"
    "l_resourceStrategy l' = l_resourceStrategy l" "link.more l' = link.more l" "l_teardownReason l' = l_teardownReason l"
    by simp_all
qed

lemma bookkept_trans: "bookkept a b \<Longrightarrow> bookkept b c \<Longrightarrow> bookkept a c"
proof -
  let ?set = "\<lambda>(m :: 'a link_scheme) (k :: 'a link_scheme). k\<lparr>l_lastOutbound := l_lastOutbound m, l_establishmentCost := l_establishmentCost m,
    l_tx := l_tx m, l_txbytes := l_txbytes m, l_lastData := l_lastData m, l_lastKeepalive := l_lastKeepalive m\<rparr>"
  assume "bookkept a b" "bookkept b c"
  then have "?set a b = a" "?set b c = b" by (simp_all add: bookkept_def)
  moreover have "?set a (?set b c) = ?set a c" by simp
  ultimately show ?thesis by (simp add: bookkept_def)
qed

lemma bookkept_cost: "bookkept l (accumulateEstablishmentCost p l)"
  by (simp add: bookkept_def accumulateEstablishmentCost_def)

lemma bookkept_record: "bookkept l (recordOutbound now n keepalive l)"
  by (simp add: bookkept_def recordOutbound_def Let_def)

lemma bookkept_outbound: "bookkept l (l\<lparr>l_lastOutbound := now\<rparr>)" "bookkept l (l\<lparr>l_lastKeepalive := now\<rparr>)"
  "bookkept l (hadOutbound now l)" "bookkept l (hadKeepaliveOutbound now l)"
  by (simp_all add: bookkept_def hadOutbound_def hadKeepaliveOutbound_def)

lemma transport_Send_bookkept: "transport_Send env now p l = (l', q, ev, e) \<Longrightarrow> bookkept l l'"
  by (auto simp: transport_Send_def Let_def bookkept_record split: prod.splits send_outcome.splits if_splits option.splits)

lemma link_send_bookkept: "link_send env now p l = (l', q, ev, e) \<Longrightarrow> bookkept l l'"
proof -
  assume send: "link_send env now p l = (l', q, ev, e)"
  let ?l = "l\<lparr>l_lastOutbound := now\<rparr>"
  have "bookkept l (accumulateEstablishmentCost p' ?l)" for p' by (rule bookkept_trans [OF bookkept_outbound(1) bookkept_cost])
  moreover from this have "bookkept l (recordOutbound now n b (accumulateEstablishmentCost p' ?l))" for p' n b
    by (rule bookkept_trans [OF _ bookkept_record])
  ultimately show ?thesis using send bookkept_outbound(1) [of l now]
    by (auto simp: link_send_def Let_def split: prod.splits if_splits option.splits
        dest!: transport_Send_bookkept intro: bookkept_trans)
qed

lemma sendTeardownPacket_bookkept: "sendTeardownPacket env now l = (l', ev) \<Longrightarrow> bookkept l l'"
  by (auto simp: sendTeardownPacket_def split: if_splits prod.splits dest: link_send_bookkept)

lemma sendKeepalive_bookkept: "sendKeepalive env now l = (l', ev) \<Longrightarrow> bookkept l l'"
  by (auto simp: sendKeepalive_def split: prod.splits option.splits dest!: link_send_bookkept intro: bookkept_trans [OF _ bookkept_outbound(4)])

lemma ProvePacket_bookkept: "ProvePacket env now p l = (l', ev) \<Longrightarrow> bookkept l l'"
  by (auto simp: ProvePacket_def Let_def split: prod.splits option.splits dest!: link_send_bookkept intro: bookkept_trans [OF _ bookkept_outbound(3)])

text \<open>Sending never runs a callback.\<close>

fun is_send :: "link_event \<Rightarrow> bool" where
  "is_send (SentVia _ _) = True"
| "is_send (SentOutbound _) = True"
| "is_send _ = False"

lemma link_send_events: "link_send env now p l = (l', q, ev, e) \<Longrightarrow> list_all is_send ev"
  by (auto simp: link_send_def transport_Send_def Let_def split: prod.splits if_splits option.splits send_outcome.splits)

lemma sendTeardownPacket_events: "sendTeardownPacket env now l = (l', ev) \<Longrightarrow> list_all is_send ev"
  by (auto simp: sendTeardownPacket_def split: if_splits prod.splits dest: link_send_events)

lemma sendKeepalive_events: "sendKeepalive env now l = (l', ev) \<Longrightarrow> list_all is_send ev"
  by (auto simp: sendKeepalive_def split: prod.splits option.splits dest!: link_send_events)

section \<open>A concrete link\<close>

text \<open>The surroundings of a working link: interfaces and transport take what they are given, random bytes are there.\<close>

definition benign :: "link_env \<Rightarrow> bool" where
  "benign env \<longleftrightarrow> (\<forall>p. lv_Outbound env p) \<and> (\<forall>i raw. lv_iface_Send env i raw) \<and>
     (\<exists>iv. lv_random env 16 = Some iv) \<and> (\<forall>n r. lv_random env n = Some r \<longrightarrow> length r = n)"

type_synonym key_source = "(nat \<Rightarrow> bytes option) \<times> (nat \<Rightarrow> bytes option)"

definition demo_link_env :: link_env where
  "demo_link_env = \<lparr>lv_curves = demo_curves, lv_LinkMTUDiscovery = True, lv_NextHopInterfaceHWMTU = (\<lambda>_. None), lv_HopsTo = (\<lambda>_. 1),
     lv_FirstHopTimeout = (\<lambda>_. 6 * second), lv_IsBlackholed = (\<lambda>_. False), lv_iface_Send = (\<lambda>_ _. True), lv_Outbound = (\<lambda>_. True),
     lv_random = (\<lambda>n. Some (replicate n 9)), lv_Float64bits = (\<lambda>_. 0), lv_Float64frombits = (\<lambda>_. 0), lv_Float32frombits = (\<lambda>_. 0)\<rparr>"

definition demo_keys :: "byte \<Rightarrow> key_source" where
  "demo_keys b = (\<lambda>n. Some (replicate n b), \<lambda>n. Some (replicate n (b + 1)))"

lemma demo_env_ok [simp]: "benign demo_link_env" "lv_curves demo_link_env = demo_curves"
  by (simp_all add: benign_def demo_link_env_def)

lemma demo_keys_ok [simp]:
  "GenerateX25519PrivateKey (fst (demo_keys b)) = Inr (replicate 32 b)" "GenerateEd25519PrivateKey (snd (demo_keys b)) = Inr (replicate 32 (b + 1))"
  by (simp_all add: demo_keys_def GenerateX25519PrivateKey_def GenerateEd25519PrivateKey_def NewX25519PrivateKeyFromBytes_def
      NewEd25519PrivateKeyFromBytes_def)

definition demo_token :: token where
  "demo_token = \<lparr>signingKey = replicate 32 5, encryptionKey = replicate 32 6, isAES256 = True\<rparr>"

definition demo_link :: link where
  "demo_link = (case NewLink demo_link_env (fst (demo_keys 1)) (snd (demo_keys 1)) None of
     Inr l \<Rightarrow> l\<lparr>l_linkID := replicate 16 7, l_status := LinkActive, l_token := Some demo_token, l_requestTime := 0, l_activatedAt := second,
       l_callbacks := (l_callbacks l)\<lparr>cb_LinkClosed := True, cb_Packet := True\<rparr>\<rparr>)"

lemma demo_link_fields [simp]:
  "l_status demo_link = LinkActive" "l_linkID demo_link = replicate 16 7" "l_token demo_link = Some demo_token" "l_mdu demo_link = link_mdu_of MTU"
  "cb_LinkClosed (l_callbacks demo_link)" "cb_Packet (l_callbacks demo_link)" "effectiveLastInbound demo_link = second"
  "l_keepalive demo_link = 360 * second" "l_staleTime demo_link = 720 * second" "\<not> l_initiator demo_link"
  by (simp_all add: demo_link_def NewLink_def UpdateMDU_def Let_def effectiveLastInbound_def time_zero_def second_def)

lemma demo_token_wf [simp]: "token_wf demo_token"
  by (simp add: demo_token_def token_wf_def)

section \<open>The watchdog closes a silent link\<close>

lemma closed_no_callback: "list_all is_send ev \<Longrightarrow> filter (\<lambda>e. e = ClosedCallback) ev = []"
  by (induction ev) (auto simp: list_all_iff)

text \<open>
  C40: A link that hears nothing is closed. Whatever state a link is in, two watchdog steps at times past its
  establishment timeout (while it is being established) or past its stale time (once it is active) leave it
  closed; the closed callback, when there is one, runs exactly once, and further steps change nothing.
\<close>

theorem silent_link_closes:
  assumes "l_status l \<in> {LinkPending, LinkHandshake, LinkActive, LinkStale}"
    and "l_status l \<in> {LinkPending, LinkHandshake} \<Longrightarrow> t \<ge> l_requestTime l + l_establishmentTimeout l"
    and "l_status l = LinkActive \<Longrightarrow> t \<ge> effectiveLastInbound l + l_staleTime l \<and> l_keepalive l \<le> l_staleTime l"
    and "link_watchdogStep env t l = (l1, ev1, s1)" and "link_watchdogStep env t' l1 = (l2, ev2, s2)"
  shows "l_status l2 = LinkClosed \<and> l_teardownReason l2 = TeardownTimeout
    \<and> filter (\<lambda>e. e = ClosedCallback) (ev1 @ ev2) = (if cb_LinkClosed (l_callbacks l) then [ClosedCallback] else [])
    \<and> link_watchdogStep env t'' l2 = (l2, [], 0)"
proof -
  have closed: "link_watchdogStep env u k = (k, [], 0)" if "l_status k = LinkClosed" for u and k :: "'a link_scheme"
    using that by (simp add: link_watchdogStep_def)
  have stale: "l_status k2 = LinkClosed \<and> l_teardownReason k2 = TeardownTimeout
      \<and> filter (\<lambda>e. e = ClosedCallback) ev = (if cb_LinkClosed (l_callbacks k) then [ClosedCallback] else [])"
    if "l_status k = LinkStale" "link_watchdogStep env u k = (k2, ev, s)" for u s ev and k k2 :: "'a link_scheme"
    using that sendTeardownPacket_bookkept [of env u k] sendTeardownPacket_events [of env u k]
    by (cases "sendTeardownPacket env u k")
      (auto simp: link_watchdogStep_def close_link_def bookkept_fields closed_no_callback split: if_splits)
  consider "l_status l \<in> {LinkPending, LinkHandshake}" | "l_status l = LinkActive" | "l_status l = LinkStale" using assms(1) by auto
  then show ?thesis
  proof cases
    case 1
    then have "(l1, ev1, s1) = (fst (close_link TeardownTimeout l), snd (close_link TeardownTimeout l), 10 ^ 6)"
      using assms(2,4) by (auto simp: link_watchdogStep_def Let_def split: prod.splits)
    then show ?thesis using assms(5) closed by (auto simp: close_link_def)
  next
    case 2
    then have "t \<ge> effectiveLastInbound l + l_keepalive l" "t \<ge> effectiveLastInbound l + l_staleTime l" using assms(3) by auto
    define k where "k = (if l_initiator l \<and> t \<ge> l_lastKeepalive l + l_keepalive l then l\<lparr>l_lastKeepalive := t\<rparr> else l)"
    then have k: "l_callbacks k = l_callbacks l" by simp
    from 2 \<open>t \<ge> effectiveLastInbound l + l_keepalive l\<close> \<open>t \<ge> effectiveLastInbound l + l_staleTime l\<close> assms(4)
    have "(\<exists>ev. sendKeepalive env t (k\<lparr>l_status := LinkStale\<rparr>) = (l1, ev) \<and> ev1 = ev) \<or> (l1 = k\<lparr>l_status := LinkStale\<rparr> \<and> ev1 = [])"
      unfolding link_watchdogStep_def Let_def k_def by (auto split: prod.splits if_splits)
    then have "l_status l1 = LinkStale \<and> l_callbacks l1 = l_callbacks l \<and> list_all is_send ev1"
      using k by (auto dest: sendKeepalive_bookkept sendKeepalive_events simp: bookkept_fields)
    then show ?thesis using stale [OF _ assms(5)] closed [of l2] closed_no_callback [of ev1] by simp
  next
    case 3
    then show ?thesis using stale [OF 3 assms(4)] closed assms(5) by auto
  qed
qed

theorem silent_link_closes_witness:
  "\<exists>l1 ev1 s1 l2 ev2 s2. link_watchdogStep demo_link_env (1000 * second) demo_link = (l1, ev1, s1)
     \<and> link_watchdogStep demo_link_env (1005 * second) l1 = (l2, ev2, s2)
     \<and> l_status l2 = LinkClosed \<and> filter (\<lambda>e. e = ClosedCallback) (ev1 @ ev2) = [ClosedCallback]"
proof -
  obtain l1 ev1 s1 where 1: "link_watchdogStep demo_link_env (1000 * second) demo_link = (l1, ev1, s1)" by (metis prod_cases3)
  obtain l2 ev2 s2 where 2: "link_watchdogStep demo_link_env (1005 * second) l1 = (l2, ev2, s2)" by (metis prod_cases3)
  have "l_status l2 = LinkClosed \<and> filter (\<lambda>e. e = ClosedCallback) (ev1 @ ev2) = [ClosedCallback]"
    using silent_link_closes [OF _ _ _ 1 2] by (simp add: second_def)
  with 1 2 show ?thesis by blast
qed

section \<open>Frames of a link\<close>

lemma should_encrypt_frame [simp]:
  "should_encrypt (p\<lparr>DestinationHash := x\<rparr>) = should_encrypt p" "should_encrypt (p\<lparr>Flags := y\<rparr>) = should_encrypt p"
  by (simp_all add: should_encrypt_def)

lemma Pack_header1_eq:
  assumes "Destination p = Some d" and "HeaderType p = Header1"
    and "if should_encrypt p then dest_encrypt d (Data p) = Some c else c = Data p"
  shows "Pack p = pack_finish ([calculatePackedFlags p, word_of_int (Hops p)] @ dest_hash d)
    (p\<lparr>DestinationHash := dest_hash d, Flags := calculatePackedFlags p, Ciphertext := c\<rparr>)"
  using assms by (cases "should_encrypt p") (simp_all add: Pack_def Let_def)

lemma Pack_fits:
  assumes "Destination p = Some d" and "HeaderType p = Header1"
    and "if should_encrypt p then dest_encrypt d (Data p) = Some c else c = Data p"
    and "int (length (dest_hash d) + length c + 3) \<le> packet_MTU p"
  shows "\<exists>raw h f. Pack p = (p\<lparr>DestinationHash := dest_hash d, Flags := f, Ciphertext := c, Raw := raw, Packed := True, PacketHash := h\<rparr>, None)
    \<and> length raw = length (dest_hash d) + length c + 3 \<and> length raw \<ge> 2"
proof -
  define raw where "raw = [calculatePackedFlags p, word_of_int (Hops p)] @ dest_hash d @ [word_of_int (Context p)] @ c"
  have len: "length raw = length (dest_hash d) + length c + 3" by (simp add: raw_def)
  have "raw \<noteq> []" "\<not> length raw < 2" using len by auto
  then have "Pack p = (p\<lparr>DestinationHash := dest_hash d, Flags := calculatePackedFlags p, Ciphertext := c, Raw := raw, Packed := True,
      PacketHash := FullHash ((hd raw AND 15) # drop 2 raw)\<rparr>, None)"
    using assms(2,4) len unfolding Pack_header1_eq [OF assms(1-3)]
    by (simp add: pack_finish_def raw_def UpdateHash_def packet_GetHash_def GetHashablePart_def packet_consts)
  then show ?thesis using len by (intro exI conjI) (assumption, simp_all)
qed

lemma Pack_too_big:
  assumes "Destination p = Some d" and "HeaderType p = Header1"
    and "if should_encrypt p then dest_encrypt d (Data p) = Some c else c = Data p"
    and "int (length (dest_hash d) + length c + 3) > packet_MTU p"
  shows "\<exists>q. Pack p = (q, Some (ExceedsMTU (length (dest_hash d) + length c + 3) (packet_MTU p)))"
  unfolding Pack_header1_eq [OF assms(1-3)] using assms(4) by (simp add: pack_finish_def)

lemma link_packet_fields [simp]:
  "Destination (link_packet env l data) = Some (link_dest env l)" "HeaderType (link_packet env l data) = Header1"
  "Data (link_packet env l data) = data" "packet_MTU (link_packet env l data) = MTU" "Hops (link_packet env l data) = 0"
  "\<not> Sent (link_packet env l data)" "\<not> Packed (link_packet env l data)" "packet_transport (link_packet env l data)"
  "Receipt (link_packet env l data) = None" "PacketType (link_packet env l data) = PacketData"
  "Context (link_packet env l data) = ContextNone" "DestinationType (link_packet env l data) = DestinationLink"
  "ContextFlag (link_packet env l data) = FlagUnset" "TransportType (link_packet env l data) = 0"
  by (simp_all add: link_packet_def NewPacketWithTransport_def empty_packet_def Let_def link_dest_def)

lemma link_dest_fields [simp]:
  "dest_hash (link_dest env l) = l_linkID l" "dest_type (link_dest env l) = DestinationLink" "dest_transport (link_dest env l)"
  "dest_link_closed (link_dest env l) = Some (l_status l = LinkClosed)"
  by (simp_all add: link_dest_def)

fun event_frame :: "link_event \<Rightarrow> bytes option" where
  "event_frame (SentVia i raw) = Some raw"
| "event_frame (SentOutbound p) = Some (Raw p)"
| "event_frame _ = None"

definition frames :: "link_event list \<Rightarrow> bytes list" where
  "frames ev = List.map_filter event_frame ev"

lemma frames_simps [simp]: "frames [] = []"
  "frames (e # ev) = (case event_frame e of None \<Rightarrow> frames ev | Some r \<Rightarrow> r # frames ev)"
  "frames (ev @ ev') = frames ev @ frames ev'"
  by (simp_all add: frames_def List.map_filter_def split: option.splits)

text \<open>A packet that packs is sent, on the attached interface or through the transport, as its packed frame.\<close>

lemma hashable_part: "length (Raw p) \<ge> 18 \<Longrightarrow> GetHashablePart p \<noteq> None"
  by (auto simp: GetHashablePart_def dstLen_def Let_def)

lemma send_receipt_ok:
  assumes "packet_transport p" and "length (Raw p) \<ge> 18"
  shows "\<exists>r. send_receipt p = (p\<lparr>Receipt := r\<rparr>, SendOutbound)"
proof (cases "CreateReceipt p \<and> Receipt p = None")
  case True
  then obtain r where "new_receipt p = Some r" using hashable_part [OF assms(2)] by (auto simp: new_receipt_def GetTruncatedHash_def)
  with True assms show ?thesis by (auto simp: send_receipt_def send_transport_def)
next
  case False
  with assms show ?thesis by (intro exI [of _ "Receipt p"]) (auto simp: send_receipt_def send_transport_def)
qed

lemma link_send_ok:
  assumes "benign env" and "l_status l \<noteq> LinkClosed" and "packet_transport p" and "\<not> Sent p" and "Hops p = 0"
    and "(if Packed p then (p, None) else Pack p) = (q, None)" and "packet_transport q" and "\<not> Sent q" and "Hops q = 0"
    and "Packed q" and "length (Raw q) \<ge> 18" and "Destination q = Some d" and "dest_link_closed d \<noteq> Some True"
  shows "\<exists>l' q' ev. link_send env now p l = (l', q', [ev], None) \<and> event_frame ev = Some (Raw q) \<and> bookkept l l'"
proof -
  have "\<exists>l' q' ev. link_send env now p l = (l', q', [ev], None) \<and> event_frame ev = Some (Raw q)"
  proof (cases "l_attachedInterface l")
    case (Some i)
    then show ?thesis using assms
      by (simp add: link_send_def Let_def benign_def accumulateEstablishmentCost_def)
  next
    case None
    obtain r where "send_receipt q = (q\<lparr>Receipt := r\<rparr>, SendOutbound)" using send_receipt_ok assms(7,11) by blast
    then have "\<exists>counted. packet_Send q = (q\<lparr>Receipt := r\<rparr>, SendOutbound, counted)"
      using assms(8,9,10,12,13) by (cases "dest_link_closed d") (auto simp: packet_Send_def PathfinderM_def)
    then show ?thesis using None assms
      by (auto simp: link_send_def Let_def transport_Send_def benign_def accumulateEstablishmentCost_def)
  qed
  then show ?thesis using link_send_bookkept by blast
qed

lemma link_send_packet:
  assumes "benign env" and "l_status l \<noteq> LinkClosed" and "length (l_linkID l) = 16"
    and p: "p = (link_packet env l data)\<lparr>PacketType := ty, Context := c\<rparr>"
    and "if should_encrypt p then link_Encrypt (lv_random env) l data = Inr ct else ct = data"
    and "length ct \<le> 481" and "ty \<in> {0, 1, 2, 3}" and "0 \<le> c" and "c < 256"
  shows "\<exists>l' q' ev u. link_send env now p l = (l', q', [ev], None) \<and> bookkept l l' \<and>
    (\<exists>raw. event_frame ev = Some raw \<and> Unpack (NewPacketFromRaw raw) = (u, None)
       \<and> Data u = ct \<and> Context u = c \<and> PacketType u = ty \<and> DestinationHash u = l_linkID l \<and> DestinationType u = DestinationLink)"
proof -
  have d: "Destination p = Some (link_dest env l)" "HeaderType p = Header1" "packet_MTU p = 500" "Data p = data"
    "packet_transport p" "\<not> Sent p" "Hops p = 0" "\<not> Packed p" using p by (simp_all add: MTU_def)
  have "if should_encrypt p then dest_encrypt (link_dest env l) (Data p) = Some ct else ct = Data p"
    using assms(5) p by (simp add: link_dest_def)
  then obtain raw h f where q: "Pack p = (p\<lparr>DestinationHash := l_linkID l, Flags := f, Ciphertext := ct, Raw := raw, Packed := True, PacketHash := h\<rparr>, None)"
      "length raw = 16 + length ct + 3"
    using Pack_fits [OF d(1,2), of ct] d(3) assms(3,6) by (auto simp del: split_paired_Ex)
  let ?q = "p\<lparr>DestinationHash := l_linkID l, Flags := f, Ciphertext := ct, Raw := raw, Packed := True, PacketHash := h\<rparr>"
  have "packet_wf (link_dest env l) p" using p assms(3,7-9)
    by (auto simp: packet_wf_def packet_consts dstLen_def PathfinderM_def)
  from unpack_of_pack [OF this q(1)] obtain u where "Unpack (NewPacketFromRaw raw) = (u, None)" "Data u = ct" "Context u = c"
      "PacketType u = ty" "DestinationHash u = l_linkID l" "DestinationType u = DestinationLink"
    using p by (auto split: if_splits)
  moreover have "\<exists>l' q' ev. link_send env now p l = (l', q', [ev], None) \<and> event_frame ev = Some (Raw ?q) \<and> bookkept l l'"
    using d q assms(1,2) by (intro link_send_ok) auto
  ultimately show ?thesis by auto
qed

section \<open>The MDU\<close>

lemma link_Encrypt_length:
  assumes "l_token l = Some t" and "token_wf t" and "rt 16 = Some iv" and "length iv = 16"
  shows "\<exists>ct. link_Encrypt rt l data = Inr ct \<and> length ct = 48 + (length data div 16 + 1) * 16"
  using assms TokenEncrypt_form [of t rt iv data] by (auto simp: link_Encrypt_def)

lemma mdu_value: "link_mdu_of MTU = 431"
  by (simp add: link_mdu_of_def MTU_def)

text \<open>
  The MDU of a link is exact. On a working link whose MDU was computed from the MTU of packets, a
  data packet is sent if and only if its payload is at most the MDU (431 bytes) long: the padded and
  authenticated ciphertext of the MDU still fits the MTU, and one more byte does not.
\<close>

theorem link_mdu_exact:
  assumes "benign env" and "l_status l \<noteq> LinkClosed" and "length (l_linkID l) = 16" and "l_token l = Some t" and "token_wf t"
    and "l_mdu l = link_mdu_of MTU"
  shows "snd (snd (snd (link_send env now (link_packet env l data) l))) = None \<longleftrightarrow> int (length data) \<le> l_mdu l"
proof -
  let ?p = "link_packet env l data"
  obtain iv where iv: "lv_random env 16 = Some iv" "length iv = 16" using assms(1) by (auto simp: benign_def)
  obtain ct where ct: "link_Encrypt (lv_random env) l data = Inr ct" "length ct = 48 + (length data div 16 + 1) * 16"
    using link_Encrypt_length [where rt = "lv_random env"] assms(4,5) iv by blast
  have enc: "should_encrypt ?p" by (simp add: should_encrypt_def packet_consts)
  have p: "?p = ?p\<lparr>PacketType := PacketData, Context := ContextNone\<rparr>" by (rule packet.equality) simp_all
  show ?thesis
  proof (cases "length data \<le> 431")
    case True
    then have "length data div 16 \<le> 26" by simp
    then have "length ct \<le> 481" using ct by simp
    then have "snd (snd (snd (link_send env now ?p l))) = None"
      using link_send_packet [OF assms(1-3) p, of ct now] enc ct(1) by (auto simp: packet_consts)
    with True show ?thesis using assms(6) mdu_value by simp
  next
    case False
    then have "length data div 16 \<ge> 27" by simp
    then have "int (length (dest_hash (link_dest env l)) + length ct + 3) > packet_MTU ?p" using ct assms(3) by (simp add: MTU_def)
    moreover have "dest_encrypt (link_dest env l) (Data ?p) = Some ct" using ct by (simp add: link_dest_def)
    ultimately obtain q e where "Pack ?p = (q, Some e)" using Pack_too_big [of ?p "link_dest env l" ct] enc by auto
    then have "snd (snd (snd (link_send env now ?p l))) \<noteq> None" using assms(2) by (simp add: link_send_def Let_def)
    with False show ?thesis using assms(6) mdu_value by simp
  qed
qed

theorem link_mdu_exact_witness:
  "snd (snd (snd (link_send demo_link_env 0 (link_packet demo_link_env demo_link (replicate 431 0)) demo_link))) = None
   \<and> snd (snd (snd (link_send demo_link_env 0 (link_packet demo_link_env demo_link (replicate 432 0)) demo_link))) \<noteq> None"
  using link_mdu_exact [of demo_link_env demo_link demo_token 0 "replicate 431 0"] link_mdu_exact [of demo_link_env demo_link demo_token 0 "replicate 432 0"]
  by (simp add: mdu_value)

end
