(* ===== verification/Resource.thy ===== *)
theory Resource
  imports Link Buffer
begin

text \<open>
  Resources (\<^verbatim>\<open>rns/resource.go\<close>): transfers of arbitrary amounts of data over a link. The sender encrypts the
  data, cuts it into parts and advertises them by their map hashes; the receiver requests parts window by
  window, assembles, decrypts and verifies them and proves the transfer.

  An operation takes the link and the resource and returns both, with its effects and its error. A goroutine
  that an operation starts is a \<open>job\<close> among the effects. The bzip2 codec is an argument, as in \<open>Buffer\<close>. The
  pending next segment, which no code ever sets, is left out, as are the part fields \<^verbatim>\<open>Hash\<close> (never set) and
  \<^verbatim>\<open>Index\<close> (the position). A nil byte slice is the empty one where the code does not distinguish them.
\<close>

section \<open>Constants and states\<close>

abbreviation (input) ResourceMapHashLen :: nat where "ResourceMapHashLen \<equiv> 4"
abbreviation (input) ResourceRandomHashSize :: nat where "ResourceRandomHashSize \<equiv> 4"
abbreviation (input) ResourceMaxParts :: int where "ResourceMaxParts \<equiv> 10000000"
abbreviation (input) hashmapMaxLen :: nat where "hashmapMaxLen \<equiv> 74"
abbreviation (input) resourceWindowMax :: nat where "resourceWindowMax \<equiv> 75"
abbreviation (input) collisionGuardSize :: nat where "collisionGuardSize \<equiv> 2 * resourceWindowMax + hashmapMaxLen"

text \<open>The declared order of the states is that of their codes.\<close>

datatype resource_status =
    ResourceStatusNone
  | ResourceStatusQueued
  | ResourceStatusAdvertised
  | ResourceStatusTransferring
  | ResourceStatusAwaitingProof
  | ResourceStatusAssembling
  | ResourceStatusComplete
  | ResourceStatusFailed
  | ResourceStatusCorrupt
  | ResourceStatusRejected

fun status_code :: "resource_status \<Rightarrow> nat" where
  "status_code ResourceStatusNone = 0x00"
| "status_code ResourceStatusQueued = 0x01"
| "status_code ResourceStatusAdvertised = 0x02"
| "status_code ResourceStatusTransferring = 0x03"
| "status_code ResourceStatusAwaitingProof = 0x04"
| "status_code ResourceStatusAssembling = 0x05"
| "status_code ResourceStatusComplete = 0x06"
| "status_code ResourceStatusFailed = 0x07"
| "status_code ResourceStatusCorrupt = 0x08"
| "status_code ResourceStatusRejected = 0x09"

instantiation resource_status :: linorder
begin

definition less_eq_resource_status :: "resource_status \<Rightarrow> resource_status \<Rightarrow> bool" where
  "less_eq_resource_status a b = (status_code a \<le> status_code b)"

definition less_resource_status :: "resource_status \<Rightarrow> resource_status \<Rightarrow> bool" where
  "less_resource_status a b = (status_code a < status_code b)"

instance
proof
  fix a b c :: resource_status
  show "a < b \<longleftrightarrow> a \<le> b \<and> \<not> b \<le> a" by (auto simp: less_eq_resource_status_def less_resource_status_def)
  show "a \<le> a" by (simp add: less_eq_resource_status_def)
  show "a \<le> b \<Longrightarrow> b \<le> c \<Longrightarrow> a \<le> c" by (simp add: less_eq_resource_status_def)
  show "a \<le> b \<Longrightarrow> b \<le> a \<Longrightarrow> a = b" by (cases a; cases b) (simp_all add: less_eq_resource_status_def)
  show "a \<le> b \<or> b \<le> a" by (auto simp: less_eq_resource_status_def)
qed

end

lemmas status_order = less_eq_resource_status_def less_resource_status_def

datatype resource_error =
    LinkNotActive
  | CompressFailed
  | MetadataTooBig
  | NoRandomHash
  | StreamEncryptFailed
  | TransferFailed
  | NoResumeHash
  | ResourceSend link_error
  | HmuTooShort
  | HmuUnpack mp_error
  | HmuMalformed
  | EmptyHashmapUpdate
  | InvalidResourceRequest
  | ResourceRequestTooShort
  | ResourceHashMismatch
  | SequencingError
  | EmptyHmuSegment
  | AdvertisementUnpack mp_error
  | InvalidAdvertisement
  | FieldNotBytes string
  | PartCountOutOfRange int
  | PartCountExceedsSize int int

section \<open>Advertisements\<close>

record advertisement =
  adv_T :: int
  adv_D :: int
  adv_N :: int
  adv_H :: bytes
  adv_R :: bytes
  adv_O :: bytes
  adv_I :: int
  adv_L :: int
  adv_Q :: bytes
  adv_M :: bytes
  adv_Encrypted :: bool
  adv_Compressed :: bool
  adv_Split :: bool
  adv_IsRequest :: bool
  adv_IsResponse :: bool
  adv_HasMetadata :: bool

definition adv_flags :: "advertisement \<Rightarrow> byte" where
  "adv_flags adv =
     (if adv_Encrypted adv then 0x01 else 0) OR (if adv_Compressed adv then 0x02 else 0) OR
     (if adv_Split adv then 0x04 else 0) OR (if adv_IsRequest adv then 0x08 else 0) OR
     (if adv_IsResponse adv then 0x10 else 0) OR (if adv_HasMetadata adv then 0x20 else 0)"

definition adv_entries :: "advertisement \<Rightarrow> (mvalue \<times> mvalue) list" where
  "adv_entries adv =
     [(MStr (utf8 ''t''), MInt (word_of_int (adv_T adv))), (MStr (utf8 ''d''), MInt (word_of_int (adv_D adv))),
      (MStr (utf8 ''n''), MInt (word_of_int (adv_N adv))), (MStr (utf8 ''h''), MBin (adv_H adv)),
      (MStr (utf8 ''r''), MBin (adv_R adv)), (MStr (utf8 ''o''), MBin (adv_O adv)),
      (MStr (utf8 ''i''), MInt (word_of_int (adv_I adv))), (MStr (utf8 ''l''), MInt (word_of_int (adv_L adv))),
      (MStr (utf8 ''q''), MBin (adv_Q adv)), (MStr (utf8 ''f''), MUint (ucast (adv_flags adv))), (MStr (utf8 ''m''), MBin (adv_M adv))]"

text \<open>\<open>order\<close> arranges the entries in the order in which Go iterates over the map.\<close>

definition adv_Pack :: "((mvalue \<times> mvalue) list \<Rightarrow> (mvalue \<times> mvalue) list) \<Rightarrow> advertisement \<Rightarrow> bytes" where
  "adv_Pack order adv = msgpack_Pack (MMap (order (adv_entries adv)))"

fun toInt64 :: "mvalue \<Rightarrow> int option" where
  "toInt64 (MInt i) = Some (sint i)"
| "toInt64 (MUint i) = Some (sint i)"
| "toInt64 _ = None"

definition get_int :: "string \<Rightarrow> (mvalue \<times> mvalue) list \<Rightarrow> int" where
  "get_int key m = (case Option.bind (map_get (utf8 key) m) toInt64 of None \<Rightarrow> 0 | Some n \<Rightarrow> n)"

definition getBytes :: "string \<Rightarrow> (mvalue \<times> mvalue) list \<Rightarrow> resource_error + bytes" where
  "getBytes key m =
     (case map_get (utf8 key) m of
        None \<Rightarrow> Inr []
      | Some MNil \<Rightarrow> Inr []
      | Some (MBin b) \<Rightarrow> Inr b
      | Some _ \<Rightarrow> Inl (FieldNotBytes key))"

definition bind_sum :: "'e + 'a \<Rightarrow> ('a \<Rightarrow> 'e + 'b) \<Rightarrow> 'e + 'b" where
  "bind_sum x f = (case x of Inl e \<Rightarrow> Inl e | Inr a \<Rightarrow> f a)"

definition UnpackResourceAdvertisement :: "bytes \<Rightarrow> resource_error + advertisement" where
  "UnpackResourceAdvertisement data =
     (case msgpack_Unpack data of
        Inl e \<Rightarrow> Inl (AdvertisementUnpack e)
      | Inr (MMap m) \<Rightarrow>
          bind_sum (getBytes ''h'' m) (\<lambda>h. bind_sum (getBytes ''r'' m) (\<lambda>r. bind_sum (getBytes ''o'' m) (\<lambda>orig.
          bind_sum (getBytes ''q'' m) (\<lambda>q. bind_sum (getBytes ''m'' m) (\<lambda>hm.
            let f = (word_of_int (get_int ''f'' m) :: byte);
                adv = \<lparr>adv_T = get_int ''t'' m, adv_D = get_int ''d'' m, adv_N = get_int ''n'' m, adv_H = h, adv_R = r, adv_O = orig,
                       adv_I = get_int ''i'' m, adv_L = get_int ''l'' m, adv_Q = q, adv_M = hm,
                       adv_Encrypted = (f AND 0x01 \<noteq> 0), adv_Compressed = (f AND 0x02 \<noteq> 0), adv_Split = (f AND 0x04 \<noteq> 0),
                       adv_IsRequest = (f AND 0x08 \<noteq> 0), adv_IsResponse = (f AND 0x10 \<noteq> 0), adv_HasMetadata = (f AND 0x20 \<noteq> 0)\<rparr>
            in if adv_N adv < 0 \<or> adv_N adv > ResourceMaxParts then Inl (PartCountOutOfRange (adv_N adv))
               else if adv_T adv > 0 \<and> adv_N adv > adv_T adv then Inl (PartCountExceedsSize (adv_N adv) (adv_T adv))
               else Inr adv)))))
      | Inr _ \<Rightarrow> Inl InvalidAdvertisement)"

section \<open>The resource\<close>

record resource_part =
  part_Data :: bytes
  part_ReceivedData :: "bytes option"
  part_MapHash :: bytes
  part_Sent :: bool

record resource_options =
  ro_AutoCompress :: bool
  ro_AutoCompressLimit :: int
  ro_Metadata :: "(bytes \<times> bytes) list"

record resource =
  r_initiator :: bool
  r_data :: bytes
  r_hash :: bytes
  r_expectedProof :: bytes
  r_randomHash :: bytes
  r_originalHash :: bytes
  r_status :: resource_status
  r_size :: int
  r_totalSize :: int
  r_uncompressedSize :: int
  r_parts :: "resource_part list"
  r_hashmap :: "bytes option list"
  r_totalParts :: nat
  r_receivedCount :: nat
  r_hashmapHeight :: nat
  r_consecutiveCompletedHeight :: int
  r_window :: int
  r_receiverMinConsecutiveHeight :: nat
  r_windowMax :: int
  r_windowMin :: int
  r_windowFlexibility :: int
  r_lastActivity :: int
  r_startedTransferring :: int
  r_advSent :: int
  r_lastPartSent :: int
  r_maxRetries :: int
  r_maxAdvRetries :: int
  r_retriesLeft :: int
  r_timeoutFactor :: rat
  r_timeout :: rat
  r_partTimeoutFactor :: rat
  r_senderGraceTime :: rat
  r_sdu :: int
  r_outstandingParts :: int
  r_waitingForHmu :: bool
  r_reqRespRttRate :: rat
  r_reqDataRttRate :: rat
  r_rtt :: "rat option"
  r_eifr :: "rat option"
  r_previousEifr :: "rat option"
  r_callback :: bool
  r_progressCallback :: bool
  r_requestID :: "bytes option"
  r_isResponse :: bool
  r_encrypted :: bool
  r_compressed :: bool
  r_sentParts :: nat
  r_metadata :: "(bytes \<times> bytes) list"
  r_hasMetadata :: bool
  r_maxDecompressedSize :: int
  r_assemblyLock :: bool

datatype resource_event =
    OnLink link_event
  | ProgressCallback
  | ConcludedCallback
  | StartedCallback
  | JobAssemble
  | JobRequestNext
  | CacheRequested bytes
  | RemovedFromLink

text \<open>\<^verbatim>\<open>NewPacket(link, data)\<close> with a context, sent with \<^verbatim>\<open>Packet.Send\<close>.\<close>

definition resource_send ::
  "link_env \<Rightarrow> int \<Rightarrow> int \<Rightarrow> int \<Rightarrow> bytes \<Rightarrow> 'a link_scheme \<Rightarrow> 'a link_scheme \<times> resource_event list \<times> resource_error option" where
  "resource_send env now ty ctx data l =
     (case transport_Send env now ((link_packet env l data)\<lparr>PacketType := ty, Context := ctx\<rparr>) l of
        (l, _, ev, e) \<Rightarrow> (l, map OnLink ev, map_option ResourceSend e))"

definition getMapHash :: "bytes \<Rightarrow> bytes \<Rightarrow> bytes" where
  "getMapHash randomHash data = take ResourceMapHashLen (FullHash (data @ randomHash))"

definition resource_sdu :: "'a link_scheme \<Rightarrow> int" where
  "resource_sdu l =
     (let sdu = (if l_mtu l \<noteq> 0 then l_mtu l - HeaderMaxSize - IFACMinSize else l_mdu l) in if sdu \<le> 0 then 431 else sdu)"

text \<open>The three-byte length and the packed metadata.\<close>

definition metadata_prefix :: "(bytes \<times> bytes) list \<Rightarrow> resource_error + bytes" where
  "metadata_prefix meta =
     (if meta = [] then Inr []
      else
        let packed = msgpack_Pack (MMap (map (\<lambda>e. (MStr (fst e), MBin (snd e))) meta)) in
        if length packed > 0xFFFFFF then Inl MetadataTooBig else Inr (be_enc 3 (length packed) @ packed))"

definition initial_resource :: "'a link_scheme \<Rightarrow> resource" where
  "initial_resource l =
     \<lparr>r_initiator = False, r_data = [], r_hash = [], r_expectedProof = [], r_randomHash = [], r_originalHash = [],
      r_status = ResourceStatusNone, r_size = 0, r_totalSize = 0, r_uncompressedSize = 0, r_parts = [], r_hashmap = [], r_totalParts = 0,
      r_receivedCount = 0, r_hashmapHeight = 0, r_consecutiveCompletedHeight = 0, r_window = 4, r_receiverMinConsecutiveHeight = 0,
      r_windowMax = 10, r_windowMin = 2, r_windowFlexibility = 4, r_lastActivity = time_zero, r_startedTransferring = time_zero,
      r_advSent = time_zero, r_lastPartSent = time_zero, r_maxRetries = 16, r_maxAdvRetries = 4, r_retriesLeft = 16,
      r_timeoutFactor = l_trafficTimeoutFactor l, r_timeout = l_rtt l * l_trafficTimeoutFactor l, r_partTimeoutFactor = 4,
      r_senderGraceTime = 10, r_sdu = 0, r_outstandingParts = 0, r_waitingForHmu = False, r_reqRespRttRate = 0, r_reqDataRttRate = 0,
      r_rtt = None, r_eifr = None, r_previousEifr = None, r_callback = False, r_progressCallback = False, r_requestID = None,
      r_isResponse = False, r_encrypted = False, r_compressed = False, r_sentParts = 0, r_metadata = [], r_hasMetadata = False,
      r_maxDecompressedSize = 0, r_assemblyLock = False\<rparr>"

text \<open>Cutting the stream into parts of \<open>sdu\<close> bytes, the last one shorter.\<close>

definition cut_parts :: "bytes \<Rightarrow> nat \<Rightarrow> bytes \<Rightarrow> resource_part list" where
  "cut_parts randomHash sdu data =
     map (\<lambda>i. let d = go_slice (i * sdu) (min ((i + 1) * sdu) (length data)) data
              in \<lparr>part_Data = d, part_ReceivedData = None, part_MapHash = getMapHash randomHash d, part_Sent = False\<rparr>)
         [0..<(length data + sdu - 1) div sdu]"

definition newResourceWithOptions ::
  "link_env \<Rightarrow> (bytes \<Rightarrow> bytes option) \<Rightarrow> (nat \<Rightarrow> bytes option) \<Rightarrow> bytes \<Rightarrow> 'a link_scheme \<Rightarrow> resource_options \<Rightarrow> resource_error + resource" where
  "newResourceWithOptions env compress randRead data l opts =
     (if l_status l \<noteq> LinkActive then Inl LinkNotActive
      else
        let limit = (if ro_AutoCompressLimit opts \<le> 0 then ResourceAutoCompressMaxSize else ro_AutoCompressLimit opts) in
        bind_sum (if ro_AutoCompress opts \<and> int (length data) \<le> limit then
                    (case compress data of
                       None \<Rightarrow> Inl CompressFailed
                     | Some c \<Rightarrow> if length c < length data then Inr (c, True) else Inr (data, False))
                  else Inr (data, False)) (\<lambda>(payload, compressed).
        bind_sum (metadata_prefix (ro_Metadata opts)) (\<lambda>metadataBytes.
          (case randRead ResourceRandomHashSize of
             None \<Rightarrow> Inl NoRandomHash
           | Some randomHash \<Rightarrow>
               let fullUncompressed = metadataBytes @ data;
                   hash = FullHash (fullUncompressed @ randomHash);
                   resourcePlaintext = randomHash @ metadataBytes @ payload
               in (case link_Encrypt (lv_random env) l resourcePlaintext of
                     Inl e \<Rightarrow> Inl StreamEncryptFailed
                   | Inr stream \<Rightarrow>
                       let sdu = resource_sdu l; parts = cut_parts randomHash (nat sdu) stream in
                       Inr ((initial_resource l)
                         \<lparr>r_initiator := True, r_status := ResourceStatusQueued, r_metadata := ro_Metadata opts, r_data := stream,
                          r_uncompressedSize := int (length data),
                          r_totalSize := (if ro_Metadata opts = [] then int (length data) else int (length metadataBytes) + int (length payload)),
                          r_compressed := compressed, r_randomHash := randomHash, r_hash := hash,
                          r_expectedProof := FullHash (fullUncompressed @ hash), r_originalHash := hash, r_encrypted := True,
                          r_size := int (length stream), r_sdu := sdu, r_totalParts := length parts, r_parts := parts,
                          r_hashmap := map (\<lambda>p. Some (part_MapHash p)) parts\<rparr>))))))"

section \<open>Advertising\<close>

definition hashmapSegment :: "bytes option list \<Rightarrow> nat \<Rightarrow> bytes option list" where
  "hashmapSegment hashmap segment =
     (let start = segment * hashmapMaxLen in
      if start \<ge> length hashmap then [] else go_slice start (min ((segment + 1) * hashmapMaxLen) (length hashmap)) hashmap)"

definition flat_hashes :: "bytes option list \<Rightarrow> bytes" where
  "flat_hashes hs = concat (map (\<lambda>h. case h of None \<Rightarrow> [] | Some b \<Rightarrow> b) hs)"

definition advertisement_of :: "resource \<Rightarrow> advertisement" where
  "advertisement_of r =
     \<lparr>adv_T = r_size r, adv_D = r_uncompressedSize r, adv_N = int (r_totalParts r), adv_H = r_hash r, adv_R = r_randomHash r,
      adv_O = r_originalHash r, adv_I = 1, adv_L = 1, adv_Q = (case r_requestID r of None \<Rightarrow> [] | Some q \<Rightarrow> q),
      adv_M = flat_hashes (hashmapSegment (r_hashmap r) 0), adv_Encrypted = r_encrypted r, adv_Compressed = r_compressed r,
      adv_Split = False, adv_IsRequest = (r_requestID r \<noteq> None \<and> \<not> r_isResponse r),
      adv_IsResponse = (r_requestID r \<noteq> None \<and> r_isResponse r), adv_HasMetadata = (r_metadata r \<noteq> [])\<rparr>"

definition buildAdvertisementPacket :: "link_env \<Rightarrow> ((mvalue \<times> mvalue) list \<Rightarrow> (mvalue \<times> mvalue) list) \<Rightarrow> 'a link_scheme \<Rightarrow> resource \<Rightarrow> packet" where
  "buildAdvertisementPacket env order l r =
     (link_packet env l (adv_Pack order (advertisement_of r)))\<lparr>PacketType := PacketData, Context := ContextResourceAdv\<rparr>"

text \<open>The resource joins the link's outgoing resources before its advertisement is sent, and the watchdog starts after.\<close>

definition Advertise ::
  "link_env \<Rightarrow> ((mvalue \<times> mvalue) list \<Rightarrow> (mvalue \<times> mvalue) list) \<Rightarrow> int \<Rightarrow> 'a link_scheme \<Rightarrow> resource
     \<Rightarrow> 'a link_scheme \<times> resource \<times> resource_event list \<times> resource_error option" where
  "Advertise env order now l r =
     (let r' = r\<lparr>r_lastActivity := now, r_startedTransferring := now, r_advSent := now, r_status := ResourceStatusAdvertised,
                 r_retriesLeft := r_maxAdvRetries r\<rparr>
      in (case transport_Send env now (buildAdvertisementPacket env order l r) l of
            (l, _, ev, e) \<Rightarrow> (l, r', map OnLink ev, map_option ResourceSend e)))"

section \<open>Requesting parts\<close>

text \<open>
  The scan over one window: the hashes of the missing parts up to the first unknown one, and whether there was
  an unknown one. The bound on the number of requested parts is the length of the window.
\<close>

fun wanted :: "resource_part list \<Rightarrow> bytes option list \<Rightarrow> bytes list \<times> bool" where
  "wanted [] hs = ([], False)"
| "wanted (p # ps) hs =
     (if part_ReceivedData p = None then
        (case hs of
           Some h # hs' \<Rightarrow> if length h = ResourceMapHashLen then (case wanted ps hs' of (w, e) \<Rightarrow> (h # w, e)) else ([], True)
         | _ \<Rightarrow> ([], True))
      else wanted ps (drop 1 hs))"

definition requestNextLockedAt ::
  "link_env \<Rightarrow> int \<Rightarrow> 'a link_scheme \<Rightarrow> resource \<Rightarrow> 'a link_scheme \<times> resource \<times> resource_event list \<times> resource_error option" where
  "requestNextLockedAt env now l r =
     (if r_status r = ResourceStatusFailed then (l, r, [], Some TransferFailed)
      else if r_initiator r \<or> r_receivedCount r \<ge> r_totalParts r \<or> r_waitingForHmu r then (l, r, [], None)
      else
        let start = nat (max (r_consecutiveCompletedHeight r + 1) 0);
            (hashes, hashmapExhausted) = wanted (take (nat (r_window r)) (drop start (r_parts r))) (drop start (r_hashmap r));
            r = r\<lparr>r_outstandingParts := int (length hashes)\<rparr>
        in if hashes = [] \<and> \<not> hashmapExhausted then (l, r, [], None)
           else
             let lastKnown = (if r_hashmapHeight r < 1 \<or> r_hashmapHeight r > length (r_hashmap r) then None
                              else case r_hashmap r ! (r_hashmapHeight r - 1) of
                                     None \<Rightarrow> None
                                   | Some h \<Rightarrow> if length h = ResourceMapHashLen then Some h else None)
             in if hashmapExhausted \<and> lastKnown = None then (l, r, [], Some NoResumeHash)
                else
                  let r = (if hashmapExhausted then r\<lparr>r_waitingForHmu := True\<rparr> else r);
                      requestData = (if hashmapExhausted then 0xFF # the lastKnown else [0x00]) @ r_hash r @ concat hashes
                  in (case resource_send env now PacketData ContextResourceReq requestData l of
                        (l, ev, Some e) \<Rightarrow> (l, r\<lparr>r_waitingForHmu := False\<rparr>, ev, Some e)
                      | (l, ev, None) \<Rightarrow> (l, r\<lparr>r_lastActivity := now\<rparr>, ev, None)))"

section \<open>Accepting an advertisement\<close>

text \<open>The four-byte groups of a byte string; a shorter rest is dropped.\<close>

function chunks4 :: "bytes \<Rightarrow> bytes list" where
  "chunks4 bs = (if length bs < 4 then [] else take 4 bs # chunks4 (drop 4 bs))"
  by pat_completeness auto
termination by (relation "measure length") auto

declare chunks4.simps [simp del]

definition accepted_resource :: "int \<Rightarrow> bool \<Rightarrow> bool \<Rightarrow> advertisement \<Rightarrow> 'a link_scheme \<Rightarrow> resource" where
  "accepted_resource now cb pcb adv l =
     (let n = nat (adv_N adv);
          known = take n (chunks4 (adv_M adv))
      in (initial_resource l)
           \<lparr>r_status := ResourceStatusTransferring, r_size := adv_T adv, r_uncompressedSize := adv_D adv, r_totalSize := adv_D adv,
            r_hash := adv_H adv, r_randomHash := adv_R adv, r_originalHash := adv_O adv, r_totalParts := n, r_callback := cb,
            r_progressCallback := pcb, r_requestID := (if adv_Q adv = [] then None else Some (adv_Q adv)), r_isResponse := adv_IsResponse adv,
            r_encrypted := adv_Encrypted adv, r_compressed := adv_Compressed adv, r_lastActivity := now, r_hasMetadata := adv_HasMetadata adv,
            r_consecutiveCompletedHeight := -1, r_startedTransferring := now,
            r_sdu := (if l_mtu l \<noteq> 0 then l_mtu l - HeaderMaxSize - IFACMinSize else if l_mdu l > 0 then l_mdu l else 431),
            r_parts := map (\<lambda>i. \<lparr>part_Data = [], part_ReceivedData = None,
                          part_MapHash = (if i < length known then known ! i else []), part_Sent = False\<rparr>) [0..<n],
            r_hashmap := map Some known @ replicate (n - length known) None,
            r_hashmapHeight := length known\<rparr>)"

text \<open>
  \<^verbatim>\<open>Accept\<close>, given the link's incoming resources: the result is the position of the one that has the advertised
  hash, or a new resource, which joins the incoming ones and requests its first parts.
\<close>

definition Accept ::
  "link_env \<Rightarrow> int \<Rightarrow> bytes \<Rightarrow> bool \<Rightarrow> bool \<Rightarrow> bool \<Rightarrow> 'a link_scheme \<Rightarrow> resource list
     \<Rightarrow> 'a link_scheme \<times> resource_event list \<times> (resource_error + (nat + resource))" where
  "Accept env now data cb started pcb l incoming =
     (case UnpackResourceAdvertisement data of
        Inl e \<Rightarrow> (l, [], Inl e)
      | Inr adv \<Rightarrow>
          (case List.extract (\<lambda>x. r_hash x = adv_H adv) incoming of
             Some (before, existing, _) \<Rightarrow> (l, [], Inr (Inl (length before)))
           | None \<Rightarrow>
               (case requestNextLockedAt env now l (accepted_resource now cb pcb adv l) of
                  (l, r, ev, e) \<Rightarrow> (l, (if started then [StartedCallback] else []) @ ev, Inr (Inr r)))))"

definition Reject :: "link_env \<Rightarrow> int \<Rightarrow> bytes \<Rightarrow> 'a link_scheme \<Rightarrow> 'a link_scheme \<times> resource_event list \<times> resource_error option" where
  "Reject env now data l =
     (case UnpackResourceAdvertisement data of
        Inl e \<Rightarrow> (l, [], Some e)
      | Inr adv \<Rightarrow> resource_send env now PacketData ContextResourceRcl (adv_H adv) l)"

section \<open>Hashmap updates\<close>

definition cancelLocked :: "resource \<Rightarrow> resource" where
  "cancelLocked r = (if r_status r < ResourceStatusComplete then r\<lparr>r_status := ResourceStatusFailed\<rparr> else r)"

text \<open>Storing the hashes of a segment from an index on; the loop stops at the first index outside the map.\<close>

fun store_hashes :: "int \<Rightarrow> bytes list \<Rightarrow> bytes option list \<times> nat \<Rightarrow> bytes option list \<times> nat" where
  "store_hashes idx [] (hm, height) = (hm, height)"
| "store_hashes idx (h # hs) (hm, height) =
     (if idx < 0 \<or> idx \<ge> int (length hm) then (hm, height)
      else store_hashes (idx + 1) hs (hm[nat idx := Some h], if hm ! nat idx = None then height + 1 else height))"

fun hmu_segment :: "mvalue \<Rightarrow> int option" where
  "hmu_segment (MInt v) = Some (sint v)"
| "hmu_segment (MUint v) = Some (sint v)"
| "hmu_segment _ = None"

definition hashmapUpdateLocked ::
  "link_env \<Rightarrow> int \<Rightarrow> bytes \<Rightarrow> 'a link_scheme \<Rightarrow> resource \<Rightarrow> 'a link_scheme \<times> resource \<times> resource_event list \<times> resource_error option" where
  "hashmapUpdateLocked env now plaintext l r =
     (if r_status r = ResourceStatusFailed \<or> \<not> r_waitingForHmu r then (l, r, [], None)
      else if length plaintext < 32 + 1 then (l, r, [], Some HmuTooShort)
      else
        let r = r\<lparr>r_lastActivity := now, r_retriesLeft := r_maxRetries r\<rparr> in
        (case msgpack_Unpack (drop 32 plaintext) of
           Inl e \<Rightarrow> (l, r, [], Some (HmuUnpack e))
         | Inr (MArray (seg # hm # _)) \<Rightarrow>
             (case hmu_segment seg of
                None \<Rightarrow> (l, r, [], Some HmuMalformed)
              | Some segment \<Rightarrow>
                  (case hm of
                     MBin hashmap \<Rightarrow>
                       let hashes = chunks4 hashmap;
                           (hm', height) = store_hashes (sint (word_of_int (segment * int hashmapMaxLen) :: uint64)) hashes (r_hashmap r, r_hashmapHeight r);
                           r = r\<lparr>r_status := ResourceStatusTransferring, r_hashmap := hm', r_hashmapHeight := height\<rparr>
                       in if hashes = [] then (l, cancelLocked r, [], Some EmptyHashmapUpdate)
                          else requestNextLockedAt env now l (r\<lparr>r_waitingForHmu := False\<rparr>)
                   | _ \<Rightarrow> (l, r, [], Some HmuMalformed)))
         | Inr _ \<Rightarrow> (l, r, [], Some HmuMalformed)))"

text \<open>The position after the first part with the given map hash, or after the last part.\<close>

fun hmu_scan :: "bytes \<Rightarrow> resource_part list \<Rightarrow> nat" where
  "hmu_scan h [] = 0"
| "hmu_scan h (p # ps) = Suc (if part_MapHash p = h then 0 else hmu_scan h ps)"

definition hmuSegmentForMapHash :: "resource_part list \<Rightarrow> bytes \<Rightarrow> nat \<Rightarrow> nat \<times> nat option" where
  "hmuSegmentForMapHash parts lastMapHash startHeight =
     (let partIndex = startHeight + hmu_scan lastMapHash (take collisionGuardSize (drop startHeight parts));
          newHeight = partIndex - 1 - resourceWindowMax
      in (newHeight, if partIndex mod hashmapMaxLen \<noteq> 0 then None else Some (partIndex div hashmapMaxLen)))"

definition hmuPacketData :: "nat \<Rightarrow> resource \<Rightarrow> resource_error + bytes" where
  "hmuPacketData segment r =
     (let hashes = hashmapSegment (r_hashmap r) segment in
      if hashes = [] then Inl EmptyHmuSegment
      else Inr (r_hash r @ msgpack_Pack (MArray [MInt (word_of_nat segment), MBin (flat_hashes hashes)])))"

section \<open>Serving a request\<close>

text \<open>The first part with each requested hash is sent; an unknown hash is passed over.\<close>

fun part_index :: "bytes \<Rightarrow> resource_part list \<Rightarrow> nat option" where
  "part_index h [] = None"
| "part_index h (p # ps) = (if part_MapHash p = h then Some 0 else map_option Suc (part_index h ps))"

fun send_parts ::
  "link_env \<Rightarrow> int \<Rightarrow> bytes list \<Rightarrow> 'a link_scheme \<Rightarrow> resource \<Rightarrow> 'a link_scheme \<times> resource \<times> resource_event list \<times> resource_error option" where
  "send_parts env now [] l r = (l, r, [], None)"
| "send_parts env now (h # hs) l r =
     (case part_index h (r_parts r) of
        None \<Rightarrow> send_parts env now hs l r
      | Some i \<Rightarrow>
          (case resource_send env now PacketData ContextResource (part_Data (r_parts r ! i)) l of
             (l, ev, Some e) \<Rightarrow> (l, r, ev, Some e)
           | (l, ev, None) \<Rightarrow>
               let r = (if part_Sent (r_parts r ! i) then r
                        else r\<lparr>r_parts := (r_parts r)[i := (r_parts r ! i)\<lparr>part_Sent := True\<rparr>], r_sentParts := r_sentParts r + 1\<rparr>)
               in (case send_parts env now hs l (r\<lparr>r_lastPartSent := now\<rparr>) of (l, r, ev', e) \<Rightarrow> (l, r, ev @ ev', e))))"

definition send_hmu ::
  "link_env \<Rightarrow> int \<Rightarrow> bytes \<Rightarrow> 'a link_scheme \<Rightarrow> resource \<Rightarrow> 'a link_scheme \<times> resource \<times> resource_event list \<times> resource_error option" where
  "send_hmu env now lastMapHash l r =
     (case hmuSegmentForMapHash (r_parts r) lastMapHash (r_receiverMinConsecutiveHeight r) of
        (newHeight, segment) \<Rightarrow>
          let r = r\<lparr>r_receiverMinConsecutiveHeight := newHeight\<rparr> in
          (case segment of
             None \<Rightarrow> (l, cancelLocked r, [], Some SequencingError)
           | Some segment \<Rightarrow>
               (case hmuPacketData segment r of
                  Inl e \<Rightarrow> (l, cancelLocked r, [], Some e)
                | Inr data \<Rightarrow>
                    (case resource_send env now PacketData ContextResourceHmu data l of
                       (l, ev, Some e) \<Rightarrow> (l, r, ev, Some e)
                     | (l, ev, None) \<Rightarrow> (l, r\<lparr>r_lastActivity := now\<rparr>, ev, None)))))"

definition resource_Request ::
  "link_env \<Rightarrow> int \<Rightarrow> bytes \<Rightarrow> 'a link_scheme \<Rightarrow> resource \<Rightarrow> 'a link_scheme \<times> resource \<times> resource_event list \<times> resource_error option" where
  "resource_Request env now requestData l r =
     (if r_status r = ResourceStatusFailed then (l, r, [], Some TransferFailed)
      else if requestData = [] then (l, r, [], Some InvalidResourceRequest)
      else
        let r = r\<lparr>r_status := ResourceStatusTransferring, r_retriesLeft := r_maxRetries r\<rparr>;
            wantsMoreHashmap = (hd requestData = 0xFF);
            offset = (if wantsMoreHashmap then 1 + ResourceMapHashLen else 1)
        in if length requestData < offset + length (r_hash r) then (l, r, [], Some ResourceRequestTooShort)
           else if go_slice offset (offset + length (r_hash r)) requestData \<noteq> r_hash r then (l, r, [], Some ResourceHashMismatch)
           else
             (case send_parts env now (chunks4 (drop (offset + length (r_hash r)) requestData)) l r of
                (l, r, ev, Some e) \<Rightarrow> (l, r, ev, Some e)
              | (l, r, ev, None) \<Rightarrow>
                  (case (if wantsMoreHashmap then send_hmu env now (go_slice 1 (1 + ResourceMapHashLen) requestData) l r else (l, r, [], None)) of
                     (l, r, ev', Some e) \<Rightarrow> (l, r, ev @ ev', Some e)
                   | (l, r, ev', None) \<Rightarrow>
                       (l, if r_sentParts r \<ge> r_totalParts r then r\<lparr>r_status := ResourceStatusAwaitingProof\<rparr> else r, ev @ ev', None))))"

section \<open>Rates and proofs\<close>

definition recordExpectedRate :: "int \<Rightarrow> 'a link_scheme \<Rightarrow> resource \<Rightarrow> 'a link_scheme" where
  "recordExpectedRate now l r =
     (if r_size r \<le> 0 \<or> r_startedTransferring r = time_zero then l
      else l\<lparr>l_expectedRate := of_int (sint (word_of_int (r_size r * 8) :: uint64)) / max (Seconds (time_since now (r_startedTransferring r))) (1 / 10000)\<rparr>)"

text \<open>
  Over a link without a measured round-trip time the last quotient is infinite in the code and 0 here; the deadlines
  computed from it are the same.
\<close>

definition updateEifr :: "'a link_scheme \<Rightarrow> resource \<Rightarrow> 'a link_scheme \<times> resource" where
  "updateEifr l r =
     (let rtt = (case r_rtt r of None \<Rightarrow> l_rtt l | Some t \<Rightarrow> t);
          eifr = (if r_reqDataRttRate r \<noteq> 0 then r_reqDataRttRate r * 8
                  else case r_previousEifr r of Some e \<Rightarrow> e | None \<Rightarrow> l_establishmentCost l * 8 / rtt)
      in (l\<lparr>l_expectedRate := eifr\<rparr>, r\<lparr>r_eifr := Some eifr\<rparr>))"

abbreviation (input) concluded :: "resource \<Rightarrow> resource_event list" where
  "concluded r \<equiv> (if r_callback r then [ConcludedCallback] else [])"

definition resource_ValidateProof :: "int \<Rightarrow> bytes \<Rightarrow> 'a link_scheme \<Rightarrow> resource \<Rightarrow> 'a link_scheme \<times> resource \<times> resource_event list" where
  "resource_ValidateProof now proofData l r =
     (if r_status r = ResourceStatusFailed \<or> r_status r = ResourceStatusComplete then (l, r, [])
      else
        let hashLen = length (r_hash r) in
        if hashLen = 0 \<or> length proofData \<noteq> hashLen * 2 then (l, r\<lparr>r_status := ResourceStatusFailed\<rparr>, concluded r)
        else if take hashLen proofData \<noteq> r_hash r \<or> drop hashLen proofData \<noteq> r_expectedProof r
        then (l, r\<lparr>r_status := ResourceStatusFailed\<rparr>, concluded r)
        else (recordExpectedRate now l r, r\<lparr>r_status := ResourceStatusComplete\<rparr>, concluded r))"

section \<open>Receiving parts\<close>

fun hash_index :: "bytes \<Rightarrow> bytes option list \<Rightarrow> nat option" where
  "hash_index h [] = None"
| "hash_index h (x # xs) = (if x = Some h then Some 0 else map_option Suc (hash_index h xs))"

abbreviation (input) received :: "resource_part \<Rightarrow> bool" where
  "received p \<equiv> part_ReceivedData p \<noteq> None"

definition fill_part :: "nat \<Rightarrow> bytes \<Rightarrow> resource \<Rightarrow> resource" where
  "fill_part i data r =
     (let parts = (r_parts r)[i := (r_parts r ! i)\<lparr>part_ReceivedData := Some data\<rparr>];
          c = (if int i = r_consecutiveCompletedHeight r + 1 then int i else r_consecutiveCompletedHeight r);
          run = length (takeWhile received (drop (nat (c + 1)) parts))
      in r\<lparr>r_parts := parts, r_receivedCount := r_receivedCount r + 1, r_consecutiveCompletedHeight := c + int run,
           r_outstandingParts := (if r_outstandingParts r > 0 then r_outstandingParts r - 1 else r_outstandingParts r)\<rparr>)"

definition ReceivePart :: "int \<Rightarrow> bytes \<Rightarrow> resource \<Rightarrow> resource \<times> resource_event list \<times> resource_error option" where
  "ReceivePart now partData r =
     (if r_status r = ResourceStatusFailed then (r, [], Some TransferFailed)
      else
        let r = r\<lparr>r_status := (if r_status r \<noteq> ResourceStatusComplete \<and> r_status r \<noteq> ResourceStatusCorrupt \<and> r_status r \<noteq> ResourceStatusAssembling
                               then ResourceStatusTransferring else r_status r), r_lastActivity := now\<rparr>;
            partHash = getMapHash (r_randomHash r) partData;
            searchStart = nat (max (r_consecutiveCompletedHeight r) 0);
            found = hash_index partHash (take (nat (r_window r)) (drop searchStart (r_hashmap r)));
            newlyFilled = (case found of None \<Rightarrow> False | Some j \<Rightarrow> \<not> received (r_parts r ! (searchStart + j)));
            r = (if newlyFilled then fill_part (searchStart + the found) partData r else r);
            shouldAssemble = (r_receivedCount r = r_totalParts r \<and> \<not> r_assemblyLock r);
            r = (if shouldAssemble then r\<lparr>r_assemblyLock := True\<rparr> else r);
            shouldRequest = (\<not> shouldAssemble \<and> newlyFilled \<and> r_outstandingParts r \<le> 0);
            r = (if shouldRequest \<and> r_window r < r_windowMax r then
                   let r = r\<lparr>r_window := r_window r + 1\<rparr> in
                   if r_window r - r_windowMin r > r_windowFlexibility r - 1 then r\<lparr>r_windowMin := r_windowMin r + 1\<rparr> else r
                 else r)
        in (r, (if newlyFilled \<and> r_progressCallback r then [ProgressCallback] else []) @
               (if shouldAssemble then [JobAssemble] else if shouldRequest then [JobRequestNext] else []), None))"

section \<open>Assembling\<close>

definition resource_prove :: "link_env \<Rightarrow> int \<Rightarrow> bytes \<Rightarrow> 'a link_scheme \<Rightarrow> resource \<Rightarrow> 'a link_scheme \<times> resource_event list" where
  "resource_prove env now fullData l r =
     (if r_hash r = [] then (l, [])
      else
        let prf = FullHash (fullData @ r_hash r) in
        (case resource_send env now PacketProof ContextResourcePrf (r_hash r @ prf) l of (l, ev, e) \<Rightarrow> (l, ev)))"

text \<open>The entries of unpacked metadata whose keys are strings and whose values are byte strings.\<close>

fun byte_entries :: "(mvalue \<times> mvalue) list \<Rightarrow> (bytes \<times> bytes) list" where
  "byte_entries [] = []"
| "byte_entries ((MStr k, MBin v) # es) = (k, v) # byte_entries es"
| "byte_entries (_ # es) = byte_entries es"

text \<open>What the metadata prefix yields: the metadata, if it unpacks to a map, and the rest of the data.\<close>

definition extract_metadata :: "bool \<Rightarrow> bytes \<Rightarrow> (bytes \<times> bytes) list option \<times> bytes" where
  "extract_metadata hasMetadata fullData =
     (if hasMetadata \<and> length fullData \<ge> 3 then
        let metadataSize = be_dec (take 3 fullData) in
        if length fullData \<ge> 3 + metadataSize then
          (case msgpack_Unpack (go_slice 3 (3 + metadataSize) fullData) of
             Inr (MMap m) \<Rightarrow> Some (byte_entries m)
           | _ \<Rightarrow> None, drop (3 + metadataSize) fullData)
        else (None, fullData)
      else (None, fullData))"

text \<open>The branch of \<^verbatim>\<open>Cancel\<close> for corrupt resources; the rejected advertisement carries the hash of the resource.\<close>

definition cancelCorruptLocked :: "link_env \<Rightarrow> int \<Rightarrow> 'a link_scheme \<Rightarrow> resource \<Rightarrow> 'a link_scheme \<times> resource_event list" where
  "cancelCorruptLocked env now l r =
     (case resource_send env now PacketData ContextResourceRcl (r_hash r) l of
        (l, ev, _) \<Rightarrow> (case Teardown env now l of (l, ev') \<Rightarrow> (l, RemovedFromLink # ev @ map OnLink ev')))"

definition Assemble ::
  "link_env \<Rightarrow> (bytes \<Rightarrow> (bytes \<times> bool) option) \<Rightarrow> int \<Rightarrow> 'a link_scheme \<Rightarrow> resource \<Rightarrow> 'a link_scheme \<times> resource \<times> resource_event list" where
  "Assemble env bunzip now l r =
     (let r = r\<lparr>r_status := ResourceStatusAssembling\<rparr> in
      if \<not> list_all received (r_parts r) then (l, r\<lparr>r_status := ResourceStatusFailed\<rparr>, [])
      else
        let assembled = concat (map (\<lambda>p. the (part_ReceivedData p)) (r_parts r)) in
        (case (if r_encrypted r then link_Decrypt l assembled else Inr assembled) of
           Inl e \<Rightarrow> (l, r\<lparr>r_status := ResourceStatusFailed\<rparr>, [])
         | Inr assembled \<Rightarrow>
             if length assembled < ResourceRandomHashSize then (l, r\<lparr>r_status := ResourceStatusCorrupt\<rparr>, [])
             else
               let fullData = drop ResourceRandomHashSize assembled;
                   maxLen = (if r_maxDecompressedSize r \<le> 0 then ResourceAutoCompressMaxSize else r_maxDecompressedSize r)
               in (case (if r_compressed r then DecompressBzip2WithLimit bunzip fullData maxLen else Inr fullData) of
                     Inl DecompressedTooLarge \<Rightarrow>
                       (case cancelCorruptLocked env now l r of (l, ev) \<Rightarrow> (l, r\<lparr>r_status := ResourceStatusCorrupt\<rparr>, ev))
                   | Inl Bzip2Failed \<Rightarrow> (l, r\<lparr>r_status := ResourceStatusFailed\<rparr>, [])
                   | Inr fullData \<Rightarrow>
                       if FullHash (fullData @ r_randomHash r) \<noteq> r_hash r then (l, r\<lparr>r_status := ResourceStatusCorrupt\<rparr>, [])
                       else
                         (case extract_metadata (r_hasMetadata r) fullData of
                            (meta, payload) \<Rightarrow>
                              let r = (case meta of None \<Rightarrow> r | Some m \<Rightarrow> r\<lparr>r_metadata := m\<rparr>);
                                  r = r\<lparr>r_status := ResourceStatusComplete\<rparr>;
                                  l = recordExpectedRate now l r
                              in (case resource_prove env now fullData l r of
                                    (l, ev) \<Rightarrow> (l, r\<lparr>r_data := payload\<rparr>, ev @ concluded r))))))"

section \<open>Cancelling\<close>

definition Cancel :: "link_env \<Rightarrow> int \<Rightarrow> 'a link_scheme \<Rightarrow> resource \<Rightarrow> 'a link_scheme \<times> resource \<times> resource_event list" where
  "Cancel env now l r =
     (if r_status r = ResourceStatusCorrupt then (case cancelCorruptLocked env now l r of (l, ev) \<Rightarrow> (l, r, ev))
      else if r_status r \<ge> ResourceStatusComplete then (l, r, [])
      else
        let r = r\<lparr>r_status := ResourceStatusFailed\<rparr> in
        (case (if l_status l = LinkActive
               then resource_send env now PacketData (if r_initiator r then ContextResourceIcl else ContextResourceRcl) (r_hash r) l
               else (l, [], None)) of
           (l, ev, _) \<Rightarrow> (if r_callback r then recordExpectedRate now l r else l, r, ev @ RemovedFromLink # concluded r)))"

section \<open>Watchdog\<close>

definition currentRtt :: "'a link_scheme \<Rightarrow> resource \<Rightarrow> rat" where
  "currentRtt l r = (case r_rtt r of None \<Rightarrow> l_rtt l | Some t \<Rightarrow> t)"

text \<open>The time left to a deadline some seconds after an instant.\<close>

abbreviation (input) remaining :: "int \<Rightarrow> rat \<Rightarrow> int \<Rightarrow> rat" where
  "remaining since wait now \<equiv> Seconds (since + to_duration wait - now)"

definition watch_advertised ::
  "link_env \<Rightarrow> ((mvalue \<times> mvalue) list \<Rightarrow> (mvalue \<times> mvalue) list) \<Rightarrow> int \<Rightarrow> 'a link_scheme \<Rightarrow> resource
     \<Rightarrow> 'a link_scheme \<times> resource \<times> resource_event list \<times> rat" where
  "watch_advertised env order now l r =
     (let sleepTime = remaining (r_advSent r) (r_timeout r + 1) now in
      if sleepTime < 0 then
        (if r_retriesLeft r \<le> 0 then (l, cancelLocked r, [], 1 / 1000)
         else
           let r = r\<lparr>r_retriesLeft := r_retriesLeft r - 1\<rparr> in
           (case transport_Send env now (buildAdvertisementPacket env order l r) l of
              (l, _, ev, Some e) \<Rightarrow> (l, cancelLocked r, map OnLink ev, 1 / 1000)
            | (l, _, ev, None) \<Rightarrow> (l, r\<lparr>r_lastActivity := now, r_advSent := now\<rparr>, map OnLink ev, 1 / 1000)))
      else (l, r, [], sleepTime))"

definition part_wait :: "resource \<Rightarrow> rat" where
  "part_wait r =
     (let extraWait = of_int (r_maxRetries r - r_retriesLeft r) * (1 / 2);
          eifr = (case r_eifr r of None \<Rightarrow> 0 | Some e \<Rightarrow> e);
          hmuWait = (if eifr \<noteq> 0 \<and> (r_waitingForHmu r \<or> r_outstandingParts r = 0) then of_int (r_sdu r) * 8 * (7 / 2) / eifr else 0);
          tof = (if eifr \<noteq> 0 then of_int (r_outstandingParts r) * of_int (r_sdu r) * 8 / eifr else 0)
      in if r_reqRespRttRate r \<noteq> 0 then r_partTimeoutFactor r * tof + hmuWait + 1 / 4 + extraWait
         else (if eifr \<noteq> 0 then r_partTimeoutFactor r * (3 * of_int (r_sdu r) / eifr) else 0) + 1 / 4 + extraWait)"

definition shrink_windows :: "resource \<Rightarrow> resource" where
  "shrink_windows r =
     (if r_window r > r_windowMin r then
        let r = r\<lparr>r_window := r_window r - 1\<rparr> in
        if r_windowMax r > r_windowMin r then
          let r = r\<lparr>r_windowMax := r_windowMax r - 1\<rparr> in
          if r_windowMax r - r_window r > r_windowFlexibility r - 1 then r\<lparr>r_windowMax := r_windowMax r - 1\<rparr> else r
        else r
      else r)"

definition watch_receiver :: "link_env \<Rightarrow> int \<Rightarrow> 'a link_scheme \<Rightarrow> resource \<Rightarrow> 'a link_scheme \<times> resource \<times> resource_event list \<times> rat" where
  "watch_receiver env now l r =
     (let (l, r) = updateEifr l r; sleepTime = remaining (r_lastActivity r) (part_wait r) now in
      if sleepTime < 0 then
        (if r_retriesLeft r > 0 then
           (case requestNextLockedAt env now l ((shrink_windows r)\<lparr>r_retriesLeft := r_retriesLeft r - 1, r_waitingForHmu := False\<rparr>) of
              (l, r, ev, _) \<Rightarrow> (l, r, ev, 1 / 1000))
         else (l, cancelLocked r, [], 1 / 1000))
      else (l, r, [], sleepTime))"

text \<open>The retries of the receiver wait at most \<open>(1 + 2 + ... + maxRetries) / 2\<close> seconds more.\<close>

definition sender_wait :: "'a link_scheme \<Rightarrow> resource \<Rightarrow> rat" where
  "sender_wait l r =
     currentRtt l r * r_timeoutFactor r * of_int (r_maxRetries r) + r_senderGraceTime r
       + sum_list (map (\<lambda>i. of_nat (i + 1) * (1 / 2)) [0..<nat (r_maxRetries r)])"

definition watch_sender :: "int \<Rightarrow> 'a link_scheme \<Rightarrow> resource \<Rightarrow> resource \<times> rat" where
  "watch_sender now l r =
     (let sleepTime = remaining (r_lastActivity r) (sender_wait l r) now in
      if sleepTime < 0 then (cancelLocked r, 1 / 1000) else (r, sleepTime))"

definition watch_proof :: "link_env \<Rightarrow> int \<Rightarrow> 'a link_scheme \<Rightarrow> resource \<Rightarrow> resource \<times> resource_event list \<times> rat" where
  "watch_proof env now l r =
     (let r = r\<lparr>r_timeoutFactor := 3\<rparr>;
          sleepTime = remaining (r_lastPartSent r) (currentRtt l r * r_timeoutFactor r + r_senderGraceTime r) now
      in if sleepTime < 0 then
           (if r_retriesLeft r \<le> 0 then (cancelLocked r, [], 1 / 1000)
            else
              let r = r\<lparr>r_retriesLeft := r_retriesLeft r - 1, r_lastPartSent := now\<rparr> in
              (case Pack ((link_packet env l (r_hash r @ r_expectedProof r))\<lparr>PacketType := PacketProof, Context := ContextResourcePrf\<rparr>) of
                 (p, None) \<Rightarrow> (r, [CacheRequested (PacketHash p)], 1 / 1000)
               | (p, Some e) \<Rightarrow> (r, [], 1 / 1000)))
         else (r, [], sleepTime))"

text \<open>One step of the watchdog: the time to sleep and whether the loop goes on.\<close>

definition resource_watchdogStep ::
  "link_env \<Rightarrow> ((mvalue \<times> mvalue) list \<Rightarrow> (mvalue \<times> mvalue) list) \<Rightarrow> int \<Rightarrow> 'a link_scheme \<Rightarrow> resource
     \<Rightarrow> 'a link_scheme \<times> resource \<times> resource_event list \<times> rat \<times> bool" where
  "resource_watchdogStep env order now l r =
     (if r_status r \<ge> ResourceStatusAssembling then (l, r, [], 0, False)
      else
        (case (case r_status r of
                 ResourceStatusAdvertised \<Rightarrow> Some (watch_advertised env order now l r)
               | ResourceStatusTransferring \<Rightarrow>
                   Some (if \<not> r_initiator r then watch_receiver env now l r else (case watch_sender now l r of (r, s) \<Rightarrow> (l, r, [], s)))
               | ResourceStatusAwaitingProof \<Rightarrow> Some (case watch_proof env now l r of (r, ev, s) \<Rightarrow> (l, r, ev, s))
               | _ \<Rightarrow> None) of
           None \<Rightarrow> (l, cancelLocked r, [], 0, False)
         | Some (l, r, ev, sleepTime) \<Rightarrow>
             if sleepTime < 0 then (l, cancelLocked r, ev, 1 / 1000, False)
             else (l, r, ev, min sleepTime 1, r_status r < ResourceStatusAssembling)))"

end
