(* ===== verification/Requests.thy ===== *)
theory Requests
  imports Resource
begin

text \<open>
  Request receipts (\<^verbatim>\<open>rns/request.go\<close>): what becomes of a request that was sent over a link. Several goroutines
  act on a receipt: the one that receives the response, the timeout job, the conclusion of the resource that
  carries the request and the progress of the one that carries the response.

  An operation returns the receipt and its effects. Resources are named by their address. The packet receipt of
  a request is never set, so the code that would conclude it is left out.
\<close>

section \<open>Receipts\<close>

datatype request_status = RequestFailed | RequestSent | RequestDelivered | RequestReceiving | RequestReady

record request_receipt =
  rr_RequestID :: bytes
  rr_Resource :: "nat option"
  rr_Response :: mvalue
  rr_Metadata :: "(bytes \<times> bytes) list option"
  rr_Status :: request_status
  rr_SentAt :: int
  rr_StartedAt :: int
  rr_ConcludedAt :: int
  rr_Timeout :: int
  rr_maxResponseSize :: int
  rr_responseSize :: "int option"
  rr_responseTransferSize :: "int option"
  rr_callback :: bool
  rr_failedCallback :: bool
  rr_progressCallback :: bool
  rr_responseResource :: "nat option"

datatype request_event =
    ResponseCallback
  | FailedCallback
  | RequestProgressCallback
  | LeavesPending
  | ArmTimeout int

definition request_over :: "request_receipt \<Rightarrow> bool" where
  "request_over rr \<longleftrightarrow> rr_Status rr = RequestFailed \<or> rr_Status rr = RequestReady"

section \<open>Sizes\<close>

definition add_transfer_size :: "int \<Rightarrow> request_receipt \<Rightarrow> int" where
  "add_transfer_size n rr =
     sint (word_of_int ((case rr_responseTransferSize rr of None \<Rightarrow> 0 | Some m \<Rightarrow> m) + n) :: uint64)"

definition recordResponseSize :: "int \<Rightarrow> int \<Rightarrow> request_receipt \<Rightarrow> request_receipt" where
  "recordResponseSize responseSize responseTransferSize rr =
     rr\<lparr>rr_responseSize := Some responseSize, rr_responseTransferSize := Some (add_transfer_size responseTransferSize rr)\<rparr>"

definition recordResponseResourceSize :: "int \<Rightarrow> int \<Rightarrow> request_receipt \<Rightarrow> request_receipt" where
  "recordResponseResourceSize readSize readTransferSize rr =
     rr\<lparr>rr_responseSize := (case rr_responseSize rr of None \<Rightarrow> Some readSize | Some n \<Rightarrow> Some n),
        rr_responseTransferSize := Some (add_transfer_size readTransferSize rr)\<rparr>"

section \<open>Conclusions\<close>

definition fail_request :: "int \<Rightarrow> request_receipt \<Rightarrow> request_receipt \<times> request_event list" where
  "fail_request now rr =
     (rr\<lparr>rr_Status := RequestFailed, rr_ConcludedAt := now\<rparr>,
      LeavesPending # (if rr_failedCallback rr then [FailedCallback] else []))"

definition ResponseRejected :: "int \<Rightarrow> request_receipt \<Rightarrow> request_receipt \<times> request_event list" where
  "ResponseRejected now rr = (if request_over rr then (rr, []) else fail_request now rr)"

definition responseReceived ::
  "int \<Rightarrow> mvalue \<Rightarrow> (bytes \<times> bytes) list option \<Rightarrow> request_receipt \<Rightarrow> request_receipt \<times> request_event list" where
  "responseReceived now response metadata rr =
     (if request_over rr then (rr, [])
      else (rr\<lparr>rr_Response := response, rr_Metadata := metadata, rr_Status := RequestReady, rr_ConcludedAt := now\<rparr>,
            if rr_callback rr then [ResponseCallback] else []))"

text \<open>The conclusion of the resource that carries the request, given whether it is complete.\<close>

definition receipt_requestResourceConcluded :: "int \<Rightarrow> bool \<Rightarrow> request_receipt \<Rightarrow> request_receipt \<times> request_event list" where
  "receipt_requestResourceConcluded now completed rr =
     (if completed then
        (rr\<lparr>rr_StartedAt := (if rr_StartedAt rr = time_zero then now else rr_StartedAt rr), rr_Status := RequestDelivered\<rparr>,
         [ArmTimeout (now + rr_Timeout rr)])
      else fail_request now rr)"

definition requestTimedOut :: "int \<Rightarrow> request_receipt \<Rightarrow> request_receipt \<times> request_event list" where
  "requestTimedOut now rr = (if request_over rr then (rr, []) else fail_request now rr)"

text \<open>One round of the timeout job; the flag tells that it goes on.\<close>

definition responseTimeoutJob :: "int \<Rightarrow> int \<Rightarrow> request_receipt \<Rightarrow> request_receipt \<times> request_event list \<times> bool" where
  "responseTimeoutJob now deadline rr =
     (if rr_Status rr \<noteq> RequestDelivered then (rr, [], False)
      else if now > deadline then (case requestTimedOut now rr of (rr, ev) \<Rightarrow> (rr, ev, False))
      else (rr, [], True))"

definition responseResourceProgress :: "nat \<Rightarrow> request_receipt \<Rightarrow> request_receipt \<times> request_event list" where
  "responseResourceProgress res rr =
     (if request_over rr then (rr, [])
      else (rr\<lparr>rr_Status := RequestReceiving, rr_responseResource := Some res\<rparr>,
            if rr_progressCallback rr then [RequestProgressCallback] else []))"

section \<open>Runs\<close>

text \<open>What the goroutines of a request do to its receipt, in the order in which they take its lock.\<close>

datatype request_op =
    OpSizes int int
  | OpResourceSizes int int
  | OpRejected int
  | OpResponse int mvalue "(bytes \<times> bytes) list option"
  | OpRequestResource int bool
  | OpTimeout int int
  | OpResponseFailed int
  | OpProgress nat

fun request_step :: "request_op \<Rightarrow> request_receipt \<Rightarrow> request_receipt \<times> request_event list" where
  "request_step (OpSizes n m) rr = (recordResponseSize n m rr, [])"
| "request_step (OpResourceSizes n m) rr = (recordResponseResourceSize n m rr, [])"
| "request_step (OpRejected now) rr = ResponseRejected now rr"
| "request_step (OpResponse now v m) rr = responseReceived now v m rr"
| "request_step (OpRequestResource now completed) rr = receipt_requestResourceConcluded now completed rr"
| "request_step (OpTimeout now deadline) rr = (case responseTimeoutJob now deadline rr of (rr, ev, _) \<Rightarrow> (rr, ev))"
| "request_step (OpResponseFailed now) rr = requestTimedOut now rr"
| "request_step (OpProgress res) rr = responseResourceProgress res rr"

fun request_run :: "request_op list \<Rightarrow> request_receipt \<Rightarrow> request_receipt \<times> request_event list" where
  "request_run [] rr = (rr, [])"
| "request_run (q # qs) rr = (case request_step q rr of (rr, ev) \<Rightarrow> (case request_run qs rr of (rr, ev') \<Rightarrow> (rr, ev @ ev')))"

fun concludes :: "request_event \<Rightarrow> bool" where
  "concludes ResponseCallback = True"
| "concludes FailedCallback = True"
| "concludes _ = False"

fun is_request_resource :: "request_op \<Rightarrow> bool" where
  "is_request_resource (OpRequestResource _ _) = True"
| "is_request_resource _ = False"

lemmas request_defs = ResponseRejected_def responseReceived_def requestTimedOut_def responseTimeoutJob_def fail_request_def
  responseResourceProgress_def recordResponseSize_def recordResponseResourceSize_def request_over_def

lemma over_stays_over:
  assumes "request_over rr" and "list_all (\<lambda>q. \<not> is_request_resource q) qs"
  shows "request_over (fst (request_run qs rr)) \<and> rr_Status (fst (request_run qs rr)) = rr_Status rr \<and> filter concludes (snd (request_run qs rr)) = []"
  using assms
proof (induction qs arbitrary: rr)
  case (Cons q qs)
  have step: "snd (request_step q rr) = []" "rr_Status (fst (request_step q rr)) = rr_Status rr"
    using Cons.prems by (cases q; auto simp: request_defs)+
  then have "request_over (fst (request_step q rr))" using Cons.prems by (simp add: request_over_def)
  from Cons.IH [OF this] Cons.prems step show ?case by (auto split: prod.splits)
qed simp

lemma step_concludes_over:
  assumes "\<not> is_request_resource q" and "request_step q rr = (rr', ev)"
  shows "length (filter concludes ev) \<le> 1 \<and> (filter concludes ev \<noteq> [] \<longrightarrow> \<not> request_over rr \<and> request_over rr')
    \<and> (ResponseCallback \<in> set ev \<longrightarrow> rr_Status rr' = RequestReady) \<and> (FailedCallback \<in> set ev \<longrightarrow> rr_Status rr' = RequestFailed)"
  using assms by (cases q) (auto simp: request_defs split: if_splits)


definition demo_receipt :: request_receipt where
  "demo_receipt = \<lparr>rr_RequestID = [1], rr_Resource = None, rr_Response = MNil, rr_Metadata = None, rr_Status = RequestSent, rr_SentAt = 0,
     rr_StartedAt = time_zero, rr_ConcludedAt = time_zero, rr_Timeout = 10, rr_maxResponseSize = 0, rr_responseSize = None,
     rr_responseTransferSize = None, rr_callback = True, rr_failedCallback = True, rr_progressCallback = False, rr_responseResource = None\<rparr>"


text \<open>
  C13: A request that was sent as a resource can conclude twice. When the response is handled before the
  goroutine that reports the delivery of the request runs, the receipt goes from ready back to delivered, the
  response timeout is armed and, when it expires, the failure callback runs after the response callback.
\<close>

theorem resource_request_concludes_twice:
  assumes "rr_Status rr = RequestSent" and "rr_callback rr" and "rr_failedCallback rr"
    and "now2 + rr_Timeout rr < now3"
  shows "filter concludes (snd (request_run [OpResponse now1 v m, OpRequestResource now2 True, OpTimeout now3 (now2 + rr_Timeout rr)] rr))
      = [ResponseCallback, FailedCallback]
    \<and> rr_Status (fst (request_run [OpResponse now1 v m, OpRequestResource now2 True, OpTimeout now3 (now2 + rr_Timeout rr)] rr)) = RequestFailed"
  using assms by (simp add: request_defs receipt_requestResourceConcluded_def)

theorem resource_request_concludes_twice_witness:
  "filter concludes (snd (request_run [OpResponse 5 (MUint 1) None, OpRequestResource 6 True, OpTimeout 17 16] demo_receipt))
     = [ResponseCallback, FailedCallback]"
  using resource_request_concludes_twice [of demo_receipt 6 17 5 "MUint 1" None] by (simp add: demo_receipt_def)

end
