(* ===== verification/LinkSetup.thy ===== *)
theory LinkSetup
  imports Link "HOL-Library.Monad_Syntax"
begin

text \<open>
  Establishing a link (\<^verbatim>\<open>rns/link.go\<close>): what each side of the handshake does with the frames of the other. The
  definitions are those of \<open>Link\<close>; this theory follows one link from \<^verbatim>\<open>NewLink\<close> on the initiator's side to
  \<^verbatim>\<open>HandleRTT\<close> on the other.
\<close>

section \<open>Establishing a link\<close>

text \<open>The token both sides derive, and what the handshake does.\<close>

definition session_token :: "curves \<Rightarrow> int \<Rightarrow> bytes \<Rightarrow> bytes \<Rightarrow> bytes \<Rightarrow> token option" where
  "session_token cs mode k peer lid =
     (case x25519_exchange cs k peer of
        None \<Rightarrow> None
      | Some sharedKey \<Rightarrow>
          (case HKDF (if mode = LinkModeAES128CBC then 32 else 64) sharedKey lid [] of
             Inl e \<Rightarrow> None
           | Inr derivedKey \<Rightarrow> (case NewToken derivedKey of Inl e \<Rightarrow> None | Inr t \<Rightarrow> Some t)))"

lemma session_token_wf: "session_token cs mode k peer lid = Some t \<Longrightarrow> token_wf t"
  by (auto simp: session_token_def split: option.splits sum.splits intro: NewToken_wf)

lemma session_token_ok:
  assumes "x25519_exchange cs k peer = Some shared" and "length shared = 32"
  shows "\<exists>t. session_token cs mode k peer lid = Some t"
proof -
  define n :: int where "n = (if mode = LinkModeAES128CBC then 32 else 64)"
  have "shared \<noteq> []" using assms(2) by auto
  then have "HKDF n shared lid [] = Inr (hkdf_out n shared lid [])" by (intro HKDF_ok) (simp_all add: n_def)
  moreover have "length (hkdf_out n shared lid []) = nat n" by (rule length_hkdf_out)
  then have "\<exists>t. NewToken (hkdf_out n shared lid []) = Inr t" by (auto simp: NewToken_def n_def)
  ultimately show ?thesis using assms(1) by (auto simp: session_token_def n_def)
qed

lemma handshake_ok:
  assumes "l_status l = LinkPending \<or> l_status l = LinkHandshake" and "l_peerPub l = Some peer"
    and "session_token cs (l_mode l) (l_prv l) peer (l_linkID l) = Some t"
  shows "handshake cs l = (l\<lparr>l_token := Some t, l_status := LinkHandshake\<rparr>, None)"
  using assms by (cases "l_mode l = LinkModeAES128CBC") (auto simp: handshake_def session_token_def Let_def split: option.splits sum.splits)

lemma handshake_None:
  assumes "handshake cs l = (l', None)"
  shows "\<exists>peer t. l_peerPub l = Some peer \<and> session_token cs (l_mode l) (l_prv l) peer (l_linkID l) = Some t
    \<and> l' = l\<lparr>l_token := Some t, l_status := LinkHandshake\<rparr>"
  using assms by (cases "l_mode l = LinkModeAES128CBC") (auto simp: handshake_def session_token_def Let_def split: option.splits sum.splits if_splits)

lemma length_signallingBytes: "length (signallingBytes env l) = 0 \<or> length (signallingBytes env l) = 3"
  by (simp add: signallingBytes_def Let_def)

lemma Unpack_Raw: "Unpack p = (u, None) \<Longrightarrow> Raw u = Raw p"
  by (auto simp: Unpack_def Let_def UpdateHash_def split: if_splits option.splits)

lemma NewLink_fields:
  assumes "NewLink env rx rs d = Inr l"
  shows "l_destination l = d \<and> l_initiator l = (d \<noteq> None) \<and> l_status l = LinkPending \<and> l_mode l = LinkModeAES256CBC
    \<and> length (l_prv l) = 32 \<and> l_pubBytes l = x25519_pub (lv_curves env) (l_prv l) \<and> l_attachedInterface l = None
    \<and> l_token l = None \<and> l_mtu l = MTU \<and> l_mdu l = link_mdu_of MTU \<and> l_remoteIdentity l = None \<and> l_channel l = False
    \<and> (\<exists>s. length s = 32 \<and> l_sigPrv l = Some s \<and> l_sigPubBytes l = ed25519_pub (lv_curves env) s)
    \<and> (\<forall>dd. d = Some dd \<longrightarrow> d_Type dd = DestinationSingle)"
  using assms
  by (auto simp: NewLink_def Let_def UpdateMDU_def GenerateX25519PrivateKey_def NewX25519PrivateKeyFromBytes_def
      GenerateEd25519PrivateKey_def NewEd25519PrivateKeyFromBytes_def split: if_splits sum.splits option.splits)

text \<open>The identifiers of a link request.\<close>

lemma establish_request:
  assumes new: "NewLink env rx rs (Some d) = Inr l" and law: "curves_law (lv_curves env)" and env: "benign env"
    and dh: "length (d_Hash d) = 16"
  shows "\<exists>l' ev raw u. Establish env now l = (l', [LinkRegistered, ev], None) \<and> event_frame ev = Some raw
    \<and> Unpack (NewPacketFromRaw raw) = (u, None) \<and> PacketType u = PacketLinkRequest \<and> DestinationHash u = d_Hash d
    \<and> Data u = l_pubBytes l @ l_sigPubBytes l @ signallingBytes env l \<and> LinkIDFromLR u = Some (l_linkID l')
    \<and> bookkept (l\<lparr>l_linkID := l_linkID l', l_requestTime := now, l_establishmentTimeout := l_establishmentTimeout l'\<rparr>) l'"
proof -
  note f = NewLink_fields [OF new]
  define data where "data = l_pubBytes l @ l_sigPubBytes l @ signallingBytes env l"
  define dst where "dst = as_packet_dest (\<lambda>_. None) d"
  define p where "p = (NewPacketWithTransport True (Some dst) data)\<lparr>PacketType := PacketLinkRequest\<rparr>"
  have p: "Destination p = Some dst" "HeaderType p = Header1" "packet_MTU p = 500" "Data p = data" "Hops p = 0" "\<not> Sent p"
      "\<not> Packed p" "packet_transport p" "\<not> should_encrypt p" "Context p = ContextNone" "ContextFlag p = FlagUnset" "TransportType p = 0"
      "PacketType p = PacketLinkRequest"
    by (simp_all add: p_def NewPacketWithTransport_def empty_packet_def Let_def MTU_def should_encrypt_def)
  have len: "length data = 64 \<or> length data = 67"
    using f law length_signallingBytes [of env l] by (auto simp: curves_law_def data_def)
  have dd: "dest_hash dst = d_Hash d" "dest_type dst = DestinationSingle" "dest_link_closed dst = None"
    using f by (auto simp: as_packet_dest_def dst_def)
  obtain raw h fl where q: "Pack p = (p\<lparr>DestinationHash := d_Hash d, Flags := fl, Ciphertext := data, Raw := raw, Packed := True, PacketHash := h\<rparr>, None)"
      "length raw = 16 + length data + 3"
    using Pack_fits [OF p(1,2), of data] p(3,4,9) dd dh len by auto
  define q where "q = p\<lparr>DestinationHash := d_Hash d, Flags := fl, Ciphertext := data, Raw := raw, Packed := True, PacketHash := h\<rparr>"
  have qf: "Raw q = raw" "HeaderType q = Header1" "Data q = data" "packet_transport q" "\<not> Sent q" "Hops q = 0" "Packed q" "Destination q = Some dst"
      "Ciphertext q = data"
    using p by (simp_all add: q_def)
  have wf: "packet_wf dst p" using p dd dh by (simp add: packet_wf_def packet_consts dstLen_def PathfinderM_def)
  from unpack_of_pack [OF wf q(1) [folded q_def]] obtain u where u: "Unpack (NewPacketFromRaw raw) = (u, None)" "PacketType u = PacketLinkRequest"
      "Data u = data" "HeaderType u = Header1" "DestinationHash u = d_Hash d" using p dd qf by auto
  have same: "LinkIDFromLR u = LinkIDFromLR q"
    using u(3,4) Unpack_Raw [OF u(1)] qf(1-3) by (simp add: LinkIDFromLR_def GetHashablePart_def NewPacketFromRaw_def)
  obtain lid where lid: "LinkIDFromLR q = Some lid"
    using hashable_part [of q] q(2) qf(1) by (auto simp: LinkIDFromLR_def)
  define k where "k = l\<lparr>l_linkID := lid, l_requestTime := now,
      l_establishmentTimeout := lv_FirstHopTimeout env (d_Hash d) + linkTimeoutPerHop * max 1 (lv_HopsTo env (d_Hash d))\<rparr>"
  have "l_status k \<noteq> LinkClosed" using f by (simp add: k_def)
  then have "\<exists>l' q' ev. link_send env now q k = (l', q', [ev], None) \<and> event_frame ev = Some (Raw q) \<and> bookkept k l'"
    using env qf q(2) dd(3) by (intro link_send_ok [where d = dst and q = q]) simp_all
  then obtain l' q' ev where send: "link_send env now q k = (l', q', [ev], None)" "event_frame ev = Some raw" "bookkept k l'" using qf(1) by auto
  have dest: "l_destination l = Some d" "l_initiator l" using f by simp_all
  have "Establish env now l = (case link_send env now q k of (l, p, ev, e) \<Rightarrow> (l, LinkRegistered # ev, e))"
    using lid q(1) [folded q_def]
    by (simp add: Establish_def Let_def dest dst_def [symmetric] data_def [symmetric] p_def [symmetric] k_def)
  then have est: "Establish env now l = (l', [LinkRegistered, ev], None)" using send(1) by simp
  have lk: "l_linkID l' = lid" "l_establishmentTimeout l' = l_establishmentTimeout k" by (simp_all add: bookkept_fields [OF send(3)] k_def)
  have "bookkept (l\<lparr>l_linkID := l_linkID l', l_requestTime := now, l_establishmentTimeout := l_establishmentTimeout l'\<rparr>) l'"
    using send(3) unfolding lk k_def by simp
  then show ?thesis
    using est send(2) u(1,2,3,5) same lid lk(1)
    by (intro exI [of _ l'] exI [of _ ev] exI [of _ raw] exI [of _ u]) (simp add: data_def)
qed

text \<open>The answer to a link request: the responding link has the session keys and its proof goes out.\<close>

lemma length_LinkID: "LinkIDFromLR p = Some lid \<Longrightarrow> length lid = 16"
  by (auto simp: LinkIDFromLR_def TruncatedHash_def FullHash_def dstLen_def)

lemma responder_link:
  assumes "GenerateX25519PrivateKey rx = Inr k" and "GenerateEd25519PrivateKey rs = Inr s"
  shows "\<exists>l. NewLink env rx rs None = Inr l \<and> l_prv l = k"
  using assms by (simp add: NewLink_def Let_def UpdateMDU_def)

lemma request_answered:
  assumes law: "curves_law cs" and cs: "lv_curves env = cs" and env: "benign env"
    and keys: "GenerateX25519PrivateKey rx = Inr k" "GenerateEd25519PrivateKey rs = Inr s"
    and ident: "d_identity d = Some i" "full_identity cs i" "sigPub i = Some sp"
    and data: "Data u = peer @ peerSig @ sb" "length peer = 32" "length peerSig = 32"
    and lid: "LinkIDFromLR u = Some lid" and tok: "session_token cs LinkModeAES256CBC k peer lid = Some t"
  shows "\<exists>l ev raw q sigb. ValidateRequest env rx rs now iface d (Data u) u = ([LinkRegistered, ev], Inr l)
    \<and> event_frame ev = Some raw \<and> Unpack (NewPacketFromRaw raw) = (q, None) \<and> Context q = ContextLrproof \<and> PacketType q = PacketProof
    \<and> Data q = sigb @ x25519_pub cs k @ signallingBytes env l
    \<and> identity_Sign cs i (lid @ x25519_pub cs k @ sp @ signallingBytes env l) = Inr sigb
    \<and> l_linkID l = lid \<and> l_status l = LinkHandshake \<and> l_token l = Some t \<and> l_initiator l = False \<and> l_attachedInterface l = iface
    \<and> l_destination l = Some d \<and> l_peerPub l = Some peer \<and> l_peerSigPub l = Some peerSig \<and> l_sigPrv l = sigPrv i
    \<and> l_mdu l = link_mdu_of MTU \<and> l_remoteIdentity l = None \<and> l_prv l = k"
proof -
  obtain l0 where l0: "NewLink env rx rs None = Inr l0" "l_prv l0 = k" using responder_link keys by blast
  note f = NewLink_fields [OF l0(1)]
  obtain sk where sk: "sigPrv i = Some sk" "sp = ed25519_pub cs sk" using ident(2,3) by (auto simp: full_identity_def)
  define l1 where "l1 = l0\<lparr>l_initiator := False, l_destination := Some d, l_attachedInterface := iface,
      l_callbacks := (l_callbacks l0)\<lparr>cb_LinkEstablished := d_linkEstablished d\<rparr>, l_sigPrv := sigPrv i, l_sigPubBytes := sp,
      l_peerPub := Some peer, l_peerSigPub := Some peerSig, l_linkID := lid,
      l_establishmentTimeout := linkTimeoutPerHop * max 1 (Hops u) + LinkKeepaliveDefault\<rparr>"
  define l2 where "l2 = l1\<lparr>l_token := Some t, l_status := LinkHandshake, l_requestTime := now, l_lastInbound := now,
      l_establishmentCost := l_establishmentCost l1 + of_nat (length (Raw u))\<rparr>"
  have hs: "handshake cs l1 = (l1\<lparr>l_token := Some t, l_status := LinkHandshake\<rparr>, None)"
    using f l0(2) tok by (intro handshake_ok) (auto simp: l1_def)
  have l2: "l_linkID l2 = lid" "l_status l2 = LinkHandshake" "l_token l2 = Some t" "l_destination l2 = Some d" "l_initiator l2 = False"
      "l_pubBytes l2 = x25519_pub cs k" "l_sigPubBytes l2 = sp" "l_peerPub l2 = Some peer" "l_attachedInterface l2 = iface"
      "l_mdu l2 = link_mdu_of MTU" "l_sigPrv l2 = sigPrv i" "l_remoteIdentity l2 = None" "l_peerSigPub l2 = Some peerSig" "l_prv l2 = k"
    using f l0(2) cs by (simp_all add: l2_def l1_def)
  have vr: "ValidateRequest env rx rs now iface d (Data u) u =
      (case link_Prove env now l2 of (l, ev, Some e) \<Rightarrow> (LinkRegistered # ev, Inl e) | (l, ev, None) \<Rightarrow> (LinkRegistered # ev, Inr l))"
    using hs l0(1) lid ident data cs
    by (simp add: ValidateRequest_def Let_def LoadPeer_def NewX25519PublicKeyFromBytes_def
        NewEd25519PublicKeyFromBytes_def go_slice_def l1_def l2_def)
  define sb' where "sb' = signallingBytes env l2"
  define sigb where "sigb = ed25519_sign cs sk (lid @ x25519_pub cs k @ sp @ sb')"
  have sign: "identity_Sign cs i (lid @ x25519_pub cs k @ sp @ sb') = Inr sigb" using sk by (simp add: identity_Sign_def sigb_def)
  define p where "p = (link_packet env l2 (sigb @ x25519_pub cs k @ sb'))\<lparr>PacketType := PacketProof, Context := ContextLrproof\<rparr>"
  have "\<not> should_encrypt p" by (simp add: p_def should_encrypt_def)
  moreover have "length (sigb @ x25519_pub cs k @ sb') \<le> 481"
    using law length_signallingBytes [of env l2] by (auto simp: curves_law_def sigb_def sb'_def)
  moreover have "length (l_linkID l2) = 16" using length_LinkID [OF lid] l2 by simp
  ultimately obtain l' q' ev q raw where send: "link_send env now p l2 = (l', q', [ev], None)" "bookkept l2 l'" "event_frame ev = Some raw"
      "Unpack (NewPacketFromRaw raw) = (q, None)" "Data q = sigb @ x25519_pub cs k @ sb'" "Context q = ContextLrproof" "PacketType q = PacketProof"
    using link_send_packet [OF env _ _ p_def, of "sigb @ x25519_pub cs k @ sb'" now] l2(2)
    by (auto simp: packet_consts)
  have "link_Prove env now l2 = (l', [ev], None)"
    using send(1) sign unfolding p_def sb'_def
    by (simp add: link_Prove_def Let_def proof_signature_def l2 ident cs)
  moreover have "signallingBytes env l' = sb'" using bookkept_fields [OF send(2)] by (simp add: sb'_def signallingBytes_def split: option.splits)
  ultimately show ?thesis using vr send sign bookkept_fields [OF send(2)] l2
    by (intro exI [of _ l'] exI [of _ ev] exI [of _ raw] exI [of _ q] exI [of _ sigb]) simp
qed

text \<open>The proof of the destination activates the initiator's link, and the round-trip packet goes out under the session token.\<close>

lemma proof_verifies:
  assumes law: "curves_law cs" and ident: "l_destination l = Some d" "d_identity d = Some i'" "pub i' = pub i" "sigPub i' = sigPub i"
    and full: "full_identity cs i" "sigPub i = Some sp"
    and data: "Data q = sigb @ peer @ sb" "length peer = 32" "length sb = 0 \<or> length sb = 3"
    and sign: "identity_Sign cs i (l_linkID l @ peer @ sp @ sb) = Inr sigb"
  shows "verifyProofSignatureLocked cs q l = Some True" and "length sigb = 64"
proof -
  obtain x s where k: "pub i = Some (x25519_pub cs x)" "sigPub i = Some (ed25519_pub cs s)" "sigPrv i = Some s"
    using full(1) by (auto simp: full_identity_def)
  have len: "length (x25519_pub cs x) = 32" "length sp = 32" "length sigb = 64" "sp = ed25519_pub cs s" "sigb = ed25519_sign cs s (l_linkID l @ peer @ sp @ sb)"
    using law k full(2) sign by (auto simp: curves_law_def identity_Sign_def)
  show "length sigb = 64" by (rule len)
  have v: "identity_Verify cs i' sigb (l_linkID l @ peer @ sp @ sb)"
    using law ident(4) full(2) len(4,5) by (simp add: identity_Verify_def curves_law_def)
  have "GetPublicKey i' = Some (x25519_pub cs x @ sp)" using ident(3,4) k full(2) by (simp add: GetPublicKey_def)
  with v show "verifyProofSignatureLocked cs q l = Some True"
    using ident data len by (auto simp: verifyProofSignatureLocked_def Let_def go_slice_def)
qed

definition rtt_payload :: "link_env \<Rightarrow> 'a link_scheme \<Rightarrow> bytes" where
  "rtt_payload env l = msgpack_Pack (MFloat64 (lv_Float64bits env (l_rtt l)))"

lemma proof_accepted:
  assumes law: "curves_law cs" and cs: "lv_curves env = cs" and env: "benign env"
    and ident: "l_destination l = Some d" "d_identity d = Some i'" "pub i' = pub i" "sigPub i' = sigPub i"
    and full: "full_identity cs i" "sigPub i = Some sp"
    and data: "Data q = sigb @ peer @ sb" "length peer = 32" "length sb = 0 \<or> length sb = 3"
    and sign: "identity_Sign cs i (l_linkID l @ peer @ sp @ sb) = Inr sigb"
    and l: "l_status l = LinkPending" "length (l_linkID l) = 16" and tok: "session_token cs (l_mode l) (l_prv l) peer (l_linkID l) = Some t"
  shows "\<exists>l' ev raw r. link_ValidateProof env now iface q l =
      (l', [LinkActivated, ev] @ (if cb_LinkEstablished (l_callbacks l) then [EstablishedCallback] else []), None)
    \<and> event_frame ev = Some raw \<and> Unpack (NewPacketFromRaw raw) = (r, None) \<and> Context r = ContextLrrtt \<and> PacketType r = PacketData
    \<and> TokenDecryptData t (Data r) = Inr (rtt_payload env l')
    \<and> l_status l' = LinkActive \<and> l_token l' = Some t \<and> l_linkID l' = l_linkID l \<and> l_peerPub l' = Some peer \<and> l_peerSigPub l' = Some sp
    \<and> l_initiator l' = l_initiator l \<and> l_attachedInterface l' = iface \<and> l_destination l' = Some d \<and> l_mdu l' = l_mdu l
    \<and> l_rtt l' = Seconds (time_since now (l_requestTime l)) \<and> l_prv l' = l_prv l"
proof -
  obtain x s where k: "pub i = Some (x25519_pub cs x)" "sigPub i = Some (ed25519_pub cs s)" using full(1) by (auto simp: full_identity_def)
  have len: "length (x25519_pub cs x) = 32" "length sp = 32" using law k full(2) by (auto simp: curves_law_def)
  have key: "GetPublicKey i' = Some (x25519_pub cs x @ sp)" using ident(3,4) k full(2) by (simp add: GetPublicKey_def)
  define l1 where "l1 = l\<lparr>l_peerPub := Some peer, l_peerSigPub := Some sp, l_token := Some t, l_status := LinkHandshake\<rparr>"
  have hs: "handshake cs (l\<lparr>l_peerPub := Some peer, l_peerSigPub := Some sp\<rparr>) = (l1, None)"
    using handshake_ok [of "l\<lparr>l_peerPub := Some peer, l_peerSigPub := Some sp\<rparr>" peer cs t] l(1) tok by (simp add: l1_def)
  have ver: "verifyProofSignatureLocked cs q l1 = Some True" "length sigb = 64"
    using proof_verifies [where l = l1, OF law _ ident(2-4) full data] ident(1) sign by (simp_all add: l1_def)
  define l2 where "l2 = updateKeepaliveLocked (establishment_rate (l1\<lparr>l_attachedInterface := iface, l_status := LinkActive, l_activatedAt := now,
      l_rtt := Seconds (time_since now (l_requestTime l1)), l_establishmentCost := l_establishmentCost l1 + of_nat (length (Raw q))\<rparr>))"
  have l2: "l_status l2 = LinkActive" "l_token l2 = Some t" "l_linkID l2 = l_linkID l" "l_callbacks l2 = l_callbacks l"
      "l_peerPub l2 = Some peer" "l_peerSigPub l2 = Some sp" "l_initiator l2 = l_initiator l" "l_attachedInterface l2 = iface"
      "l_destination l2 = Some d" "l_mdu l2 = l_mdu l" "l_rtt l2 = Seconds (time_since now (l_requestTime l))" "l_prv l2 = l_prv l"
    using ident(1) by (simp_all add: l2_def l1_def updateKeepaliveLocked_def establishment_rate_def Let_def)
  define p where "p = (link_packet env l2 (rtt_payload env l2))\<lparr>PacketType := PacketData, Context := ContextLrrtt\<rparr>"
  obtain iv where iv: "lv_random env 16 = Some iv" "length iv = 16" using env by (auto simp: benign_def)
  have nine: "length (rtt_payload env l2) = 9" by (simp add: rtt_payload_def msgpack_Pack_def)
  have wf: "token_wf t" by (rule session_token_wf [OF tok])
  obtain ct where ct: "link_Encrypt (lv_random env) l2 (rtt_payload env l2) = Inr ct" "length ct = 64"
    using link_Encrypt_length [where rt = "lv_random env", OF l2(2) wf iv, of "rtt_payload env l2"] nine by auto
  have "TokenEncrypt (lv_random env) t (rtt_payload env l2) = Inr ct"
    using ct(1) l2(2) by (cases "TokenEncrypt (lv_random env) t (rtt_payload env l2)") (auto simp: link_Encrypt_def)
  then have dec: "TokenDecryptData t ct = Inr (rtt_payload env l2)"
    using token_open [OF wf] env by (auto simp: benign_def)
  have "should_encrypt p" by (simp add: p_def should_encrypt_def packet_consts)
  then obtain l' q' ev r raw where send: "link_send env now p l2 = (l', q', [ev], None)" "bookkept l2 l'" "event_frame ev = Some raw"
      "Unpack (NewPacketFromRaw raw) = (r, None)" "Data r = ct" "Context r = ContextLrrtt" "PacketType r = PacketData"
    using link_send_packet [OF env _ _ p_def, of ct now] l2(1,3) l(2) ct
    by (auto simp: packet_consts)
  note b = bookkept_fields [OF send(2)]
  have vp: "link_ValidateProof env now iface q l = (case link_send env now p l2 of
        (l, _, ev, Some e) \<Rightarrow> (l, LinkActivated # ev, Some e)
      | (l, _, ev, None) \<Rightarrow> (l, LinkActivated # ev @ (if cb_LinkEstablished (l_callbacks l) then [EstablishedCallback] else []), None))"
    using hs ver(1) l(1) ident(1,2) key data ver(2) len cs
    by (simp add: link_ValidateProof_def LoadPeer_def NewX25519PublicKeyFromBytes_def NewEd25519PublicKeyFromBytes_def go_slice_def
        Let_def p_def l2_def rtt_payload_def)
  have "rtt_payload env l' = rtt_payload env l2" using b by (simp add: rtt_payload_def)
  with vp send dec b l2 show ?thesis
    by (intro exI [of _ l'] exI [of _ ev] exI [of _ raw] exI [of _ r]) simp
qed

lemma rtt_activates:
  assumes "l_status l = LinkHandshake" and "l_token l = Some t" and "TokenDecryptData t (Data r) = Inr (rtt_payload env' l'')"
  shows "\<exists>l'. HandleRTT env now r l = (l', LinkActivated # (if cb_LinkEstablished (l_callbacks l) then [EstablishedCallback] else []))
    \<and> l_status l' = LinkActive \<and> l_token l' = Some t \<and> l_linkID l' = l_linkID l \<and> l_peerPub l' = l_peerPub l \<and> l_peerSigPub l' = l_peerSigPub l
    \<and> l_initiator l' = l_initiator l \<and> l_destination l' = l_destination l \<and> l_mdu l' = l_mdu l \<and> l_sigPrv l' = l_sigPrv l
    \<and> l_attachedInterface l' = l_attachedInterface l \<and> l_remoteIdentity l' = l_remoteIdentity l \<and> l_prv l' = l_prv l"
proof -
  have "msgpack_Unpack (rtt_payload env' l'') = Inr (MFloat64 (lv_Float64bits env' (l_rtt l'')))"
    using unpack_record [of "MFloat64 (lv_Float64bits env' (l_rtt l''))"] by (simp add: rtt_payload_def)
  then show ?thesis using assms
    by (simp add: HandleRTT_def link_Decrypt_def Let_def updateKeepaliveLocked_def establishment_rate_def)
qed

section \<open>The whole handshake\<close>

text \<open>
  A frame arrives as it was packed, with the hop count \<open>h\<close> that the receiving node counted. \<open>link_setup\<close> runs the
  handshake between two nodes at the times \<open>t 0\<close> to \<open>t 3\<close>; \<open>rI\<close> and \<open>rR\<close> supply the ephemeral keys.
\<close>

definition deliver :: "int \<Rightarrow> bytes \<Rightarrow> packet option" where
  "deliver h raw = (case Unpack (NewPacketFromRaw raw) of (u, None) \<Rightarrow> Some (u\<lparr>Hops := h\<rparr>) | (u, Some e) \<Rightarrow> None)"

definition arrival :: "int \<Rightarrow> link_event list \<Rightarrow> packet option" where
  "arrival h ev = (case frames ev of [raw] \<Rightarrow> deliver h raw | _ \<Rightarrow> None)"

fun sum_option :: "'e + 'a \<Rightarrow> 'a option" where
  "sum_option (Inl e) = None"
| "sum_option (Inr a) = Some a"

definition link_setup ::
  "link_env \<Rightarrow> link_env \<Rightarrow> key_source \<Rightarrow> key_source \<Rightarrow> (nat \<Rightarrow> int) \<Rightarrow> nat option \<Rightarrow> nat option \<Rightarrow> int
     \<Rightarrow> destination \<Rightarrow> destination \<Rightarrow> (link \<times> link) option" where
  "link_setup envI envR rI rR t ifI ifR h dI dR = do {
     l0 \<leftarrow> sum_option (NewLink envI (fst rI) (snd rI) (Some dI));
     let (l1, ev1, _) = Establish envI (t 0) l0;
     request \<leftarrow> arrival h ev1;
     let (ev2, answer) = ValidateRequest envR (fst rR) (snd rR) (t 1) ifR dR (Data request) request;
     r1 \<leftarrow> sum_option answer;
     prf \<leftarrow> arrival h ev2;
     let (l2, ev3, _) = link_ValidateProof envI (t 2) ifI prf l1;
     rtt \<leftarrow> arrival h ev3;
     let (r2, _) = HandleRTT envR (t 3) rtt r1;
     Some (l2, r2)
   }"

lemma arrival_frame:
  assumes "event_frame ev = Some raw" and "Unpack (NewPacketFromRaw raw) = (u, None)"
  shows "arrival h [LinkRegistered, ev] = Some (u\<lparr>Hops := h\<rparr>)"
    "arrival h ([LinkActivated, ev] @ (if b then [EstablishedCallback] else [])) = Some (u\<lparr>Hops := h\<rparr>)"
  using assms by (simp_all add: arrival_def deliver_def)

lemma LinkIDFromLR_Hops [simp]: "LinkIDFromLR (u\<lparr>Hops := h\<rparr>) = LinkIDFromLR u"
  by (simp add: LinkIDFromLR_def GetHashablePart_def)

text \<open>What either side encrypts under the common token the other decrypts.\<close>

lemma same_token_decrypts:
  assumes "l_token l = Some t" and "l_token r = Some t" and "token_wf t" and "\<And>n b. rt n = Some b \<Longrightarrow> length b = n"
    and "link_Encrypt rt l data = Inr ct"
  shows "link_Decrypt r ct = Inr data"
proof -
  have "TokenEncrypt rt t data = Inr ct"
    using assms(1,5) by (cases "TokenEncrypt rt t data") (auto simp: link_Encrypt_def)
  then have "TokenDecryptData t ct = Inr data" using token_open [OF assms(3)] assms(4) by auto
  with assms(2) show ?thesis by (simp add: link_Decrypt_def)
qed

text \<open>
  C2: A link comes up. A node that holds the public keys of a single destination and the node that has the
  destination's identity run the handshake: both ends become active with the same link identifier and the
  same session token, each knowing the other's ephemeral key, and whatever one end encrypts the other decrypts.
\<close>

theorem link_established:
  assumes law: "curves_law cs" and cs: "lv_curves envI = cs" "lv_curves envR = cs" and env: "benign envI" "benign envR"
    and kI: "GenerateX25519PrivateKey (fst rI) = Inr k" "GenerateEd25519PrivateKey (snd rI) = Inr ks"
    and kR: "GenerateX25519PrivateKey (fst rR) = Inr k'" "GenerateEd25519PrivateKey (snd rR) = Inr ks'"
    and agree: "x25519_exchange cs k (x25519_pub cs k') \<noteq> None"
    and dI: "d_Type dI = DestinationSingle" "length (d_Hash dI) = 16" "d_identity dI = Some i'"
    and dR: "d_identity dR = Some i" "full_identity cs i" "pub i' = pub i" "sigPub i' = sigPub i"
  shows "\<exists>l r tok. link_setup envI envR rI rR t ifI ifR h dI dR = Some (l, r)
    \<and> l_status l = LinkActive \<and> l_status r = LinkActive \<and> l_linkID l = l_linkID r \<and> l_initiator l \<and> \<not> l_initiator r
    \<and> l_token l = Some tok \<and> l_token r = Some tok
    \<and> l_peerPub l = Some (x25519_pub cs k') \<and> l_peerPub r = Some (x25519_pub cs k) \<and> l_peerSigPub l = sigPub i
    \<and> (\<forall>rt data ct. (\<forall>n b. rt n = Some b \<longrightarrow> length b = n) \<longrightarrow>
         (link_Encrypt rt l data = Inr ct \<longrightarrow> link_Decrypt r ct = Inr data) \<and>
         (link_Encrypt rt r data = Inr ct \<longrightarrow> link_Decrypt l ct = Inr data))"
proof -
  obtain sp where sp: "sigPub i = Some sp" using dR(2) by (auto simp: full_identity_def)
  obtain shared where shared: "x25519_exchange cs k (x25519_pub cs k') = Some shared" using agree by auto
  then have shared': "x25519_exchange cs k' (x25519_pub cs k) = Some shared" "length shared = 32"
    using law by (auto simp: curves_law_def)
  obtain l0 where l0: "NewLink envI (fst rI) (snd rI) (Some dI) = Inr l0" "l_prv l0 = k"
    using kI dI(1) by (simp add: NewLink_def Let_def UpdateMDU_def)
  note f = NewLink_fields [OF l0(1)]
  obtain l1 ev1 raw1 u1 where s1: "Establish envI (t 0) l0 = (l1, [LinkRegistered, ev1], None)" "event_frame ev1 = Some raw1"
      "Unpack (NewPacketFromRaw raw1) = (u1, None)" "Data u1 = l_pubBytes l0 @ l_sigPubBytes l0 @ signallingBytes envI l0"
      "LinkIDFromLR u1 = Some (l_linkID l1)"
      "bookkept (l0\<lparr>l_linkID := l_linkID l1, l_requestTime := t 0, l_establishmentTimeout := l_establishmentTimeout l1\<rparr>) l1"
    using establish_request [OF l0(1) _ env(1) dI(2), of "t 0"] law cs by auto
  note b = bookkept_fields [OF s1(6), simplified]
  let ?q1 = "u1\<lparr>Hops := h\<rparr>"
  have lens: "length (l_pubBytes l0) = 32" "length (l_sigPubBytes l0) = 32" using f law cs by (auto simp: curves_law_def)
  obtain tok where tok: "session_token cs LinkModeAES256CBC k (x25519_pub cs k') (l_linkID l1) = Some tok"
      "session_token cs LinkModeAES256CBC k' (x25519_pub cs k) (l_linkID l1) = Some tok"
    using session_token_ok [OF shared shared'(2), of LinkModeAES256CBC "l_linkID l1"] shared shared' by (auto simp: session_token_def)
  have pubI: "l_pubBytes l0 = x25519_pub cs k" using f l0(2) cs by simp
  obtain r1 ev2 raw2 q2 sigb where s2: "ValidateRequest envR (fst rR) (snd rR) (t 1) ifR dR (Data ?q1) ?q1 = ([LinkRegistered, ev2], Inr r1)"
      "event_frame ev2 = Some raw2" "Unpack (NewPacketFromRaw raw2) = (q2, None)" "Data q2 = sigb @ x25519_pub cs k' @ signallingBytes envR r1"
      "identity_Sign cs i (l_linkID l1 @ x25519_pub cs k' @ sp @ signallingBytes envR r1) = Inr sigb"
      "l_linkID r1 = l_linkID l1" "l_status r1 = LinkHandshake" "l_token r1 = Some tok" "\<not> l_initiator r1" "l_peerPub r1 = Some (l_pubBytes l0)"
    using request_answered [OF law cs(2) env(2) kR dR(1,2) sp, of ?q1 "l_pubBytes l0" "l_sigPubBytes l0" "signallingBytes envI l0" "l_linkID l1" tok "t 1" ifR]
      s1(4,5) lens tok(2) pubI by auto
  have pend: "l_status l1 = LinkPending" "length (l_linkID l1) = 16" "l_destination l1 = Some dI" "l_initiator l1" "l_mode l1 = LinkModeAES256CBC" "l_prv l1 = k"
    using b f l0(2) length_LinkID [OF s1(5)] by simp_all
  have kl: "length (x25519_pub cs k') = 32" using law by (simp add: curves_law_def)
  obtain l2 ev3 raw3 q3 where s3: "link_ValidateProof envI (t 2) ifI (q2\<lparr>Hops := h\<rparr>) l1 =
        (l2, [LinkActivated, ev3] @ (if cb_LinkEstablished (l_callbacks l1) then [EstablishedCallback] else []), None)"
      "event_frame ev3 = Some raw3" "Unpack (NewPacketFromRaw raw3) = (q3, None)" "TokenDecryptData tok (Data q3) = Inr (rtt_payload envI l2)"
      "l_status l2 = LinkActive" "l_token l2 = Some tok" "l_linkID l2 = l_linkID l1" "l_peerPub l2 = Some (x25519_pub cs k')" "l_peerSigPub l2 = Some sp"
      "l_initiator l2"
    using proof_accepted [OF law cs(1) env(1) pend(3) dI(3) dR(3,4,2) sp, of "q2\<lparr>Hops := h\<rparr>" sigb "x25519_pub cs k'" "signallingBytes envR r1" tok "t 2" ifI]
      s2(4,5) kl length_signallingBytes [of envR r1] pend tok(1) by auto
  obtain r2 ev4 where s4: "HandleRTT envR (t 3) (q3\<lparr>Hops := h\<rparr>) r1 = (r2, ev4)" "l_status r2 = LinkActive" "l_token r2 = Some tok"
      "l_linkID r2 = l_linkID r1" "l_peerPub r2 = l_peerPub r1" "l_initiator r2 = l_initiator r1"
    using rtt_activates [OF s2(7,8), of "q3\<lparr>Hops := h\<rparr>" envI l2 envR "t 3"] s3(4) by auto
  have "link_setup envI envR rI rR t ifI ifR h dI dR = Some (l2, r2)"
    using l0 s1(1) s2(1) s3(1) s4(1) arrival_frame(1) [OF s1(2,3)] arrival_frame(1) [OF s2(2,3)] arrival_frame(2) [OF s3(2,3)]
    by (simp add: link_setup_def)
  moreover have wf: "token_wf tok" by (rule session_token_wf [OF tok(1)])
  have "\<forall>rt data ct. (\<forall>n b. rt n = Some b \<longrightarrow> length b = n) \<longrightarrow>
      (link_Encrypt rt l2 data = Inr ct \<longrightarrow> link_Decrypt r2 ct = Inr data) \<and> (link_Encrypt rt r2 data = Inr ct \<longrightarrow> link_Decrypt l2 ct = Inr data)"
    using same_token_decrypts [OF s3(6) s4(3) wf] same_token_decrypts [OF s4(3) s3(6) wf] by blast
  ultimately show ?thesis using s2(6,9,10) s3(5-10) s4 pubI sp by (intro exI [of _ l2] exI [of _ r2] exI [of _ tok]) simp
qed

theorem link_established_witness:
  "\<exists>l r tok. link_setup demo_link_env demo_link_env (demo_keys 1) (demo_keys 3) (\<lambda>n. int n * second) (Some 4) (Some 7) 1
       demo_destination demo_destination = Some (l, r)
     \<and> l_status l = LinkActive \<and> l_status r = LinkActive \<and> l_linkID l = l_linkID r \<and> l_token l = Some tok \<and> l_token r = Some tok"
proof -
  have "x25519_exchange demo_curves (replicate 32 1) (x25519_pub demo_curves (replicate 32 3)) \<noteq> None" by (simp add: demo_curves_def)
  moreover have "d_Type demo_destination = DestinationSingle" "length (d_Hash demo_destination) = 16"
    using demo_announceable by (auto simp: announceable_def FullHash_def dstLen_def)
  ultimately show ?thesis
    using link_established [of demo_curves demo_link_env demo_link_env "demo_keys 1" "replicate 32 1" "replicate 32 2" "demo_keys 3" "replicate 32 3"
        "replicate 32 4" demo_destination demo_identity demo_destination demo_identity "\<lambda>n. int n * second" "Some 4" "Some 7" 1]
      demo_curves_law demo_identity_full by auto
qed

end
