(* ===== verification/Session.thy ===== *)
theory Session
  imports Requests LinkSetup
begin

text \<open>
  What a link does with the packets it receives (\<^verbatim>\<open>Link.receive\<close> in \<^verbatim>\<open>rns/link.go\<close>), and its requests and responses: the
  dispatch by context, resource advertisements, requests and their handlers, responses, identification,
  keepalives, closing and data.

  The state of a link grows by the resources and request receipts it refers to. Both live in stores and are named
  by their index, which stands for their address in the code; the lists of outgoing and incoming resources and
  of pending requests hold addresses. A goroutine that an operation starts is a \<open>job\<close> among its effects, run
  later by \<open>run_job\<close>. A live link has a destination; where the code would dereference a nil one, which no link
  has, the model takes the branch without limit or handler.
\<close>

section \<open>State\<close>

text \<open>The function a resource calls when it concludes.\<close>

datatype conclude_callback =
    NoCallback
  | LinkRequestConcluded
  | LinkResponseConcluded
  | ReceiptConcluded nat
  | AppConcluded

record slot =
  s_resource :: resource
  s_concluded :: conclude_callback
  s_progress :: "nat option"

record session = link +
  io_resources :: "slot list"
  io_outgoing :: "nat list"
  io_incoming :: "nat list"
  io_receipts :: "request_receipt list"
  io_pending :: "nat list"

text \<open>The surroundings of the link, the bzip2 codec, the random source and map order of resources and the resource callback.\<close>

record session_env =
  se_link :: link_env
  se_compress :: "bytes \<Rightarrow> bytes option"
  se_bunzip :: "bytes \<Rightarrow> (bytes \<times> bool) option"
  se_randRead :: "nat \<Rightarrow> bytes option"
  se_order :: "(mvalue \<times> mvalue) list \<Rightarrow> (mvalue \<times> mvalue) list"
  se_Resource :: "(advertisement \<Rightarrow> bool) option"

datatype job =
    RunRequest nat bytes
  | RunHashmapUpdate nat bytes
  | RunReceivePart nat bytes
  | RunValidateProof nat bytes
  | RunAssemble nat
  | RunRequestNext nat
  | RunConcluded nat
  | RunHandleRequest bytes "mvalue list"
  | RunTimeout nat int

datatype session_event =
    Wire link_event
  | Go job
  | WatchdogStarted nat
  | PacketDelivered packet
  | ChannelReceived bytes
  | ResourceStarted nat
  | ResourceConcluded nat
  | ResponseDelivered nat
  | RequestFailure nat
  | RequestProgress nat
  | RemoteIdentified identity
  | HandlerCalled bytes mvalue bytes "identity option"
  | CacheAsked bytes
  | Crashed

section \<open>Receipts and resources of a link\<close>

fun receipt_event :: "nat \<Rightarrow> request_event \<Rightarrow> session_event list" where
  "receipt_event k ResponseCallback = [ResponseDelivered k]"
| "receipt_event k FailedCallback = [RequestFailure k]"
| "receipt_event k RequestProgressCallback = [RequestProgress k]"
| "receipt_event k LeavesPending = []"
| "receipt_event k (ArmTimeout deadline) = [Go (RunTimeout k deadline)]"

definition removePendingRequest :: "nat \<Rightarrow> session \<Rightarrow> session" where
  "removePendingRequest k s = s\<lparr>io_pending := remove1 k (io_pending s)\<rparr>"

definition on_receipt :: "(request_receipt \<Rightarrow> request_receipt \<times> request_event list) \<Rightarrow> nat \<Rightarrow> session \<Rightarrow> session \<times> session_event list" where
  "on_receipt f k s =
     (case f (io_receipts s ! k) of (rr, ev) \<Rightarrow>
        let s = s\<lparr>io_receipts := (io_receipts s)[k := rr]\<rparr>
        in (if LeavesPending \<in> set ev then removePendingRequest k s else s, concat (map (receipt_event k) ev)))"

text \<open>The pending receipt with a request identifier.\<close>

definition pending_receipt :: "bytes \<Rightarrow> session \<Rightarrow> nat option" where
  "pending_receipt requestID s = List.find (\<lambda>k. rr_RequestID (io_receipts s ! k) = requestID) (io_pending s)"

definition resource_at :: "session \<Rightarrow> nat \<Rightarrow> resource" where
  "resource_at s a = s_resource (io_resources s ! a)"

fun resource_effect :: "nat \<Rightarrow> resource_event \<Rightarrow> session \<Rightarrow> session \<times> session_event list" where
  "resource_effect a (OnLink e) s = (s, [Wire e])"
| "resource_effect a ProgressCallback s =
     (case s_progress (io_resources s ! a) of None \<Rightarrow> (s, []) | Some k \<Rightarrow> on_receipt (responseResourceProgress a) k s)"
| "resource_effect a ConcludedCallback s = (s, [Go (RunConcluded a)])"
| "resource_effect a StartedCallback s = (s, [ResourceStarted a])"
| "resource_effect a JobAssemble s = (s, [Go (RunAssemble a)])"
| "resource_effect a JobRequestNext s = (s, [Go (RunRequestNext a)])"
| "resource_effect a (CacheRequested h) s = (s, [CacheAsked h])"
| "resource_effect a RemovedFromLink s =
     (if r_initiator (resource_at s a) then s\<lparr>io_outgoing := remove1 a (io_outgoing s)\<rparr>
      else s\<lparr>io_incoming := remove1 a (io_incoming s)\<rparr>, [])"

fun resource_effects :: "nat \<Rightarrow> resource_event list \<Rightarrow> session \<Rightarrow> session \<times> session_event list" where
  "resource_effects a [] s = (s, [])"
| "resource_effects a (e # es) s =
     (case resource_effect a e s of (s, out) \<Rightarrow> (case resource_effects a es s of (s, out') \<Rightarrow> (s, out @ out')))"

definition set_resource :: "nat \<Rightarrow> resource \<Rightarrow> session \<Rightarrow> session" where
  "set_resource a r s = s\<lparr>io_resources := (io_resources s)[a := (io_resources s ! a)\<lparr>s_resource := r\<rparr>]\<rparr>"

definition on_resource :: "nat \<Rightarrow> session \<times> resource \<times> resource_event list \<Rightarrow> session \<times> session_event list" where
  "on_resource a res = (case res of (s, r, ev) \<Rightarrow> resource_effects a ev (set_resource a r s))"

definition new_slot :: "resource \<Rightarrow> conclude_callback \<Rightarrow> nat option \<Rightarrow> session \<Rightarrow> session \<times> nat" where
  "new_slot r cb pcb s = (s\<lparr>io_resources := io_resources s @ [\<lparr>s_resource = r, s_concluded = cb, s_progress = pcb\<rparr>]\<rparr>, length (io_resources s))"

text \<open>The three-way result of accepting: an error, a resource that was already there, or a new one.\<close>

definition accept_resource ::
  "session_env \<Rightarrow> int \<Rightarrow> bytes \<Rightarrow> conclude_callback \<Rightarrow> nat option \<Rightarrow> session \<Rightarrow> session \<times> session_event list \<times> bool" where
  "accept_resource senv now data cb pcb s =
     (case Accept (se_link senv) now data (cb \<noteq> NoCallback) (cb_ResourceStarted (l_callbacks s)) (pcb \<noteq> None) s
             (map (resource_at s) (io_incoming s)) of
        (s, ev, Inl e) \<Rightarrow> (s, [], False)
      | (s, ev, Inr (Inl i)) \<Rightarrow> (s, [], True)
      | (s, ev, Inr (Inr r)) \<Rightarrow>
          (case new_slot r cb pcb s of (s, a) \<Rightarrow>
             (case resource_effects a ev (s\<lparr>io_incoming := io_incoming s @ [a]\<rparr>) of
                (s, out) \<Rightarrow> (s, out @ [WatchdogStarted a], True))))"

definition reject_resource :: "session_env \<Rightarrow> int \<Rightarrow> bytes \<Rightarrow> session \<Rightarrow> session \<times> session_event list" where
  "reject_resource senv now data s =
     (case Reject (se_link senv) now data s of (s, ev, e) \<Rightarrow> resource_effects 0 ev s)"

text \<open>A new resource joins the outgoing ones and is advertised.\<close>

definition advertise_resource ::
  "session_env \<Rightarrow> int \<Rightarrow> resource \<Rightarrow> conclude_callback \<Rightarrow> session \<Rightarrow> session \<times> session_event list \<times> resource_error option" where
  "advertise_resource senv now r cb s =
     (case new_slot (r\<lparr>r_callback := (cb \<noteq> NoCallback)\<rparr>) cb None s of (s, a) \<Rightarrow>
        (case Advertise (se_link senv) (se_order senv) now (s\<lparr>io_outgoing := io_outgoing s @ [a]\<rparr>) (resource_at s a) of
           (s, r, ev, e) \<Rightarrow>
             (case on_resource a (s, r, ev) of
                (s, out) \<Rightarrow> (s, out @ (if e = None then [WatchdogStarted a] else []), e))))"

definition ReadyForNewResource :: "session \<Rightarrow> bool" where
  "ReadyForNewResource s \<longleftrightarrow> io_outgoing s = []"

section \<open>Requests\<close>

record request_callbacks =
  rc_response :: bool
  rc_failed :: bool
  rc_progress :: bool

definition new_receipt_of ::
  "int \<Rightarrow> bytes \<Rightarrow> nat option \<Rightarrow> int \<Rightarrow> int \<Rightarrow> request_callbacks \<Rightarrow> request_receipt" where
  "new_receipt_of now requestID res timeout maxResponseSize cbs =
     \<lparr>rr_RequestID = requestID, rr_Resource = res, rr_Response = MNil, rr_Metadata = None, rr_Status = RequestSent, rr_SentAt = now,
      rr_StartedAt = time_zero, rr_ConcludedAt = time_zero, rr_Timeout = timeout, rr_maxResponseSize = maxResponseSize,
      rr_responseSize = None, rr_responseTransferSize = None, rr_callback = rc_response cbs, rr_failedCallback = rc_failed cbs,
      rr_progressCallback = rc_progress cbs, rr_responseResource = None\<rparr>"

definition add_receipt :: "request_receipt \<Rightarrow> session \<Rightarrow> session \<times> nat" where
  "add_receipt rr s =
     (s\<lparr>io_receipts := io_receipts s @ [rr], io_pending := io_pending s @ [length (io_receipts s)]\<rparr>, length (io_receipts s))"

definition packed_request :: "link_env \<Rightarrow> int \<Rightarrow> bytes \<Rightarrow> mvalue \<Rightarrow> bytes" where
  "packed_request env now path data =
     msgpack_Pack (MArray [MFloat64 (lv_Float64bits env (Seconds now)), MBin (TruncatedHash path), data])"

definition request_inline ::
  "session_env \<Rightarrow> int \<Rightarrow> bytes \<Rightarrow> request_callbacks \<Rightarrow> int \<Rightarrow> int \<Rightarrow> session
     \<Rightarrow> session \<times> session_event list \<times> (resource_error + nat)" where
  "request_inline senv now packedRequest cbs timeout maxResponseSize s =
     (case Pack ((link_packet (se_link senv) s packedRequest)\<lparr>Context := ContextRequest\<rparr>) of
        (p, Some e) \<Rightarrow> (s, [], Inl (ResourceSend (LinkPacket e)))
      | (p, None) \<Rightarrow>
          (case GetTruncatedHash p of
             None \<Rightarrow> (s, [Crashed], Inl (ResourceSend LinkPanic))
           | Some requestID \<Rightarrow>
               (case add_receipt (new_receipt_of now requestID None timeout maxResponseSize cbs) s of (s, k) \<Rightarrow>
                  (case link_send (se_link senv) now p s of
                     (s, _, ev, Some e) \<Rightarrow> (removePendingRequest k s, map Wire ev, Inl (ResourceSend e))
                   | (s, _, ev, None) \<Rightarrow>
                       let rr = io_receipts s ! k in
                       if rr_Status rr = RequestSent then
                         (s\<lparr>io_receipts := (io_receipts s)[k := rr\<lparr>rr_Status := RequestDelivered,
                              rr_StartedAt := (if rr_StartedAt rr = time_zero then now else rr_StartedAt rr)\<rparr>]\<rparr>,
                          map Wire ev @ [Go (RunTimeout k (now + timeout))], Inr k)
                       else (s, map Wire ev, Inr k)))))"

definition request_resource ::
  "session_env \<Rightarrow> int \<Rightarrow> bytes \<Rightarrow> request_callbacks \<Rightarrow> int \<Rightarrow> int \<Rightarrow> session
     \<Rightarrow> session \<times> session_event list \<times> (resource_error + nat)" where
  "request_resource senv now packedRequest cbs timeout maxResponseSize s =
     (case newResourceWithOptions (se_link senv) (se_compress senv) (se_randRead senv) packedRequest s
             \<lparr>ro_AutoCompress = False, ro_AutoCompressLimit = 0, ro_Metadata = []\<rparr> of
        Inl e \<Rightarrow> (s, [], Inl e)
      | Inr r \<Rightarrow>
          let requestID = TruncatedHash packedRequest in
          (case add_receipt (new_receipt_of now requestID (Some (length (io_resources s))) timeout maxResponseSize cbs) s of (s, k) \<Rightarrow>
             (case advertise_resource senv now (r\<lparr>r_requestID := Some requestID, r_isResponse := False\<rparr>) (ReceiptConcluded k) s of
                (s, out, Some e) \<Rightarrow> (s, out, Inl e)
              | (s, out, None) \<Rightarrow> (s, out, Inr k))))"

definition link_Request ::
  "session_env \<Rightarrow> int \<Rightarrow> bytes \<Rightarrow> mvalue \<Rightarrow> request_callbacks \<Rightarrow> int \<Rightarrow> int \<Rightarrow> session
     \<Rightarrow> session \<times> session_event list \<times> (resource_error + nat)" where
  "link_Request senv now path data cbs timeout maxResponseSize s =
     (let packedRequest = packed_request (se_link senv) now path data;
          timeout = (if timeout = 0 then to_duration (l_rtt s * l_trafficTimeoutFactor s) + 10 * second else timeout)
      in if int (length packedRequest) \<le> l_mdu s then request_inline senv now packedRequest cbs timeout maxResponseSize s
         else request_resource senv now packedRequest cbs timeout maxResponseSize s)"

section \<open>Handling requests\<close>

definition request_allowed :: "request_handler \<Rightarrow> 'a link_scheme \<Rightarrow> bool" where
  "request_allowed h s \<longleftrightarrow>
     rh_Allow h = AllowAll
     \<or> rh_Allow h = AllowList \<and> (case l_remoteIdentity s of None \<Rightarrow> False | Some i \<Rightarrow> id_Hash i \<in> set (rh_AllowedList h))"

text \<open>
  A response that is a pair of data and a map from strings to byte strings carries metadata. The code asks for
  Go's type \<^verbatim>\<open>map[string][]byte\<close>; such a map is represented by one with string keys and byte values.
\<close>

fun bytes_map :: "(mvalue \<times> mvalue) list \<Rightarrow> (bytes \<times> bytes) list option" where
  "bytes_map [] = Some []"
| "bytes_map ((MStr k, MBin v) # es) = map_option ((#) (k, v)) (bytes_map es)"
| "bytes_map (_ # es) = None"

definition split_response :: "mvalue \<Rightarrow> mvalue \<times> (bytes \<times> bytes) list option" where
  "split_response response =
     (case response of
        MArray [v, MMap m] \<Rightarrow> (case bytes_map m of None \<Rightarrow> (response, None) | Some meta \<Rightarrow> (v, Some meta))
      | _ \<Rightarrow> (response, None))"

definition send_response ::
  "session_env \<Rightarrow> int \<Rightarrow> request_handler \<Rightarrow> bytes \<Rightarrow> mvalue \<Rightarrow> session \<Rightarrow> session \<times> session_event list" where
  "send_response senv now h requestID response s =
     (case split_response response of (response, metadata) \<Rightarrow>
        let packedResponse = msgpack_Pack (MArray [MBin requestID, response]) in
        if metadata = None \<and> int (length packedResponse) \<le> l_mdu s then
          (case link_send (se_link senv) now ((link_packet (se_link senv) s packedResponse)\<lparr>Context := ContextResponse\<rparr>) s of
             (s, _, ev, e) \<Rightarrow> (s, map Wire ev))
        else
          (case newResourceWithOptions (se_link senv) (se_compress senv) (se_randRead senv) packedResponse s
                  \<lparr>ro_AutoCompress = rh_AutoCompress h, ro_AutoCompressLimit = rh_AutoCompressLimit h,
                   ro_Metadata = (case metadata of None \<Rightarrow> [] | Some m \<Rightarrow> m)\<rparr> of
             Inl e \<Rightarrow> (s, [])
           | Inr r \<Rightarrow>
               (case advertise_resource senv now (r\<lparr>r_requestID := Some requestID, r_isResponse := True\<rparr>) NoCallback s of
                  (s, out, e) \<Rightarrow> (s, out))))"

definition handleRequest :: "session_env \<Rightarrow> int \<Rightarrow> bytes \<Rightarrow> mvalue list \<Rightarrow> session \<Rightarrow> session \<times> session_event list" where
  "handleRequest senv now requestID unpackedRequest s =
     (if l_status s \<noteq> LinkActive \<or> length unpackedRequest < 3 then (s, [])
      else
        (case (numeric_value (se_link senv) (unpackedRequest ! 0), unpackedRequest ! 1) of
           (Some ts, MBin pathHash) \<Rightarrow>
             (case Option.bind (l_destination s) (\<lambda>d. d_requestHandlers d pathHash) of
                None \<Rightarrow> (s, [])
              | Some h \<Rightarrow>
                  if request_allowed h s then
                    let data = unpackedRequest ! 2;
                        response = rh_ResponseGenerator h (rh_Path h) data requestID (l_linkID s) (l_remoteIdentity s) (Seconds (to_duration ts));
                        called = HandlerCalled (rh_Path h) data requestID (l_remoteIdentity s)
                    in if response = MNil then (s, [called])
                       else (case send_response senv now h requestID response s of (s, out) \<Rightarrow> (s, called # out))
                  else (s, []))
         | _ \<Rightarrow> (s, [])))"

section \<open>Handling responses\<close>

definition packedResponseSize :: "mvalue \<Rightarrow> int" where
  "packedResponseSize responseData =
     (let packed = msgpack_Pack responseData in if length packed < 2 then 0 else int (length packed) - 2)"

definition handleResponse ::
  "int \<Rightarrow> bytes \<Rightarrow> mvalue \<Rightarrow> (bytes \<times> bytes) list option \<Rightarrow> int \<Rightarrow> int \<Rightarrow> bool \<Rightarrow> bool \<Rightarrow> session \<Rightarrow> session \<times> session_event list" where
  "handleResponse now requestID responseData metadata responseSize responseTransferSize checkSize updateSizes s =
     (if l_status s \<noteq> LinkActive then (s, [])
      else
        (case pending_receipt requestID s of
           None \<Rightarrow> (s, [])
         | Some k \<Rightarrow>
             let s = removePendingRequest k s;
                 maxResponseSize = rr_maxResponseSize (io_receipts s ! k);
                 s = (if updateSizes
                      then s\<lparr>io_receipts := (io_receipts s)[k := recordResponseSize responseSize responseTransferSize (io_receipts s ! k)]\<rparr>
                      else s)
             in on_receipt (if \<not> checkSize \<or> maxResponseSize = 0 \<or> responseSize \<le> maxResponseSize
                            then responseReceived now responseData metadata else ResponseRejected now) k s))"

definition failPendingResponseRequest :: "int \<Rightarrow> bytes option \<Rightarrow> session \<Rightarrow> session \<times> session_event list" where
  "failPendingResponseRequest now requestID s =
     (case requestID of
        None \<Rightarrow> (s, [])
      | Some q \<Rightarrow>
          if q = [] then (s, [])
          else (case pending_receipt q s of None \<Rightarrow> (s, []) | Some k \<Rightarrow> on_receipt (requestTimedOut now) k s))"

definition responseResourceConcluded :: "int \<Rightarrow> nat \<Rightarrow> session \<Rightarrow> session \<times> session_event list" where
  "responseResourceConcluded now a s =
     (let r = resource_at s a in
      if r_status r = ResourceStatusComplete then
        (case UnpackPreserveBinMapKeys (r_data r) of
           Inr (MArray (MBin requestID # responseData # _)) \<Rightarrow>
             handleResponse now requestID responseData (Some (r_metadata r)) 0 0 False False s
         | _ \<Rightarrow> (s, []))
      else failPendingResponseRequest now (r_requestID r) s)"

definition requestResourceConcluded :: "nat \<Rightarrow> session \<Rightarrow> session \<times> session_event list" where
  "requestResourceConcluded a s =
     (let r = resource_at s a in
      if r_status r = ResourceStatusComplete then
        (case UnpackPreserveBinMapKeys (r_data r) of
           Inr (MArray requestList) \<Rightarrow> (s, [Go (RunHandleRequest (TruncatedHash (r_data r)) requestList)])
         | _ \<Rightarrow> (s, []))
      else (s, []))"

section \<open>Receiving packets\<close>

definition note_inbound :: "int \<Rightarrow> packet \<Rightarrow> 'a link_scheme \<Rightarrow> 'a link_scheme" where
  "note_inbound now p l =
     (if l_status l \<noteq> LinkClosed \<and> \<not> (l_initiator l \<and> Context p = ContextKeepalive \<and> Data p \<noteq> [] \<and> hd (Data p) = 0xFF)
      then l\<lparr>l_lastInbound := now, l_lastData := (if Context p \<noteq> ContextKeepalive then now else l_lastData l), l_rx := l_rx l + 1,
             l_rxbytes := l_rxbytes l + of_nat (length (Data p)),
             l_status := (if l_status l = LinkStale then LinkActive else l_status l)\<rparr>
      else l)"

definition should_decrypt :: "int \<Rightarrow> bool" where
  "should_decrypt c \<longleftrightarrow>
     c \<noteq> ContextResource \<and> c \<noteq> ContextResourcePrf \<and> c \<noteq> ContextKeepalive \<and> c \<noteq> ContextCacheRequest \<and> c \<noteq> ContextLrproof"

definition max_request_size :: "'a link_scheme \<Rightarrow> int" where
  "max_request_size s = (case l_destination s of None \<Rightarrow> 0 | Some d \<Rightarrow> d_maxRequestSize d)"

definition receive_response_adv :: "session_env \<Rightarrow> int \<Rightarrow> bytes \<Rightarrow> advertisement \<Rightarrow> session \<Rightarrow> session \<times> session_event list" where
  "receive_response_adv senv now data adv s =
     (let pendingRR = pending_receipt (adv_Q adv) s in
      (case pendingRR of
         Some k \<Rightarrow>
           let m = rr_maxResponseSize (io_receipts s ! k) in
           if m > 0 \<and> adv_D adv > m then
             (case reject_resource senv now data s of (s, out) \<Rightarrow>
                (case on_receipt (ResponseRejected now) k s of (s, out') \<Rightarrow> (s, out @ out')))
           else
             (case accept_resource senv now data LinkResponseConcluded pendingRR s of (s, out, ok) \<Rightarrow>
                (if ok then s\<lparr>io_receipts := (io_receipts s)[k := recordResponseResourceSize (adv_D adv) (adv_T adv) (io_receipts s ! k)]\<rparr> else s, out))
       | None \<Rightarrow> (case accept_resource senv now data LinkResponseConcluded None s of (s, out, ok) \<Rightarrow> (s, out))))"

definition receive_adv :: "session_env \<Rightarrow> int \<Rightarrow> bytes \<Rightarrow> session \<Rightarrow> session \<times> session_event list" where
  "receive_adv senv now data s =
     (case UnpackResourceAdvertisement data of
        Inl e \<Rightarrow> (s, [])
      | Inr adv \<Rightarrow>
          if adv_IsRequest adv then
            (if max_request_size s > 0 \<and> adv_D adv > max_request_size s then reject_resource senv now data s
             else (case accept_resource senv now data LinkRequestConcluded None s of (s, out, ok) \<Rightarrow> (s, out)))
          else if adv_IsResponse adv then receive_response_adv senv now data adv s
          else if l_resourceStrategy s = AcceptAll
                  \<or> l_resourceStrategy s = AcceptApp \<and> (case se_Resource senv of None \<Rightarrow> False | Some f \<Rightarrow> f adv)
          then (case accept_resource senv now data (if cb_ResourceConcluded (l_callbacks s) then AppConcluded else NoCallback) None s of
                  (s, out, ok) \<Rightarrow> (s, out))
          else reject_resource senv now data s)"

definition receive_request :: "packet \<Rightarrow> session \<Rightarrow> session \<times> session_event list" where
  "receive_request p s =
     (case GetTruncatedHash p of
        None \<Rightarrow> (s, [Crashed])
      | Some requestID \<Rightarrow>
          if max_request_size s > 0 \<and> int (length (Data p)) > max_request_size s then (s, [])
          else (case UnpackPreserveBinMapKeys (Data p) of
                  Inr (MArray reqList) \<Rightarrow> (s, [Go (RunHandleRequest requestID reqList)])
                | _ \<Rightarrow> (s, [])))"

definition receive_response :: "int \<Rightarrow> bytes \<Rightarrow> session \<Rightarrow> session \<times> session_event list" where
  "receive_response now data s =
     (case UnpackPreserveBinMapKeys data of
        Inr (MArray (MBin requestID # responseData # _)) \<Rightarrow>
          let responseSize = packedResponseSize responseData in
          handleResponse now requestID responseData None responseSize responseSize True True s
      | _ \<Rightarrow> (s, []))"

text \<open>The first resource among some addresses that a request names.\<close>

definition receive_resource_req :: "bytes \<Rightarrow> session \<Rightarrow> session \<times> session_event list" where
  "receive_resource_req data s =
     (if data = [] then (s, [])
      else
        let offset = (if hd data = 0xFF then 1 + ResourceMapHashLen else 1) in
        (case List.find (\<lambda>a. let h = r_hash (resource_at s a) in
                length data \<ge> offset + length h \<and> go_slice offset (offset + length h) data = h) (io_outgoing s) of
           None \<Rightarrow> (s, [])
         | Some a \<Rightarrow> (s, [Go (RunRequest a data)])))"

definition receive_hmu :: "bytes \<Rightarrow> session \<Rightarrow> session \<times> session_event list" where
  "receive_hmu data s =
     (if length data < 32 then (s, [])
      else (case List.find (\<lambda>a. r_hash (resource_at s a) = take 32 data) (io_incoming s) of
              None \<Rightarrow> (s, [])
            | Some a \<Rightarrow> (s, [Go (RunHashmapUpdate a data)])))"

definition receive_resource_prf :: "packet \<Rightarrow> session \<Rightarrow> session \<times> session_event list" where
  "receive_resource_prf p s =
     (if PacketType p \<noteq> PacketProof \<or> length (Data p) < 64 then (s, [])
      else (case List.find (\<lambda>a. r_hash (resource_at s a) = take 32 (Data p)) (io_outgoing s) of
              None \<Rightarrow> (s, [])
            | Some a \<Rightarrow> (s, [Go (RunValidateProof a (Data p))])))"

definition receive_identify :: "session_env \<Rightarrow> int \<Rightarrow> bytes \<Rightarrow> session \<Rightarrow> session \<times> session_event list" where
  "receive_identify senv now data s =
     (if l_initiator s \<or> length data \<noteq> IdentityKeySize div 8 + 64 then (s, [])
      else
        let publicKey = take (IdentityKeySize div 8) data; signature = drop (IdentityKeySize div 8) data in
        (case LoadPublicKey publicKey empty_identity of
           (ident, Some e) \<Rightarrow> (s, [])
         | (ident, None) \<Rightarrow>
             if identity_Verify (lv_curves (se_link senv)) ident signature (l_linkID s @ publicKey) then
               (if lv_IsBlackholed (se_link senv) (id_Hash ident)
                then (case Teardown (se_link senv) now s of (s, ev) \<Rightarrow> (s, map Wire ev))
                else (s\<lparr>l_remoteIdentity := Some ident\<rparr>, if cb_RemoteIdentified (l_callbacks s) then [RemoteIdentified ident] else []))
             else (s, [])))"

definition receive_keepalive :: "session_env \<Rightarrow> int \<Rightarrow> bytes \<Rightarrow> session \<Rightarrow> session \<times> session_event list" where
  "receive_keepalive senv now data s =
     (if \<not> l_initiator s \<and> data \<noteq> [] \<and> hd data = 0xFF \<and> now \<ge> l_lastOutbound s + l_keepalive s then
        (case link_send (se_link senv) now ((link_packet (se_link senv) s [0xFE])\<lparr>Context := ContextKeepalive\<rparr>) s of
           (s, _, ev, Some e) \<Rightarrow> (s, map Wire ev)
         | (s, _, ev, None) \<Rightarrow> (hadKeepaliveOutbound now s, map Wire ev))
      else (s, []))"

definition receive_close :: "bytes \<Rightarrow> session \<Rightarrow> session \<times> session_event list" where
  "receive_close data s =
     (if data = l_linkID s then
        (case teardown (if l_initiator s then TeardownDestinationClosed else TeardownInitiatorClosed) s of (s, ev) \<Rightarrow> (s, map Wire ev))
      else (s, []))"

definition receive_channel :: "session_env \<Rightarrow> int \<Rightarrow> packet \<Rightarrow> session \<Rightarrow> session \<times> session_event list" where
  "receive_channel senv now p s =
     (case ProvePacket (se_link senv) now p s of
        (s, ev) \<Rightarrow> (s, map Wire ev @ (if l_channel s then [ChannelReceived (Data p)] else [])))"

text \<open>Whether the destination of the link wants a proof of a data packet.\<close>

definition wants_proof :: "packet \<Rightarrow> 'a link_scheme \<Rightarrow> bool" where
  "wants_proof p s =
     (case l_destination s of
        None \<Rightarrow> False
      | Some d \<Rightarrow>
          d_proofStrategy d = ProveAll
          \<or> d_proofStrategy d = ProveApp \<and> (case d_proofRequested d of None \<Rightarrow> False | Some f \<Rightarrow> f p))"

definition receive_data :: "session_env \<Rightarrow> int \<Rightarrow> packet \<Rightarrow> session \<Rightarrow> session \<times> session_event list" where
  "receive_data senv now p s =
     (if l_status s = LinkClosed \<or> l_status s = LinkPending then (s, [])
      else
        (case (if PacketType p \<noteq> PacketProof \<and> wants_proof p s then ProvePacket (se_link senv) now p s else (s, [])) of
           (s, ev) \<Rightarrow> (s, map Wire ev @ (if cb_Packet (l_callbacks s) then [PacketDelivered p] else []))))"

definition dispatch :: "session_env \<Rightarrow> int \<Rightarrow> packet \<Rightarrow> session \<Rightarrow> session \<times> session_event list" where
  "dispatch senv now p s =
     (let c = Context p in
      if c = ContextResourceAdv then receive_adv senv now (Data p) s
      else if c = ContextRequest then receive_request p s
      else if c = ContextResponse then receive_response now (Data p) s
      else if c = ContextResourceReq then receive_resource_req (Data p) s
      else if c = ContextResourceHmu then receive_hmu (Data p) s
      else if c = ContextResource then (s, map (\<lambda>a. Go (RunReceivePart a (Data p))) (io_incoming s))
      else if c = ContextResourcePrf then receive_resource_prf p s
      else if c = ContextLinkIdentify then receive_identify senv now (Data p) s
      else if c = ContextKeepalive then receive_keepalive senv now (Data p) s
      else if c = ContextLinkClose then receive_close (Data p) s
      else if c = ContextChannel then receive_channel senv now p s
      else receive_data senv now p s)"

definition receive :: "session_env \<Rightarrow> int \<Rightarrow> nat option \<Rightarrow> packet \<Rightarrow> session \<Rightarrow> session \<times> session_event list" where
  "receive senv now iface p s =
     (let s = note_inbound now p s in
      if Context p = ContextLrproof then
        (case link_ValidateProof (se_link senv) now iface p s of
           (s, ev, e) \<Rightarrow> (s, map Wire ev @ (if e = Some LinkPanic then [Crashed] else [])))
      else if Context p = ContextLrrtt then
        (if l_initiator s then (s, []) else (case HandleRTT (se_link senv) now p s of (s, ev) \<Rightarrow> (s, map Wire ev)))
      else if should_decrypt (Context p) then
        (if l_status s = LinkClosed then (s, [])
         else (case link_Decrypt s (Data p) of
                 Inl e \<Rightarrow> (s, if e = LinkCrypto CryptoPanic then [Crashed] else [])
               | Inr plaintext \<Rightarrow> dispatch senv now (p\<lparr>Data := plaintext\<rparr>) s))
      else dispatch senv now p s)"

text \<open>
  The transport hands a link proof to its link when the hop counts agree, or when a valid signature lets it adopt
  the hop count of the proof; the last component is the hop count that the path table adopts.
\<close>

definition deliverLinkProof ::
  "session_env \<Rightarrow> int \<Rightarrow> nat option \<Rightarrow> bool \<Rightarrow> packet \<Rightarrow> session \<Rightarrow> session \<times> session_event list \<times> int option" where
  "deliverLinkProof senv now iface allowRebalance p s =
     (if l_status s \<noteq> LinkPending then (s, [], None)
      else if Hops p \<noteq> l_expectedHops s then
        (if \<not> allowRebalance then (s, [], None)
         else (case verifyProofSignatureLocked (lv_curves (se_link senv)) p s of
                 None \<Rightarrow> (s, [Crashed], None)
               | Some False \<Rightarrow> (s, [], None)
               | Some True \<Rightarrow>
                   (case receive senv now iface p (MarkRebalanced now (SetExpectedHops (Hops p) s)) of (s, ev) \<Rightarrow> (s, ev, Some (Hops p)))))
      else (case receive senv now iface p s of (s, ev) \<Rightarrow> (s, ev, None)))"

section \<open>Jobs\<close>

definition concluded_job :: "int \<Rightarrow> nat \<Rightarrow> session \<Rightarrow> session \<times> session_event list" where
  "concluded_job now a s =
     (case s_concluded (io_resources s ! a) of
        NoCallback \<Rightarrow> (s, [])
      | LinkRequestConcluded \<Rightarrow> requestResourceConcluded a s
      | LinkResponseConcluded \<Rightarrow> responseResourceConcluded now a s
      | ReceiptConcluded k \<Rightarrow>
          on_receipt (receipt_requestResourceConcluded now (r_status (resource_at s a) = ResourceStatusComplete)) k s
      | AppConcluded \<Rightarrow> (s, [ResourceConcluded a]))"

fun run_job :: "session_env \<Rightarrow> int \<Rightarrow> job \<Rightarrow> session \<Rightarrow> session \<times> session_event list" where
  "run_job senv now (RunRequest a data) s =
     (case resource_Request (se_link senv) now data s (resource_at s a) of (s, r, ev, e) \<Rightarrow> on_resource a (s, r, ev))"
| "run_job senv now (RunHashmapUpdate a data) s =
     (case hashmapUpdateLocked (se_link senv) now data s (resource_at s a) of (s, r, ev, e) \<Rightarrow> on_resource a (s, r, ev))"
| "run_job senv now (RunReceivePart a data) s =
     (case ReceivePart now data (resource_at s a) of (r, ev, e) \<Rightarrow> on_resource a (s, r, ev))"
| "run_job senv now (RunValidateProof a data) s = on_resource a (resource_ValidateProof now data s (resource_at s a))"
| "run_job senv now (RunAssemble a) s = on_resource a (Assemble (se_link senv) (se_bunzip senv) now s (resource_at s a))"
| "run_job senv now (RunRequestNext a) s =
     (case requestNextLockedAt (se_link senv) now s (resource_at s a) of (s, r, ev, e) \<Rightarrow> on_resource a (s, r, ev))"
| "run_job senv now (RunConcluded a) s = concluded_job now a s"
| "run_job senv now (RunHandleRequest requestID vs) s = handleRequest senv now requestID vs s"
| "run_job senv now (RunTimeout k deadline) s =
     (case responseTimeoutJob now deadline (io_receipts s ! k) of (_, _, again) \<Rightarrow>
        (case on_receipt (\<lambda>rr. case responseTimeoutJob now deadline rr of (rr, ev, _) \<Rightarrow> (rr, ev)) k s of
           (s, out) \<Rightarrow> (s, out @ (if again then [Go (RunTimeout k deadline)] else []))))"

text \<open>Cancelling a resource and one step of its watchdog.\<close>

definition cancel_resource :: "session_env \<Rightarrow> int \<Rightarrow> nat \<Rightarrow> session \<Rightarrow> session \<times> session_event list" where
  "cancel_resource senv now a s = on_resource a (Cancel (se_link senv) now s (resource_at s a))"

definition tick_resource :: "session_env \<Rightarrow> int \<Rightarrow> nat \<Rightarrow> session \<Rightarrow> session \<times> session_event list" where
  "tick_resource senv now a s =
     (case resource_watchdogStep (se_link senv) (se_order senv) now s (resource_at s a) of (s, r, ev, _, _) \<Rightarrow> on_resource a (s, r, ev))"

end
