(* ===== verification/Exchange.thy ===== *)
theory Exchange
  imports Session
begin

text \<open>
  Two ends of a link exchanging packets: what a packet sent by one end is when the other end receives it.
\<close>

section \<open>From one end to the other\<close>

lemma bookkept_session:
  assumes "bookkept s s'"
  shows "io_resources s' = io_resources s" "io_outgoing s' = io_outgoing s" "io_incoming s' = io_incoming s"
    "io_receipts s' = io_receipts s" "io_pending s' = io_pending s"
proof -
  obtain lo cost n nb ld lk where "s = s'\<lparr>l_lastOutbound := lo, l_establishmentCost := cost, l_tx := n, l_txbytes := nb,
      l_lastData := ld, l_lastKeepalive := lk\<rparr>"
    using assms unfolding bookkept_def by metis
  then show "io_resources s' = io_resources s" "io_outgoing s' = io_outgoing s" "io_incoming s' = io_incoming s"
    "io_receipts s' = io_receipts s" "io_pending s' = io_pending s" by simp_all
qed

lemma bookkept_stores:
  assumes "bookkept s s'"
  shows "bookkept (s\<lparr>io_receipts := x\<rparr>) (s'\<lparr>io_receipts := x\<rparr>)" "bookkept (s\<lparr>io_resources := y\<rparr>) (s'\<lparr>io_resources := y\<rparr>)"
proof -
  obtain lo cost n nb ld lk where "s = s'\<lparr>l_lastOutbound := lo, l_establishmentCost := cost, l_tx := n, l_txbytes := nb,
      l_lastData := ld, l_lastKeepalive := lk\<rparr>"
    using assms unfolding bookkept_def by metis
  then show "bookkept (s\<lparr>io_receipts := x\<rparr>) (s'\<lparr>io_receipts := x\<rparr>)" "bookkept (s\<lparr>io_resources := y\<rparr>) (s'\<lparr>io_resources := y\<rparr>)"
    by (simp_all add: bookkept_def)
qed

lemmas bookkept_all = bookkept_fields bookkept_session

lemma note_inbound_fields [simp]:
  "l_token (note_inbound now p l) = l_token l" "l_linkID (note_inbound now p l) = l_linkID l" "l_mdu (note_inbound now p l) = l_mdu l"
  "l_mtu (note_inbound now p l) = l_mtu l" "l_rtt (note_inbound now p l) = l_rtt l" "l_initiator (note_inbound now p l) = l_initiator l"
  "l_destination (note_inbound now p l) = l_destination l" "l_remoteIdentity (note_inbound now p l) = l_remoteIdentity l"
  "l_callbacks (note_inbound now p l) = l_callbacks l" "l_resourceStrategy (note_inbound now p l) = l_resourceStrategy l"
  "l_attachedInterface (note_inbound now p l) = l_attachedInterface l" "l_peerPub (note_inbound now p l) = l_peerPub l"
  "l_prv (note_inbound now p l) = l_prv l" "l_mode (note_inbound now p l) = l_mode l" "l_peerSigPub (note_inbound now p l) = l_peerSigPub l"
  "l_channel (note_inbound now p l) = l_channel l" "l_sigPrv (note_inbound now p l) = l_sigPrv l"
  "l_trafficTimeoutFactor (note_inbound now p l) = l_trafficTimeoutFactor l" "l_pubBytes (note_inbound now p l) = l_pubBytes l"
  "l_status (note_inbound now p l) = (if l_status l = LinkStale \<and> \<not> (l_initiator l \<and> Context p = ContextKeepalive \<and> Data p \<noteq> [] \<and> hd (Data p) = 0xFF)
     then LinkActive else l_status l)"
  by (simp_all add: note_inbound_def)

lemma note_inbound_session [simp]:
  "io_resources (note_inbound now p s) = io_resources s" "io_outgoing (note_inbound now p s) = io_outgoing s"
  "io_incoming (note_inbound now p s) = io_incoming s" "io_receipts (note_inbound now p s) = io_receipts s"
  "io_pending (note_inbound now p s) = io_pending s"
  by (simp_all add: note_inbound_def)

text \<open>An end of a link that is up under a session token.\<close>

definition up :: "token \<Rightarrow> 'a link_scheme \<Rightarrow> bool" where
  "up t l \<longleftrightarrow> l_status l = LinkActive \<and> l_token l = Some t \<and> token_wf t \<and> length (l_linkID l) = 16"

lemma up_bookkept: "bookkept l l' \<Longrightarrow> up t l' = up t l"
  by (simp add: up_def bookkept_fields)

lemma up_note_inbound [simp]: "up t l \<Longrightarrow> up t (note_inbound now p l)"
  by (simp add: up_def)

text \<open>A frame that carries a payload of a context on a link under a token.\<close>

definition carries :: "token \<Rightarrow> int \<Rightarrow> int \<Rightarrow> bytes \<Rightarrow> bytes \<Rightarrow> bool" where
  "carries t ty c data raw \<longleftrightarrow> (\<exists>u. Unpack (NewPacketFromRaw raw) = (u, None) \<and> Context u = c \<and> PacketType u = ty \<and> HeaderType u = Header1
     \<and> length raw \<ge> 19 \<and> (if should_decrypt c then TokenDecryptData t (Data u) = Inr data else Data u = data))"

lemma sealed:
  assumes "up t l" and "benign env"
  shows "\<exists>ct. link_Encrypt (lv_random env) l data = Inr ct \<and> length ct = 48 + (length data div 16 + 1) * 16 \<and> TokenDecryptData t ct = Inr data"
proof -
  obtain iv where iv: "lv_random env 16 = Some iv" "length iv = 16" using assms(2) by (auto simp: benign_def)
  have t: "l_token l = Some t" "token_wf t" using assms(1) by (auto simp: up_def)
  obtain ct where ct: "link_Encrypt (lv_random env) l data = Inr ct" "length ct = 48 + (length data div 16 + 1) * 16"
    using link_Encrypt_length [where rt = "lv_random env", OF t iv] by auto
  have "link_Decrypt l ct = Inr data"
    using same_token_decrypts [OF t(1,1,2) _ ct(1)] assms(2) by (auto simp: benign_def)
  then have "TokenDecryptData t ct = Inr data" using t(1) by (cases "TokenDecryptData t ct") (auto simp: link_Decrypt_def)
  with ct show ?thesis by blast
qed

text \<open>What is sent: the payload fits the ciphertext limit when sealed, or as it is.\<close>

definition fits :: "int \<Rightarrow> bytes \<Rightarrow> bool" where
  "fits c data \<longleftrightarrow> (if should_decrypt c then length data \<le> 431 else length data \<le> 481)"

lemma packed_on_link:
  assumes "up t l" and "benign env" and "fits c data" and "0 \<le> c" and "c < 256" and "ty = (if c = ContextResourcePrf then 3 else 0)"
    and p: "p = (link_packet env l data)\<lparr>PacketType := ty, Context := c\<rparr>"
  shows "\<exists>ct raw h f. Pack p = (p\<lparr>DestinationHash := l_linkID l, Flags := f, Ciphertext := ct, Raw := raw, Packed := True, PacketHash := h\<rparr>, None)
    \<and> carries t ty c data raw \<and> length raw \<ge> 19"
proof -
  have enc: "should_encrypt p = should_decrypt c" using assms(6) p by (auto simp: should_encrypt_def should_decrypt_def)
  obtain ct where ct: "if should_encrypt p then link_Encrypt (lv_random env) l data = Inr ct \<and> TokenDecryptData t ct = Inr data else ct = data"
      "length ct \<le> 481"
  proof (cases "should_encrypt p")
    case True
    then have "length data div 16 + 1 \<le> 27" using assms(3) enc by (simp add: fits_def)
    with sealed [OF assms(1,2), of data] True that show ?thesis by auto
  next
    case False
    with assms(3) enc that [of data] show ?thesis by (auto simp: fits_def)
  qed
  have d: "Destination p = Some (link_dest env l)" "HeaderType p = Header1" "packet_MTU p = 500" "Data p = data" using p by (simp_all add: MTU_def)
  have lid: "length (l_linkID l) = 16" using assms(1) by (simp add: up_def)
  have "if should_encrypt p then dest_encrypt (link_dest env l) (Data p) = Some ct else ct = Data p"
    using ct(1) p by (simp add: link_dest_def split: if_splits)
  then obtain raw h f where q: "Pack p = (p\<lparr>DestinationHash := l_linkID l, Flags := f, Ciphertext := ct, Raw := raw, Packed := True, PacketHash := h\<rparr>, None)"
      "length raw = 16 + length ct + 3"
    using Pack_fits [OF d(1,2), of ct] d(3) ct(2) lid by (auto simp del: split_paired_Ex)
  have "packet_wf (link_dest env l) p" using p lid assms(4-6)
    by (auto simp: packet_wf_def packet_consts dstLen_def PathfinderM_def)
  from unpack_of_pack [OF this q(1)] obtain u where u: "Unpack (NewPacketFromRaw raw) = (u, None)" "Data u = ct" "Context u = c"
      "PacketType u = ty" "HeaderType u = Header1"
    using p by (auto split: if_splits)
  have "if should_decrypt c then TokenDecryptData t ct = Inr data else ct = data" using ct(1) enc by (auto split: if_splits)
  with u q(2) have "carries t ty c data raw" by (auto simp: carries_def)
  with q show ?thesis by (intro exI [of _ ct] exI [of _ raw] exI [of _ h] exI [of _ f]) simp
qed

lemma sent_on_link:
  assumes "up t l" and "benign env" and "fits c data" and "0 \<le> c" and "c < 256" and "ty = (if c = ContextResourcePrf then 3 else 0)"
  shows "\<exists>l' q ev raw. link_send env now ((link_packet env l data)\<lparr>PacketType := ty, Context := c\<rparr>) l = (l', q, [ev], None)
      \<and> event_frame ev = Some raw \<and> carries t ty c data raw \<and> bookkept l l'" (is ?A)
    and "\<exists>l' q ev raw. transport_Send env now ((link_packet env l data)\<lparr>PacketType := ty, Context := c\<rparr>) l = (l', q, [ev], None)
      \<and> event_frame ev = Some raw \<and> carries t ty c data raw \<and> bookkept l l'" (is ?B)
proof -
  define p where "p = (link_packet env l data)\<lparr>PacketType := ty, Context := c\<rparr>"
  have d: "Destination p = Some (link_dest env l)" "packet_transport p" "\<not> Sent p" "Hops p = 0" "\<not> Packed p" by (simp_all add: p_def)
  obtain ct raw h f where q: "Pack p = (p\<lparr>DestinationHash := l_linkID l, Flags := f, Ciphertext := ct, Raw := raw, Packed := True, PacketHash := h\<rparr>, None)"
      and c: "carries t ty c data raw" and len: "length raw \<ge> 19"
    using packed_on_link [OF assms p_def] by auto
  define q where "q = p\<lparr>DestinationHash := l_linkID l, Flags := f, Ciphertext := ct, Raw := raw, Packed := True, PacketHash := h\<rparr>"
  have st: "l_status l \<noteq> LinkClosed" using assms(1) by (simp add: up_def)
  have "\<exists>l' q' ev. link_send env now p l = (l', q', [ev], None) \<and> event_frame ev = Some (Raw q) \<and> bookkept l l'"
    using d q [folded q_def] assms(2) st len by (intro link_send_ok [where d = "link_dest env l"]) (simp_all add: q_def)
  with c show ?A unfolding p_def by (auto simp: q_def)
  obtain r where "send_receipt q = (q\<lparr>Receipt := r\<rparr>, SendOutbound)" using send_receipt_ok [of q] d len by (auto simp: q_def)
  then have "\<exists>counted. packet_Send p = (q\<lparr>Receipt := r\<rparr>, SendOutbound, counted)"
    using d q [folded q_def] st by (auto simp: packet_Send_def PathfinderM_def q_def)
  then have "\<exists>l' q' ev. transport_Send env now p l = (l', q', [ev], None) \<and> event_frame ev = Some raw"
    using assms(2) by (auto simp: transport_Send_def benign_def Let_def q_def)
  with c transport_Send_bookkept show ?B unfolding p_def by blast
qed

text \<open>The arrival of a frame at the other end.\<close>

definition arrives :: "session_env \<Rightarrow> int \<Rightarrow> nat option \<Rightarrow> int \<Rightarrow> bytes \<Rightarrow> session \<Rightarrow> session \<times> session_event list" where
  "arrives senv now iface h raw s = (case deliver h raw of None \<Rightarrow> (s, []) | Some p \<Rightarrow> receive senv now iface p s)"

lemma arrives_carried:
  assumes "carries t ty c data raw" and "up t s" and "c \<noteq> ContextLrproof" and "c \<noteq> ContextLrrtt"
  shows "\<exists>p q. Context p = c \<and> PacketType p = ty \<and> Data p = data \<and> Raw p = raw \<and> HeaderType p = Header1 \<and> length raw \<ge> 19
    \<and> arrives senv now iface h raw s = dispatch senv now p (note_inbound now q s)"
proof -
  obtain u where u: "Unpack (NewPacketFromRaw raw) = (u, None)" "Context u = c" "PacketType u = ty" "HeaderType u = Header1" "length raw \<ge> 19"
      "if should_decrypt c then TokenDecryptData t (Data u) = Inr data else Data u = data"
    using assms(1) by (auto simp: carries_def)
  have raw: "Raw u = raw" using Unpack_Raw [OF u(1)] by (simp add: NewPacketFromRaw_def)
  define q where "q = u\<lparr>Hops := h\<rparr>"
  have "arrives senv now iface h raw s = dispatch senv now (q\<lparr>Data := data\<rparr>) (note_inbound now q s)"
    using u assms(2-4) by (auto simp: arrives_def deliver_def receive_def Let_def link_Decrypt_def up_def q_def)
  then show ?thesis using u raw
    by (intro exI [of _ "q\<lparr>Data := data\<rparr>"] exI [of _ q]) (simp add: q_def)
qed

end
