(* ===== verification/RequestResponse.thy ===== *)
theory RequestResponse
  imports Exchange
begin

text \<open>
  A request over a link and its response (\<^verbatim>\<open>Link.Request\<close>, \<^verbatim>\<open>handleRequest\<close> and \<^verbatim>\<open>handleResponse\<close> in \<^verbatim>\<open>rns/link.go\<close>), from the
  call at one end to the callback there, through the handler at the other.
\<close>

section \<open>A request and its response\<close>

definition wire_frames :: "session_event list \<Rightarrow> bytes list" where
  "wire_frames ev = List.map_filter (\<lambda>e. case e of Wire w \<Rightarrow> event_frame w | _ \<Rightarrow> None) ev"

definition jobs :: "session_event list \<Rightarrow> job list" where
  "jobs ev = List.map_filter (\<lambda>e. case e of Go j \<Rightarrow> Some j | _ \<Rightarrow> None) ev"

fun only :: "'a list \<Rightarrow> 'a option" where
  "only [x] = Some x"
| "only _ = None"

lemma wire_simps [simp]:
  "wire_frames [] = []" "wire_frames (Wire w # ev) = (case event_frame w of None \<Rightarrow> wire_frames ev | Some r \<Rightarrow> r # wire_frames ev)"
  "wire_frames (Go j # ev) = wire_frames ev" "wire_frames (HandlerCalled pa d i r # ev) = wire_frames ev"
  "jobs [] = []" "jobs (Go j # ev) = j # jobs ev" "jobs (Wire w # ev) = jobs ev"
  by (simp_all add: wire_frames_def jobs_def List.map_filter_def split: option.splits)

text \<open>One end asks, the other answers: the frames travel as they were packed, and the job that the request starts runs.\<close>

definition request_exchange ::
  "session_env \<Rightarrow> session_env \<Rightarrow> (nat \<Rightarrow> int) \<Rightarrow> nat option \<Rightarrow> nat option \<Rightarrow> int \<Rightarrow> bytes \<Rightarrow> mvalue \<Rightarrow> request_callbacks \<Rightarrow> int \<Rightarrow> int
     \<Rightarrow> session \<Rightarrow> session \<Rightarrow> (nat \<times> session \<times> session_event list \<times> session_event list) option" where
  "request_exchange senvA senvB t ifA ifB h path data cbs timeout maxSize a b = do {
     let (a1, ev1, res) = link_Request senvA (t 0) path data cbs timeout maxSize a;
     k \<leftarrow> sum_option res;
     request \<leftarrow> only (wire_frames ev1);
     let (b1, ev2) = arrives senvB (t 1) ifB h request b;
     j \<leftarrow> only (jobs ev2);
     let (b2, ev3) = run_job senvB (t 2) j b1;
     response \<leftarrow> only (wire_frames ev3);
     let (a2, ev4) = arrives senvA (t 3) ifA h response a1;
     Some (k, a2, ev3, ev4)
   }"

lemma link_packet_data: "(link_packet env l data)\<lparr>PacketType := 0\<rparr> = link_packet env l data"
  by (simp add: link_packet_def NewPacketWithTransport_def empty_packet_def Let_def)

text \<open>The inline request: its frame carries it, and its identifier is the truncated hash of the frame.\<close>

lemma request_inline_sent:
  assumes "up t s" and "benign (se_link senv)" and "length packed \<le> 431"
  shows "\<exists>s' ev raw rid. request_inline senv now packed cbs timeout maxSize s = (s', [Wire ev, Go (RunTimeout (length (io_receipts s)) (now + timeout))], Inr (length (io_receipts s)))
    \<and> event_frame ev = Some raw \<and> carries t 0 ContextRequest packed raw
    \<and> rid = TruncatedHash ((hd raw AND 15) # drop 2 raw)
    \<and> bookkept (s\<lparr>io_receipts := io_receipts s @ [(new_receipt_of now rid None timeout maxSize cbs)\<lparr>rr_Status := RequestDelivered, rr_StartedAt := now\<rparr>],
        io_pending := io_pending s @ [length (io_receipts s)]\<rparr>) s'"
proof -
  define env where "env = se_link senv"
  define p where "p = (link_packet env s packed)\<lparr>Context := ContextRequest\<rparr>"
  have pp: "p = (link_packet env s packed)\<lparr>PacketType := 0, Context := ContextRequest\<rparr>" unfolding p_def link_packet_data ..
  have fit: "fits ContextRequest packed" using assms(3) by (simp add: fits_def should_decrypt_def)
  have "\<exists>ct raw h f. Pack p = (p\<lparr>DestinationHash := l_linkID s, Flags := f, Ciphertext := ct, Raw := raw, Packed := True, PacketHash := h\<rparr>, None)
      \<and> carries t 0 ContextRequest packed raw \<and> length raw \<ge> 19"
    by (rule packed_on_link [OF assms(1) _ fit _ _ _ pp]) (use assms(2) in \<open>simp_all add: env_def\<close>)
  then obtain ct raw hsh f where q: "Pack p = (p\<lparr>DestinationHash := l_linkID s, Flags := f, Ciphertext := ct, Raw := raw, Packed := True, PacketHash := hsh\<rparr>, None)"
      and c: "carries t 0 ContextRequest packed raw" and len: "length raw \<ge> 19" by (elim exE conjE) (rule that)
  define q where "q = p\<lparr>DestinationHash := l_linkID s, Flags := f, Ciphertext := ct, Raw := raw, Packed := True, PacketHash := hsh\<rparr>"
  define rid where "rid = TruncatedHash ((hd raw AND 15) # drop 2 raw)"
  have "raw \<noteq> []" using len by auto
  then have h: "GetTruncatedHash q = Some rid"
    using len by (simp add: GetTruncatedHash_def GetHashablePart_def q_def p_def rid_def dstLen_def)
  define rr where "rr = new_receipt_of now rid None timeout maxSize cbs"
  define s1 where "s1 = s\<lparr>io_receipts := io_receipts s @ [rr], io_pending := io_pending s @ [length (io_receipts s)]\<rparr>"
  have "l_status s1 \<noteq> LinkClosed" using assms(1) by (simp add: s1_def up_def)
  moreover have "dest_link_closed (link_dest env s) \<noteq> Some True" using assms(1) by (simp add: up_def)
  ultimately have "\<exists>l' q' ev. link_send env now q s1 = (l', q', [ev], None) \<and> event_frame ev = Some (Raw q) \<and> bookkept s1 l'"
    using assms(2) len
    by (intro link_send_ok [where d = "link_dest env s"]) (simp_all add: env_def q_def p_def)
  then obtain s2 q' ev where send: "link_send env now q s1 = (s2, q', [ev], None)" "event_frame ev = Some raw" "bookkept s1 s2" by (auto simp: q_def)
  have rcpt: "io_receipts s2 = io_receipts s @ [rr]" using bookkept_session(4) [OF send(3)] by (simp add: s1_def)
  have fresh: "rr_Status rr = RequestSent" "rr_StartedAt rr = time_zero" by (simp_all add: rr_def new_receipt_of_def)
  define rr' where "rr' = rr\<lparr>rr_Status := RequestDelivered, rr_StartedAt := now\<rparr>"
  define s3 where "s3 = s2\<lparr>io_receipts := io_receipts s @ [rr']\<rparr>"
  have "request_inline senv now packed cbs timeout maxSize s = (case link_send env now q s1 of
        (s, _, ev, Some e) \<Rightarrow> (removePendingRequest (length (io_receipts s)) s, map Wire ev, Inl (ResourceSend e))
      | (s', _, ev, None) \<Rightarrow>
          let rr = io_receipts s' ! length (io_receipts s) in
          if rr_Status rr = RequestSent then
            (s'\<lparr>io_receipts := (io_receipts s')[length (io_receipts s) := rr\<lparr>rr_Status := RequestDelivered,
               rr_StartedAt := (if rr_StartedAt rr = time_zero then now else rr_StartedAt rr)\<rparr>]\<rparr>,
             map Wire ev @ [Go (RunTimeout (length (io_receipts s)) (now + timeout))], Inr (length (io_receipts s)))
          else (s', map Wire ev, Inr (length (io_receipts s))))"
    using q [folded q_def] h send(1) by (simp add: request_inline_def env_def [symmetric] p_def [symmetric] add_receipt_def rr_def [symmetric] s1_def [symmetric])
  also have "\<dots> = (s3, [Wire ev, Go (RunTimeout (length (io_receipts s)) (now + timeout))], Inr (length (io_receipts s)))"
    using send(1) by (simp add: Let_def rcpt fresh s3_def rr'_def)
  finally have 1: "request_inline senv now packed cbs timeout maxSize s
      = (s3, [Wire ev, Go (RunTimeout (length (io_receipts s)) (now + timeout))], Inr (length (io_receipts s)))" .
  have same: "s1\<lparr>io_receipts := io_receipts s @ [rr']\<rparr> = s\<lparr>io_receipts := io_receipts s @ [rr'], io_pending := io_pending s @ [length (io_receipts s)]\<rparr>"
    by (simp add: s1_def)
  have 2: "bookkept (s\<lparr>io_receipts := io_receipts s @ [rr'], io_pending := io_pending s @ [length (io_receipts s)]\<rparr>) s3"
    unfolding s3_def same [symmetric] by (rule bookkept_stores(1) [OF send(3)])
  show ?thesis
    by (intro exI conjI) (rule 1, rule send(2), rule c, rule rid_def, rule 2 [unfolded rr'_def rr_def])
qed

lemma handleRequest_answers:
  assumes "up t s" and "benign (se_link senv)" and d: "l_destination s = Some d" "d_requestHandlers d pathHash = Some h" and ok: "request_allowed h s"
    and gen: "\<And>ts. rh_ResponseGenerator h (rh_Path h) v rid (l_linkID s) (l_remoteIdentity s) ts = response"
    and resp: "response \<noteq> MNil" "split_response response = (response, None)" "l_mdu s = 431" "length (msgpack_Pack (MArray [MBin rid, response])) \<le> 431"
  shows "\<exists>s' ev raw. handleRequest senv now rid [MFloat64 f, MBin pathHash, v] s = (s', [HandlerCalled (rh_Path h) v rid (l_remoteIdentity s), Wire ev])
    \<and> event_frame ev = Some raw \<and> carries t 0 ContextResponse (msgpack_Pack (MArray [MBin rid, response])) raw"
proof -
  define packed where "packed = msgpack_Pack (MArray [MBin rid, response])"
  have "fits ContextResponse packed" using resp(4) by (simp add: fits_def should_decrypt_def packed_def)
  then obtain s' q ev raw where send: "link_send (se_link senv) now ((link_packet (se_link senv) s packed)\<lparr>Context := ContextResponse\<rparr>) s = (s', q, [ev], None)"
      "event_frame ev = Some raw" "carries t 0 ContextResponse packed raw"
    using sent_on_link(1) [OF assms(1,2), of ContextResponse packed 0 now] by (auto simp: link_packet_data)
  have act: "l_status s = LinkActive" using assms(1) by (simp add: up_def)
  have "int (length packed) \<le> l_mdu s" using resp(3,4) by (simp add: packed_def)
  then have "handleRequest senv now rid [MFloat64 f, MBin pathHash, v] s = (s', [HandlerCalled (rh_Path h) v rid (l_remoteIdentity s), Wire ev])"
    using act d ok gen resp(1,2) send(1)
    by (simp add: handleRequest_def send_response_def packed_def [symmetric])
  with send show ?thesis unfolding packed_def by blast
qed


lemma response_arrives:
  assumes "up t s" and "carries t 0 ContextResponse (msgpack_Pack (MArray [MBin rid, response])) raw"
    and resp: "wire_ok response" "record_like response" "length rid < 2 ^ 32"
    and rr: "io_pending s = [k]" "k < length (io_receipts s)" "rr_RequestID (io_receipts s ! k) = rid" "\<not> request_over (io_receipts s ! k)"
    and size: "rr_maxResponseSize (io_receipts s ! k) = 0 \<or> packedResponseSize (narrowed response) \<le> rr_maxResponseSize (io_receipts s ! k)"
  shows "\<exists>s'. arrives senv now iface h raw s = (s', if rr_callback (io_receipts s ! k) then [ResponseDelivered k] else [])
    \<and> rr_Status (io_receipts s' ! k) = RequestReady \<and> rr_Response (io_receipts s' ! k) = narrowed response \<and> io_pending s' = []"
proof -
  obtain p q where p: "Context p = ContextResponse" "Data p = msgpack_Pack (MArray [MBin rid, response])"
      and arr: "arrives senv now iface h raw s = dispatch senv now p (note_inbound now q s)"
    using arrives_carried [OF assms(2,1), of senv now iface h] by auto
  define s1 where "s1 = note_inbound now q s"
  have s1: "l_status s1 = LinkActive" "io_pending s1 = [k]" "io_receipts s1 = io_receipts s" using assms(1) rr(1) by (simp_all add: s1_def up_def)
  have "UnpackPreserveBinMapKeys (Data p) = Inr (MArray [MBin rid, narrowed response])"
    using unpack_record_bin [of "MArray [MBin rid, response]"] resp p(2) by simp
  then have "dispatch senv now p s1 = handleResponse now rid (narrowed response) None (packedResponseSize (narrowed response))
      (packedResponseSize (narrowed response)) True True s1"
    using p(1) by (simp add: dispatch_def receive_response_def Let_def)
  moreover have "pending_receipt rid s1 = Some k" using s1 rr(3) by (simp add: pending_receipt_def)
  ultimately show ?thesis unfolding arr s1_def [symmetric]
    using s1 rr(2,4) size
    by (simp add: handleResponse_def Let_def removePendingRequest_def on_receipt_def responseReceived_def recordResponseSize_def
        request_over_def nth_list_update split: prod.splits)
qed


lemma request_arrives:
  assumes "up t s" and "carries t 0 ContextRequest packed raw" and "packed = packed_request env sent path data"
    and data: "wire_ok data" "record_like data"
    and "max_request_size s = 0 \<or> int (length packed) \<le> max_request_size s"
  shows "\<exists>q. arrives senv now iface h raw s = (note_inbound now q s,
     [Go (RunHandleRequest (TruncatedHash ((hd raw AND 15) # drop 2 raw)) [MFloat64 (lv_Float64bits env (Seconds sent)), MBin (TruncatedHash path), narrowed data])])"
proof -
  obtain p q where p: "Context p = ContextRequest" "Data p = packed" "Raw p = raw" "HeaderType p = Header1" "length raw \<ge> 19"
      and arr: "arrives senv now iface h raw s = dispatch senv now p (note_inbound now q s)"
    using arrives_carried [OF assms(2,1), of senv now iface h] by auto
  have "raw \<noteq> []" using p(5) by auto
  then have id: "GetTruncatedHash p = Some (TruncatedHash ((hd raw AND 15) # drop 2 raw))"
    using p by (simp add: GetTruncatedHash_def GetHashablePart_def)
  have "length (TruncatedHash path) = 16" by (simp add: TruncatedHash_def FullHash_def dstLen_def)
  then have "UnpackPreserveBinMapKeys (Data p) = Inr (MArray [MFloat64 (lv_Float64bits env (Seconds sent)), MBin (TruncatedHash path), narrowed data])"
    using unpack_record_bin [of "MArray [MFloat64 (lv_Float64bits env (Seconds sent)), MBin (TruncatedHash path), data]"] data
    by (simp add: p(2) assms(3) packed_request_def)
  then show ?thesis unfolding arr using p(1,2) id assms(6)
    by (intro exI [of _ q]) (auto simp: dispatch_def receive_request_def max_request_size_def)
qed

text \<open>
  C3: A request is answered. Over a link that is up, with no other request pending, a request that fits a packet
  reaches the handler registered for its path at the other end, which runs once, with the request's data and
  the identity it knows the other end by; its response, if it fits a packet, reaches the receipt of the request:
  the response callback runs exactly once, the receipt is ready and holds the response, and nothing stays
  pending.
\<close>

theorem request_gets_response:
  assumes up: "up tok a" "up tok b" and env: "benign (se_link senvA)" "benign (se_link senvB)"
    and a: "io_pending a = []" "l_mdu a = 431" and b: "l_mdu b = 431" "l_destination b = Some d"
    and h: "d_requestHandlers d (TruncatedHash path) = Some hr" "request_allowed hr b" "d_maxRequestSize d = 0"
    and data: "wire_ok data" "record_like data" "length (packed_request (se_link senvA) (t 0) path data) \<le> 431"
    and gen: "\<And>rid ts. rh_ResponseGenerator hr (rh_Path hr) (narrowed data) rid (l_linkID b) (l_remoteIdentity b) ts = response"
    and resp: "response \<noteq> MNil" "split_response response = (response, None)" "wire_ok response" "record_like response"
      "\<And>rid. length rid = 16 \<Longrightarrow> length (msgpack_Pack (MArray [MBin rid, response])) \<le> 431"
    and size: "maxSize = 0 \<or> packedResponseSize (narrowed response) \<le> maxSize"
    and cbs: "rc_response cbs"
  shows "\<exists>k a' rid ev. request_exchange senvA senvB t ifA ifB hops path data cbs timeout maxSize a b
      = Some (k, a', [HandlerCalled (rh_Path hr) (narrowed data) rid (l_remoteIdentity b), Wire ev], [ResponseDelivered k])
    \<and> rr_Status (io_receipts a' ! k) = RequestReady \<and> rr_Response (io_receipts a' ! k) = narrowed response \<and> io_pending a' = []"
proof -
  define packed where "packed = packed_request (se_link senvA) (t 0) path data"
  define timeout' where "timeout' = (if timeout = 0 then to_duration (l_rtt a * l_trafficTimeoutFactor a) + 10 * second else timeout)"
  define k where "k = length (io_receipts a)"
  have len: "length packed \<le> 431" using data(3) by (simp add: packed_def)
  obtain a1 ev1 raw1 rid where s1: "request_inline senvA (t 0) packed cbs timeout' maxSize a = (a1, [Wire ev1, Go (RunTimeout k (t 0 + timeout'))], Inr k)"
      "event_frame ev1 = Some raw1" "carries tok 0 ContextRequest packed raw1" "rid = TruncatedHash ((hd raw1 AND 15) # drop 2 raw1)"
      "bookkept (a\<lparr>io_receipts := io_receipts a @ [(new_receipt_of (t 0) rid None timeout' maxSize cbs)\<lparr>rr_Status := RequestDelivered, rr_StartedAt := t 0\<rparr>],
        io_pending := io_pending a @ [k]\<rparr>) a1"
    using request_inline_sent [OF up(1) env(1) len, of "t 0" cbs timeout' maxSize, folded k_def] by (elim exE conjE) (rule that)
  note bk = bookkept_all [OF s1(5), simplified]
  have req: "link_Request senvA (t 0) path data cbs timeout maxSize a = (a1, [Wire ev1, Go (RunTimeout k (t 0 + timeout'))], Inr k)"
    using s1(1) len a(2) by (simp add: link_Request_def Let_def packed_def timeout'_def)
  obtain q where s2: "arrives senvB (t 1) ifB hops raw1 b = (note_inbound (t 1) q b,
      [Go (RunHandleRequest rid [MFloat64 (lv_Float64bits (se_link senvA) (Seconds (t 0))), MBin (TruncatedHash path), narrowed data])])"
    using request_arrives [OF up(2) s1(3) packed_def data(1,2), of senvB "t 1" ifB hops] b(2) h(3) s1(4) by (auto simp: max_request_size_def)
  define b1 where "b1 = note_inbound (t 1) q b"
  have b1: "up tok b1" "l_destination b1 = Some d" "request_allowed hr b1" "l_mdu b1 = 431" "l_linkID b1 = l_linkID b" "l_remoteIdentity b1 = l_remoteIdentity b"
    using up(2) b h(2) by (simp_all add: b1_def request_allowed_def)
  have rid: "length rid = 16" by (simp add: s1(4) TruncatedHash_def FullHash_def dstLen_def)
  have gen': "rh_ResponseGenerator hr (rh_Path hr) (narrowed data) rid (l_linkID b1) (l_remoteIdentity b1) ts = response" for ts
    using gen b1(5,6) by simp
  obtain b2 ev3 raw2 where s3: "handleRequest senvB (t 2) rid [MFloat64 (lv_Float64bits (se_link senvA) (Seconds (t 0))), MBin (TruncatedHash path), narrowed data] b1
        = (b2, [HandlerCalled (rh_Path hr) (narrowed data) rid (l_remoteIdentity b1), Wire ev3])"
      "event_frame ev3 = Some raw2" "carries tok 0 ContextResponse (msgpack_Pack (MArray [MBin rid, response])) raw2"
    using handleRequest_answers [OF b1(1) env(2) b1(2) h(1) b1(3) gen' resp(1,2) b1(4) resp(5) [OF rid],
      of "t 2" "lv_Float64bits (se_link senvA) (Seconds (t 0))"] by (elim exE conjE) (rule that)
  have a1: "up tok a1" using up(1) by (simp add: up_def bk)
  have rr: "io_pending a1 = [k]" "k < length (io_receipts a1)" "rr_RequestID (io_receipts a1 ! k) = rid" "\<not> request_over (io_receipts a1 ! k)"
      "rr_maxResponseSize (io_receipts a1 ! k) = maxSize" "rr_callback (io_receipts a1 ! k)"
    using a(1) cbs by (simp_all add: bk k_def new_receipt_of_def request_over_def)
  obtain a2 where s4: "arrives senvA (t 3) ifA hops raw2 a1 = (a2, [ResponseDelivered k])"
      "rr_Status (io_receipts a2 ! k) = RequestReady" "rr_Response (io_receipts a2 ! k) = narrowed response" "io_pending a2 = []"
    using response_arrives [OF a1 s3(3) resp(3,4) _ rr(1-4), of senvA "t 3" ifA hops] size rr(5,6) rid by auto
  have "request_exchange senvA senvB t ifA ifB hops path data cbs timeout maxSize a b
      = Some (k, a2, [HandlerCalled (rh_Path hr) (narrowed data) rid (l_remoteIdentity b), Wire ev3], [ResponseDelivered k])"
    using req s1(2) s2 [folded b1_def] s3(1,2) s4(1) b1(6) by (simp add: request_exchange_def)
  with s4 show ?thesis by blast
qed


definition demo_session :: session where
  "demo_session = link.extend demo_link (session.fields [] [] [] [] [])"

lemma demo_session_fields [simp]:
  "l_status demo_session = LinkActive" "l_linkID demo_session = replicate 16 7" "l_token demo_session = Some demo_token"
  "l_mdu demo_session = 431" "cb_Packet (l_callbacks demo_session)" "\<not> l_initiator demo_session"
  "io_pending demo_session = []" "io_receipts demo_session = []" "io_resources demo_session = []" "io_outgoing demo_session = []"
  "io_incoming demo_session = []" "l_remoteIdentity demo_session = l_remoteIdentity demo_link"
  using demo_link_fields mdu_value by (simp_all add: demo_session_def link.defs session.defs)

definition demo_handler :: request_handler where
  "demo_handler = \<lparr>rh_Path = [1], rh_ResponseGenerator = (\<lambda>_ v _ _ _ _. MArray [v, MStr [2]]), rh_Allow = AllowAll, rh_AllowedList = [],
     rh_AutoCompress = True, rh_AutoCompressLimit = 0\<rparr>"

definition demo_server :: session where
  "demo_server = demo_session\<lparr>l_destination := Some (demo_destination\<lparr>d_requestHandlers := [TruncatedHash [1] \<mapsto> demo_handler], d_maxRequestSize := 0\<rparr>)\<rparr>"

definition demo_session_env :: session_env where
  "demo_session_env = \<lparr>se_link = demo_link_env, se_compress = (\<lambda>_. None), se_bunzip = (\<lambda>_. None), se_randRead = (\<lambda>n. Some (replicate n 3)),
     se_order = id, se_Resource = None\<rparr>"

lemma demo_up [simp]: "up demo_token demo_session" "up demo_token demo_server"
  by (simp_all add: up_def demo_server_def)

theorem request_gets_response_witness:
  "\<exists>k a' rid ev. request_exchange demo_session_env demo_session_env (\<lambda>n. int n * second) None None 1 [1] (MUint 5)
      \<lparr>rc_response = True, rc_failed = True, rc_progress = False\<rparr> 0 0 demo_session demo_server
      = Some (k, a', [HandlerCalled [1] (MInt 5) rid (l_remoteIdentity demo_server), Wire ev], [ResponseDelivered k])
    \<and> rr_Status (io_receipts a' ! k) = RequestReady \<and> rr_Response (io_receipts a' ! k) = MArray [MInt 5, MStr [2]] \<and> io_pending a' = []"
proof -
  have len: "length (packed_request (se_link demo_session_env) 0 [1] (MUint 5)) \<le> 431"
    "length rid = 16 \<Longrightarrow> length (msgpack_Pack (MArray [MBin rid, MArray [MInt 5, MStr [2]]])) \<le> 431" for rid
    by (simp_all add: packed_request_def msgpack_Pack_def packArray_def array_header_def packBin_def packStr_def packUint_def packInt_def
        TruncatedHash_def FullHash_def dstLen_def)
  have 1: "l_mdu demo_server = 431"
    "l_destination demo_server = Some (demo_destination\<lparr>d_requestHandlers := [TruncatedHash [1] \<mapsto> demo_handler], d_maxRequestSize := 0\<rparr>)"
    by (simp_all add: demo_server_def)
  have 2: "benign (se_link demo_session_env)" by (simp add: demo_session_env_def)
  show ?thesis
    using request_gets_response [OF demo_up 2 2 demo_session_fields(7,4) 1, of "[1]" demo_handler "MUint 5" "\<lambda>n. int n * second" "MArray [MInt 5, MStr [2]]" 0
        "\<lparr>rc_response = True, rc_failed = True, rc_progress = False\<rparr>" None None 1 0] len
    by (simp add: request_allowed_def demo_handler_def split_response_def)
qed

end
