(* ===== verification/Guard.thy ===== *)
theory Guard
  imports RequestResponse
begin

text \<open>
  What a link lets through: which requests reach their handlers over the life of a link, and what happens to
  packets that the dispatch of \<^verbatim>\<open>Link.receive\<close> does not foresee.
\<close>

section \<open>What stays the same\<close>

text \<open>The destination, the identifier and the remote identity of a link.\<close>

definition keeps :: "'a link_scheme \<Rightarrow> 'a link_scheme \<Rightarrow> bool" where
  "keeps l l' \<longleftrightarrow> l_destination l' = l_destination l \<and> l_linkID l' = l_linkID l \<and> l_remoteIdentity l' = l_remoteIdentity l"

lemma keeps_refl [intro, simp]: "keeps l l"
  by (simp add: keeps_def)

lemma keeps_trans: "keeps a b \<Longrightarrow> keeps b c \<Longrightarrow> keeps a c"
  by (simp add: keeps_def)

lemma keeps_bookkept: "bookkept l l' \<Longrightarrow> keeps l l'"
  by (simp add: keeps_def bookkept_fields)

named_theorems keeps_ops

lemma keeps_send [keeps_ops]:
  "link_send env now p l = (l', q, ev, e) \<Longrightarrow> keeps l l'"
  "transport_Send env now p l = (l', q, ev, e) \<Longrightarrow> keeps l l'"
  by (auto intro: keeps_bookkept dest: link_send_bookkept transport_Send_bookkept)

lemma keeps_resource_send [keeps_ops]: "resource_send env now ty c d l = (l', ev, e) \<Longrightarrow> keeps l l'"
  by (auto simp: resource_send_def dest: keeps_send split: prod.splits)

lemma keeps_requestNext [keeps_ops]: "requestNextLockedAt env now l r = (l', r', ev, e) \<Longrightarrow> keeps l l'"
  by (auto simp: requestNextLockedAt_def Let_def dest: keeps_resource_send split: prod.splits if_splits option.splits)

lemma keeps_hashmapUpdate [keeps_ops]: "hashmapUpdateLocked env now d l r = (l', r', ev, e) \<Longrightarrow> keeps l l'"
  by (auto simp: hashmapUpdateLocked_def Let_def dest: keeps_requestNext
      split: prod.splits if_splits option.splits sum.splits mvalue.splits list.splits)

lemma keeps_send_parts [keeps_ops]: "send_parts env now hs l r = (l', r', ev, e) \<Longrightarrow> keeps l l'"
proof (induction hs arbitrary: l r ev)
  case (Cons h hs)
  show ?case
  proof (cases "part_index h (r_parts r)")
    case None
    then show ?thesis using Cons by simp
  next
    case (Some i)
    obtain l1 ev1 e1 where s: "resource_send env now 0 1 (part_Data (r_parts r ! i)) l = (l1, ev1, e1)" by (metis prod_cases3)
    note k = keeps_resource_send [OF s]
    show ?thesis
    proof (cases e1)
      case None
      with Some s Cons.prems obtain r1 ev2 where "send_parts env now hs l1 r1 = (l', r', ev2, e)" by (auto simp: Let_def split: prod.splits)
      then show ?thesis using Cons.IH k keeps_trans by blast
    qed (use Some s Cons.prems k in simp)
  qed
qed simp

lemma keeps_send_hmu [keeps_ops]: "send_hmu env now h l r = (l', r', ev, e) \<Longrightarrow> keeps l l'"
  by (auto simp: send_hmu_def Let_def dest: keeps_resource_send split: prod.splits option.splits sum.splits)

lemma keeps_Request [keeps_ops]: "resource_Request env now d l r = (l', r', ev, e) \<Longrightarrow> keeps l l'"
  by (auto simp: resource_Request_def Let_def dest!: keeps_send_parts keeps_send_hmu intro: keeps_trans split: prod.splits option.splits if_splits)

lemma keeps_rates [keeps_ops]: "keeps l (recordExpectedRate now l r)" "updateEifr l r = (l', r') \<Longrightarrow> keeps l l'"
  by (auto simp: recordExpectedRate_def updateEifr_def Let_def keeps_def)

lemma keeps_ValidateProof [keeps_ops]: "resource_ValidateProof now d l r = (l', r', ev) \<Longrightarrow> keeps l l'"
  by (auto simp: resource_ValidateProof_def Let_def intro: keeps_rates(1) split: if_splits)

lemma keeps_Teardown [keeps_ops]: "Teardown env now l = (l', ev) \<Longrightarrow> keeps l l'" "teardown reason l = (l', ev) \<Longrightarrow> keeps l l'"
  "sendTeardownPacket env now l = (l', ev) \<Longrightarrow> keeps l l'" "close_link reason l = (l', ev) \<Longrightarrow> keeps l l'"
proof -
  show c: "keeps l l'" if "close_link reason l = (l', ev)" for l l' :: "'a link_scheme" and ev using that by (auto simp: close_link_def keeps_def)
  show t: "keeps l l'" if "teardown reason l = (l', ev)" for l l' :: "'a link_scheme" and ev reason
    using that by (auto simp: teardown_def close_link_def keeps_def split: if_splits)
  show s: "keeps l l'" if "sendTeardownPacket env now l = (l', ev)" for l l' :: "'a link_scheme" and ev
    using that by (auto simp: sendTeardownPacket_def dest: keeps_send split: if_splits prod.splits)
  show "keeps l l'" if "Teardown env now l = (l', ev)" for l l' :: "'a link_scheme" and ev
    using that by (auto simp: Teardown_def Let_def dest!: s t intro: keeps_trans split: prod.splits if_splits)
qed

lemma keeps_cancelCorrupt [keeps_ops]: "cancelCorruptLocked env now l r = (l', ev) \<Longrightarrow> keeps l l'"
  by (auto simp: cancelCorruptLocked_def dest!: keeps_resource_send keeps_Teardown(1) intro: keeps_trans split: prod.splits)

lemma keeps_prove [keeps_ops]: "resource_prove env now d l r = (l', ev) \<Longrightarrow> keeps l l'"
  by (auto simp: resource_prove_def Let_def dest!: keeps_resource_send split: prod.splits if_splits)

lemma keeps_Assemble [keeps_ops]: "Assemble env bz now l r = (l', r', ev) \<Longrightarrow> keeps l l'"
  by (auto simp: Assemble_def Let_def dest!: keeps_cancelCorrupt keeps_prove intro: keeps_trans [OF keeps_rates(1)]
      split: prod.splits if_splits sum.splits bzip2_error.splits)

lemma keeps_Cancel [keeps_ops]: "Cancel env now l r = (l', r', ev) \<Longrightarrow> keeps l l'"
  by (auto simp: Cancel_def Let_def dest!: keeps_cancelCorrupt keeps_resource_send intro: keeps_trans keeps_rates(1) split: prod.splits if_splits)

lemma keeps_watch [keeps_ops]:
  "watch_advertised env order now l r = (l', r', ev, s) \<Longrightarrow> keeps l l'" "watch_receiver env now l r = (l', r', ev, s) \<Longrightarrow> keeps l l'"
  by (auto simp: watch_advertised_def watch_receiver_def Let_def dest!: keeps_send keeps_requestNext keeps_rates(2) intro: keeps_trans
      split: prod.splits if_splits option.splits)

lemma keeps_watchdogStep [keeps_ops]: "resource_watchdogStep env order now l r = (l', r', ev, s, c) \<Longrightarrow> keeps l l'"
  by (auto simp: resource_watchdogStep_def dest!: keeps_watch split: prod.splits if_splits option.splits resource_status.splits)

lemma keeps_Advertise [keeps_ops]: "Advertise env order now l r = (l', r', ev, e) \<Longrightarrow> keeps l l'"
  by (auto simp: Advertise_def Let_def dest!: keeps_send split: prod.splits)

lemma keeps_Accept [keeps_ops]: "Accept env now d cb st pcb l inc = (l', ev, res) \<Longrightarrow> keeps l l'"
  by (auto simp: Accept_def dest!: keeps_requestNext split: prod.splits sum.splits option.splits)

lemma keeps_Reject [keeps_ops]: "Reject env now d l = (l', ev, e) \<Longrightarrow> keeps l l'"
  by (auto simp: Reject_def dest!: keeps_resource_send split: sum.splits)

section \<open>The life of a link\<close>

lemma keeps_stores [simp]:
  "keeps s (s'\<lparr>io_resources := a\<rparr>) = keeps s s'" "keeps s (s'\<lparr>io_outgoing := b\<rparr>) = keeps s s'" "keeps s (s'\<lparr>io_incoming := c\<rparr>) = keeps s s'"
  "keeps s (s'\<lparr>io_receipts := d\<rparr>) = keeps s s'" "keeps s (s'\<lparr>io_pending := e\<rparr>) = keeps s s'"
  "keeps (s\<lparr>io_resources := a\<rparr>) s' = keeps s s'" "keeps (s\<lparr>io_outgoing := b\<rparr>) s' = keeps s s'" "keeps (s\<lparr>io_incoming := c\<rparr>) s' = keeps s s'"
  "keeps (s\<lparr>io_receipts := d\<rparr>) s' = keeps s s'" "keeps (s\<lparr>io_pending := e\<rparr>) s' = keeps s s'"
  by (simp_all add: keeps_def)

lemma keeps_on_receipt [keeps_ops]: "on_receipt f k s = (s', ev) \<Longrightarrow> keeps s s'"
  by (auto simp: on_receipt_def removePendingRequest_def Let_def split: prod.splits if_splits)

lemma keeps_effect: "resource_effect a e s = (s', ev) \<Longrightarrow> keeps s s'"
  by (cases e) (auto dest: keeps_on_receipt split: option.splits if_splits)

lemma keeps_effects: "resource_effects a es s = (s', ev) \<Longrightarrow> keeps s s'"
  by (induction es arbitrary: s ev) (auto dest!: keeps_effect intro: keeps_trans split: prod.splits)

lemma keeps_on_resource: "on_resource a (s, r, es) = (s', ev) \<Longrightarrow> keeps s s'"
  by (auto simp: on_resource_def set_resource_def dest!: keeps_effects)

lemma keeps_on_resource_of:
  assumes "on_resource a res = (s', ev)" and "\<And>l r es. res = (l, r, es) \<Longrightarrow> keeps s l"
  shows "keeps s s'"
  using assms by (cases res) (auto dest!: keeps_on_resource intro: keeps_trans)

lemma keeps_accept_resource [keeps_ops]: "accept_resource senv now d cb pcb s = (s', ev, ok) \<Longrightarrow> keeps s s'"
  by (auto simp: accept_resource_def new_slot_def dest!: keeps_Accept keeps_effects intro: keeps_trans split: prod.splits sum.splits)

lemma keeps_reject_resource [keeps_ops]: "reject_resource senv now d s = (s', ev) \<Longrightarrow> keeps s s'"
  by (auto simp: reject_resource_def dest!: keeps_Reject keeps_effects intro: keeps_trans split: prod.splits)

lemma keeps_advertise_resource [keeps_ops]: "advertise_resource senv now r cb s = (s', ev, e) \<Longrightarrow> keeps s s'"
  by (auto simp: advertise_resource_def new_slot_def dest!: keeps_Advertise keeps_on_resource intro: keeps_trans split: prod.splits)

lemma keeps_link_Request [keeps_ops]: "link_Request senv now path d cbs timeout m s = (s', ev, res) \<Longrightarrow> keeps s s'"
  by (auto simp: link_Request_def request_inline_def request_resource_def add_receipt_def removePendingRequest_def Let_def
      dest!: keeps_send keeps_advertise_resource split: prod.splits option.splits sum.splits if_splits)

lemma keeps_send_response [keeps_ops]: "send_response senv now h rid resp s = (s', ev) \<Longrightarrow> keeps s s'"
  by (auto simp: send_response_def Let_def dest!: keeps_send keeps_advertise_resource split: prod.splits if_splits sum.splits)

lemma keeps_handleRequest [keeps_ops]: "handleRequest senv now rid vs s = (s', ev) \<Longrightarrow> keeps s s'"
  by (auto simp: handleRequest_def Let_def dest!: keeps_send_response split: prod.splits if_splits option.splits mvalue.splits)

lemma keeps_handleResponse [keeps_ops]: "handleResponse now rid v m n1 n2 c1 c2 s = (s', ev) \<Longrightarrow> keeps s s'"
  by (auto simp: handleResponse_def Let_def removePendingRequest_def dest!: keeps_on_receipt split: if_splits option.splits)

lemma keeps_concluded [keeps_ops]: "concluded_job now a s = (s', ev) \<Longrightarrow> keeps s s'"
  by (auto simp: concluded_job_def requestResourceConcluded_def responseResourceConcluded_def failPendingResponseRequest_def Let_def
      dest!: keeps_on_receipt keeps_handleResponse split: conclude_callback.splits if_splits sum.splits mvalue.splits list.splits option.splits)

lemma keeps_run_job: "run_job senv now j s = (s', ev) \<Longrightarrow> keeps s s'"
proof (cases j)
  case (RunValidateProof a d)
  then show "run_job senv now j s = (s', ev) \<Longrightarrow> keeps s s'" by (auto elim: keeps_on_resource_of intro: keeps_ValidateProof)
next
  case (RunAssemble a)
  then show "run_job senv now j s = (s', ev) \<Longrightarrow> keeps s s'" by (auto elim: keeps_on_resource_of intro: keeps_Assemble)
qed (auto dest!: keeps_on_resource keeps_Request keeps_hashmapUpdate keeps_requestNext keeps_concluded keeps_handleRequest keeps_on_receipt
      intro: keeps_trans split: prod.splits)

lemma keeps_tick_cancel:
  "tick_resource senv now a s = (s', ev) \<Longrightarrow> keeps s s'" "cancel_resource senv now a s = (s', ev) \<Longrightarrow> keeps s s'"
  by (auto simp: tick_resource_def cancel_resource_def dest!: keeps_watchdogStep dest: keeps_on_resource intro: keeps_trans keeps_Cancel
      elim: keeps_on_resource_of split: prod.splits)

lemma keeps_sendKeepalive [keeps_ops]: "sendKeepalive env now l = (l', ev) \<Longrightarrow> keeps l l'"
  by (intro keeps_bookkept sendKeepalive_bookkept)

lemma keeps_ProvePacket [keeps_ops]: "ProvePacket env now p l = (l', ev) \<Longrightarrow> keeps l l'"
  by (intro keeps_bookkept ProvePacket_bookkept)

lemma keeps_when_updated [simp]:
  "keeps l (l'\<lparr>l_status := a\<rparr>) = keeps l l'" "keeps l (l'\<lparr>l_lastKeepalive := b\<rparr>) = keeps l l'" "keeps l (hadKeepaliveOutbound now l') = keeps l l'"
  "keeps l (note_inbound now p l') = keeps l l'" "keeps (note_inbound now p l) l' = keeps l l'"
  "keeps (l\<lparr>l_status := a\<rparr>) l' = keeps l l'" "keeps (l\<lparr>l_lastKeepalive := b\<rparr>) l' = keeps l l'"
  by (simp_all add: keeps_def hadKeepaliveOutbound_def)

lemma keeps_link_watchdogStep: "link_watchdogStep env now l = (l', ev, s) \<Longrightarrow> keeps l l'"
  by (auto simp: link_watchdogStep_def Let_def dest!: keeps_sendKeepalive keeps_Teardown intro: keeps_trans split: if_splits prod.splits)

lemma keeps_handshakes:
  "link_ValidateProof env now iface p l = (l', ev, e) \<Longrightarrow> keeps l l'" "HandleRTT env now p l = (l', ev) \<Longrightarrow> keeps l l'"
proof -
  have hs: "keeps l l'" if "handshake cs l = (l', e)" for cs and l l' :: "'a link_scheme" and e
    using that by (auto simp: handshake_def Let_def keeps_def split: if_splits option.splits sum.splits)
  have lp: "keeps l l'" if "LoadPeer x y l = (l', e)" for x y and l l' :: "'a link_scheme" and e
    using that by (auto simp: LoadPeer_def Let_def keeps_def split: if_splits option.splits sum.splits)
  have rate: "keeps l (updateKeepaliveLocked (establishment_rate l'))" if "keeps l l'" for l l' :: "'a link_scheme"
    using that by (auto simp: updateKeepaliveLocked_def establishment_rate_def keeps_def Let_def)
  show "link_ValidateProof env now iface p l = (l', ev, e) \<Longrightarrow> keeps l l'"
    by (auto simp: link_ValidateProof_def Let_def dest!: hs lp keeps_send intro: keeps_trans split: if_splits option.splits prod.splits)
      (auto simp: keeps_def updateKeepaliveLocked_def establishment_rate_def Let_def split: if_splits)
  show "HandleRTT env now p l = (l', ev) \<Longrightarrow> keeps l l'"
    by (auto simp: HandleRTT_def Let_def dest!: keeps_Teardown intro!: rate split: if_splits sum.splits option.splits) (auto simp: keeps_def)
qed

text \<open>What a received packet can change of the three: an identification sets the remote identity.\<close>

definition identified :: "curves \<Rightarrow> bytes \<Rightarrow> identity \<Rightarrow> bool" where
  "identified cs lid i \<longleftrightarrow> (\<exists>pk sigb. length pk = 64 \<and> LoadPublicKey pk empty_identity = (i, None) \<and> id_Hash i = TruncatedHash pk
     \<and> identity_Verify cs i sigb (lid @ pk))"

lemma LoadPublicKey_hash: "LoadPublicKey pk empty_identity = (i, None) \<Longrightarrow> id_Hash i = TruncatedHash pk"
  by (auto simp: LoadPublicKey_def Let_def UpdateHashes_def GetPublicKey_def NewX25519PublicKeyFromBytes_def NewEd25519PublicKeyFromBytes_def
      split: if_splits sum.splits)

lemma receive_identify_keeps:
  assumes "receive_identify senv now d s = (s', ev)"
  shows "keeps s s' \<or> (\<exists>i. identified (lv_curves (se_link senv)) (l_linkID s) i \<and> s' = s\<lparr>l_remoteIdentity := Some i\<rparr>)"
proof -
  define pk where "pk = take 64 d"
  obtain i e where load: "LoadPublicKey pk empty_identity = (i, e)" by fastforce
  have "keeps s s' \<or> (length pk = 64 \<and> e = None \<and> identity_Verify (lv_curves (se_link senv)) i (drop 64 d) (l_linkID s @ pk)
      \<and> s' = s\<lparr>l_remoteIdentity := Some i\<rparr>)"
    using assms load by (auto simp: receive_identify_def Let_def pk_def dest: keeps_Teardown split: if_splits prod.splits option.splits)
  then show ?thesis using load LoadPublicKey_hash unfolding identified_def by blast
qed

lemma dispatch_keeps:
  assumes "dispatch senv now p s = (s', ev)"
  shows "keeps s s' \<or> (\<exists>i. identified (lv_curves (se_link senv)) (l_linkID s) i \<and> s' = s\<lparr>l_remoteIdentity := Some i\<rparr>)"
proof (cases "Context p = ContextLinkIdentify")
  case True
  then have "receive_identify senv now (Data p) s = (s', ev)" using assms by (simp add: dispatch_def)
  then show ?thesis by (rule receive_identify_keeps)
next
  case False
  with assms have "keeps s s'"
    by (auto simp: dispatch_def receive_adv_def receive_response_adv_def receive_request_def receive_response_def receive_resource_req_def
        receive_hmu_def receive_resource_prf_def receive_keepalive_def receive_close_def receive_channel_def receive_data_def Let_def
        dest!: keeps_accept_resource keeps_reject_resource keeps_on_receipt keeps_handleResponse keeps_send keeps_Teardown keeps_ProvePacket
        intro: keeps_trans split: if_splits prod.splits option.splits sum.splits mvalue.splits list.splits)
  then show ?thesis ..
qed

lemma receive_keeps:
  assumes "receive senv now iface p s = (s', ev)"
  shows "keeps s s' \<or> (\<exists>i. identified (lv_curves (se_link senv)) (l_linkID s) i \<and> l_destination s' = l_destination s \<and> l_linkID s' = l_linkID s
    \<and> l_remoteIdentity s' = Some i)"
proof -
  let ?s = "note_inbound now p s"
  consider (dispatch) p' where "dispatch senv now p' ?s = (s', ev)" | (keeps) "keeps ?s s'"
    using assms by (auto simp: receive_def Let_def dest: keeps_handshakes split: if_splits prod.splits sum.splits)
  then show ?thesis
  proof cases
    case dispatch
    from dispatch_keeps [OF this] show ?thesis by auto
  qed simp
qed

text \<open>The states a link goes through: it receives packets, its goroutines run, its application asks, cancels and closes.\<close>

inductive session_reach :: "session_env \<Rightarrow> session \<Rightarrow> session \<Rightarrow> bool" for senv s0 where
  reach_start: "session_reach senv s0 s0"
| reach_receive: "session_reach senv s0 s \<Longrightarrow> receive senv now iface p s = (s', ev) \<Longrightarrow> session_reach senv s0 s'"
| reach_job: "session_reach senv s0 s \<Longrightarrow> run_job senv now j s = (s', ev) \<Longrightarrow> session_reach senv s0 s'"
| reach_request: "session_reach senv s0 s \<Longrightarrow> link_Request senv now path d cbs timeout m s = (s', ev, res) \<Longrightarrow> session_reach senv s0 s'"
| reach_resource: "session_reach senv s0 s \<Longrightarrow> advertise_resource senv now r cb s = (s', ev, e) \<Longrightarrow> session_reach senv s0 s'"
| reach_tick: "session_reach senv s0 s \<Longrightarrow> tick_resource senv now a s = (s', ev) \<Longrightarrow> session_reach senv s0 s'"
| reach_cancel: "session_reach senv s0 s \<Longrightarrow> cancel_resource senv now a s = (s', ev) \<Longrightarrow> session_reach senv s0 s'"
| reach_send: "session_reach senv s0 s \<Longrightarrow> link_send (se_link senv) now q s = (s', q', ev, e) \<Longrightarrow> session_reach senv s0 s'"
| reach_watchdog: "session_reach senv s0 s \<Longrightarrow> link_watchdogStep (se_link senv) now s = (s', ev, n) \<Longrightarrow> session_reach senv s0 s'"
| reach_teardown: "session_reach senv s0 s \<Longrightarrow> Teardown (se_link senv) now s = (s', ev) \<Longrightarrow> session_reach senv s0 s'"

lemma reach_identified:
  assumes "session_reach senv s0 s" and "l_remoteIdentity s0 = None"
  shows "l_destination s = l_destination s0 \<and> l_linkID s = l_linkID s0
    \<and> (\<forall>i. l_remoteIdentity s = Some i \<longrightarrow> identified (lv_curves (se_link senv)) (l_linkID s0) i)"
  using assms
proof (induction rule: session_reach.induct)
  case (reach_receive s now iface p s' ev)
  then show ?case using receive_keeps [OF reach_receive.hyps(2)] by (auto simp: keeps_def)
qed (auto simp: keeps_def dest!: keeps_run_job keeps_link_Request keeps_advertise_resource keeps_tick_cancel keeps_send keeps_link_watchdogStep keeps_Teardown)

text \<open>Sending a response calls no handler.\<close>

lemma effects_no_call: "resource_effects a es s = (s', ev) \<Longrightarrow> HandlerCalled x1 x2 x3 x4 \<notin> set ev"
proof (induction es arbitrary: s ev)
  case (Cons e es)
  have "HandlerCalled x1 x2 x3 x4 \<notin> set ev1" if "receipt_event k ev0 = ev1" for k ev0 ev1 using that by (cases ev0) auto
  then have "HandlerCalled x1 x2 x3 x4 \<notin> set ev1" if "resource_effect a e s = (s1, ev1)" for s1 ev1
    using that by (cases e) (auto simp: on_receipt_def Let_def split: option.splits if_splits prod.splits)
  then show ?case using Cons by (auto split: prod.splits)
qed simp

lemma send_response_no_call:
  assumes "send_response senv now h rid resp s = (s', ev)"
  shows "HandlerCalled x1 x2 x3 x4 \<notin> set ev"
proof -
  have "HandlerCalled x1 x2 x3 x4 \<notin> set out" if "advertise_resource senv now r cb s = (s1, out, e)" for r cb s1 out e
    using that by (auto simp: advertise_resource_def on_resource_def dest: effects_no_call split: prod.splits)
  then show ?thesis using assms by (auto simp: send_response_def Let_def split: prod.splits if_splits sum.splits)
qed

text \<open>
  C4: Requests are authorised. Over the whole life of a link, whatever packets arrive and however its goroutines
  interleave, a request handler of the destination runs only if it is open to all, or if it is restricted to a
  list and the other end has identified itself: it has signed the identifier of this link together with a
  public key, the signature verified, and the hash of that key is on the list.
\<close>

theorem requests_are_authorised:
  assumes "session_reach senv s0 s" and "l_remoteIdentity s0 = None"
    and "handleRequest senv now rid vs s = (s', ev)" and "HandlerCalled path data rid' ident \<in> set ev"
  shows "\<exists>d pathHash h. l_destination s0 = Some d \<and> d_requestHandlers d pathHash = Some h \<and> rh_Path h = path
    \<and> (rh_Allow h = AllowAll \<or> rh_Allow h = AllowList \<and> (\<exists>pk i sigb. ident = Some i \<and> length pk = 64 \<and> LoadPublicKey pk empty_identity = (i, None)
         \<and> TruncatedHash pk \<in> set (rh_AllowedList h) \<and> identity_Verify (lv_curves (se_link senv)) i sigb (l_linkID s0 @ pk)))"
proof -
  note r = reach_identified [OF assms(1,2)]
  have sent: "HandlerCalled path data rid' ident \<notin> set out" if "send_response senv now h rid resp s = (s1, out)" for h resp s1 out
    using that by (rule send_response_no_call)
  obtain d pathHash h where h: "l_destination s = Some d" "d_requestHandlers d pathHash = Some h" "request_allowed h s" "rh_Path h = path"
      "ident = l_remoteIdentity s"
    using assms(3,4) sent
    by (auto simp: handleRequest_def Let_def bind_eq_Some_conv split: if_splits option.splits mvalue.splits prod.splits)
  then show ?thesis using r unfolding request_allowed_def identified_def
    by (intro exI [of _ d] exI [of _ pathHash] exI [of _ h]) (auto split: option.splits)
qed


theorem requests_are_authorised_witness:
  "HandlerCalled [1] MNil [7] None \<in> set (snd (handleRequest demo_session_env 0 [7] [MFloat64 0, MBin (TruncatedHash [1]), MNil] demo_server))
     \<and> (\<exists>d pathHash h. l_destination demo_server = Some d \<and> d_requestHandlers d pathHash = Some h \<and> rh_Path h = [1])"
proof -
  have none: "l_remoteIdentity demo_server = None"
    by (simp add: demo_server_def demo_link_def NewLink_def UpdateMDU_def Let_def)
  obtain s' ev where h: "handleRequest demo_session_env 0 [7] [MFloat64 0, MBin (TruncatedHash [1]), MNil] demo_server = (s', ev)" by fastforce
  have called: "HandlerCalled [1] MNil [7] None \<in> set ev"
    using h none by (auto simp: handleRequest_def demo_server_def demo_handler_def request_allowed_def demo_session_env_def split: prod.splits)
  show ?thesis using called h requests_are_authorised [OF reach_start none h called] by auto
qed

section \<open>A forged link proof\<close>

text \<open>
  C5: A forged proof captures a pending link. The initiator derives the session keys from the key in a link
  proof before it checks the signature. Whoever knows the link request and the expected hop count can answer it
  with a key of their own and a signature that does not verify: the link leaves the pending state under a token
  that the forger can compute, the proof of the real destination is then refused, and what the forger encrypts
  under the token is delivered to the application as data of the link.
\<close>

theorem forged_proof_captures_link:
  assumes law: "curves_law (lv_curves (se_link senv))" and pend: "l_status s = LinkPending" "l_pubBytes s = x25519_pub (lv_curves (se_link senv)) (l_prv s)"
    and dest: "l_destination s = Some d" "d_identity d = Some i" "GetPublicKey i = Some key" "length key = 64"
    and forged: "Context p = ContextLrproof" "Data p = junk @ x25519_pub (lv_curves (se_link senv)) k" "length junk = 64" "Hops p = l_expectedHops s"
      "\<not> identity_Verify (lv_curves (se_link senv)) i junk (l_linkID s @ x25519_pub (lv_curves (se_link senv)) k @ drop 32 key)"
    and tok: "session_token (lv_curves (se_link senv)) (l_mode s) k (l_pubBytes s) (l_linkID s) = Some t"
    and data: "TokenDecryptData t (Data u) = Inr plaintext" "Context u = ContextNone" and cb: "cb_Packet (l_callbacks s)"
  shows "\<exists>s1. deliverLinkProof senv now iface allow p s = (s1, [], None) \<and> l_status s1 = LinkHandshake \<and> l_token s1 = Some t
    \<and> deliverLinkProof senv now' iface' allow' genuine s1 = (s1, [], None)
    \<and> PacketDelivered (u\<lparr>Data := plaintext\<rparr>) \<in> set (snd (receive senv now'' iface'' u s1))"
proof -
  define cs where "cs = lv_curves (se_link senv)"
  define peer where "peer = x25519_pub cs k"
  have peer: "length peer = 32" using law by (simp add: curves_law_def peer_def cs_def)
  have tok': "session_token cs (l_mode s) (l_prv s) peer (l_linkID s) = Some t"
    using tok law pend(2) by (simp add: session_token_def curves_law_def peer_def cs_def)
  define s0 where "s0 = note_inbound now p s"
  define s1 where "s1 = s0\<lparr>l_peerPub := Some peer, l_peerSigPub := Some (drop 32 key), l_token := Some t, l_status := LinkHandshake\<rparr>"
  have s0: "l_status s0 = LinkPending" "l_destination s0 = Some d" "l_linkID s0 = l_linkID s" "l_prv s0 = l_prv s" "l_mode s0 = l_mode s"
      "l_callbacks s0 = l_callbacks s"
    using pend dest by (simp_all add: s0_def)
  have load: "LoadPeer peer (go_slice 32 64 key) s0 = (s0\<lparr>l_peerPub := Some peer, l_peerSigPub := Some (drop 32 key)\<rparr>, None)"
    using peer dest(4) by (simp add: LoadPeer_def NewX25519PublicKeyFromBytes_def NewEd25519PublicKeyFromBytes_def go_slice_def)
  have hs: "handshake cs (s0\<lparr>l_peerPub := Some peer, l_peerSigPub := Some (drop 32 key)\<rparr>) = (s1, None)"
    using handshake_ok [of "s0\<lparr>l_peerPub := Some peer, l_peerSigPub := Some (drop 32 key)\<rparr>" peer cs t] s0 tok' by (simp add: s1_def)
  have "verifyProofSignatureLocked cs p s1 = Some False"
    using forged(2,3,5) dest s0(2,3) peer
    by (simp add: verifyProofSignatureLocked_def s1_def go_slice_def peer_def cs_def Let_def)
  then have "receive senv now iface p s = (s1, [])"
    using forged(1-3) s0 dest load hs peer
    by (simp add: receive_def Let_def s0_def [symmetric] link_ValidateProof_def cs_def [symmetric] peer_def [symmetric] go_slice_def)
  then have first: "deliverLinkProof senv now iface allow p s = (s1, [], None)" using pend(1) forged(4) by (simp add: deliverLinkProof_def)
  have s1: "l_status s1 = LinkHandshake" "l_token s1 = Some t" "cb_Packet (l_callbacks s1)" using s0(6) cb by (simp_all add: s1_def)
  have second: "deliverLinkProof senv now' iface' allow' genuine s1 = (s1, [], None)" using s1(1) by (simp add: deliverLinkProof_def)
  define s2 where "s2 = note_inbound now'' u s1"
  have s2: "l_status s2 = LinkHandshake" "l_token s2 = Some t" "cb_Packet (l_callbacks s2)" using s1 by (simp_all add: s2_def)
  have "receive senv now'' iface'' u s1 = receive_data senv now'' (u\<lparr>Data := plaintext\<rparr>) s2"
    using data s2 by (simp add: receive_def Let_def s2_def [symmetric] should_decrypt_def link_Decrypt_def dispatch_def)
  moreover have "PacketDelivered q \<in> set (snd (receive_data senv now'' q s2))" for q
    using s2(1,3) by (auto simp: receive_data_def dest!: ProvePacket_bookkept bookkept_fields(20) split: prod.splits if_splits)
  ultimately show ?thesis using first second s1 by auto
qed

text \<open>
  A cancelled transfer goes unnoticed. The packet by which a receiver rejects a resource or either side
  cancels one reaches, on an active link, the application as if it were data, and changes neither the resources of
  the link nor their lists: the transfer goes on.
\<close>

theorem cancel_packet_is_data:
  assumes "up t s" and "c = ContextResourceIcl \<or> c = ContextResourceRcl" and "Context p = c" and "TokenDecryptData t (Data p) = Inr (r_hash (resource_at s a))"
    and "cb_Packet (l_callbacks s)"
  shows "\<exists>s' ev. receive senv now iface p s = (s', ev) \<and> PacketDelivered (p\<lparr>Data := r_hash (resource_at s a)\<rparr>) \<in> set ev
    \<and> io_resources s' = io_resources s \<and> io_outgoing s' = io_outgoing s \<and> io_incoming s' = io_incoming s"
proof -
  define s1 where "s1 = note_inbound now p s"
  define q where "q = p\<lparr>Data := r_hash (resource_at s a)\<rparr>"
  have s1: "l_status s1 = LinkActive" "l_token s1 = Some t" "cb_Packet (l_callbacks s1)" "io_resources s1 = io_resources s"
      "io_outgoing s1 = io_outgoing s" "io_incoming s1 = io_incoming s" using assms(1,5) by (simp_all add: s1_def up_def)
  have "receive senv now iface p s = receive_data senv now q s1"
    using assms(2-4) s1 by (auto simp: receive_def Let_def s1_def [symmetric] should_decrypt_def link_Decrypt_def dispatch_def q_def)
  moreover obtain s2 ev where "(if PacketType q \<noteq> 3 \<and> wants_proof q s1 then ProvePacket (se_link senv) now q s1 else (s1, [])) = (s2, ev)" by fastforce
  moreover from this have "bookkept s1 s2" by (auto dest: ProvePacket_bookkept split: if_splits)
  ultimately show ?thesis using s1 bookkept_all [of s1 s2] by (auto simp: receive_data_def q_def)
qed


definition demo_pending :: session where
  "demo_pending = demo_session\<lparr>l_status := LinkPending, l_prv := replicate 32 1, l_pubBytes := pad32 (replicate 32 1), l_destination := Some demo_destination,
     l_expectedHops := 1\<rparr>"

theorem forged_proof_captures_link_witness:
  "\<exists>t s1 ct. deliverLinkProof demo_session_env 0 None True
        (empty_packet\<lparr>Context := ContextLrproof, Hops := 1, Data := replicate 64 0 @ pad32 [8]\<rparr>) demo_pending = (s1, [], None)
     \<and> l_status s1 = LinkHandshake \<and> l_token s1 = Some t
     \<and> PacketDelivered (empty_packet\<lparr>Context := ContextNone, Data := [1, 2]\<rparr>)
         \<in> set (snd (receive demo_session_env 1 None (empty_packet\<lparr>Context := ContextNone, Data := ct\<rparr>) s1))"
proof -
  have cs: "lv_curves (se_link demo_session_env) = demo_curves" by (simp add: demo_session_env_def)
  have "x25519_exchange demo_curves [8] (pad32 (replicate 32 1)) = Some (map2 (XOR) (pad32 [8]) (pad32 (pad32 (replicate 32 1))))"
    by (simp add: demo_curves_def)
  from session_token_ok [OF this] obtain t where t: "session_token demo_curves (l_mode demo_pending) [8] (pad32 (replicate 32 1)) (l_linkID demo_pending) = Some t"
    by fastforce
  obtain ct where ct: "TokenEncrypt (lv_random demo_link_env) t [1, 2] = Inr ct"
    using TokenEncrypt_form [OF session_token_wf [OF t], of "lv_random demo_link_env" "replicate 16 9" "[1, 2]"] by (auto simp: demo_link_env_def)
  have dec: "TokenDecryptData t ct = Inr [1, 2]" by (rule token_open [OF session_token_wf [OF t] ct]) (simp add: demo_link_env_def)
  obtain key where key: "GetPublicKey demo_identity = Some key" "length key = 64"
    using demo_identity_full demo_curves_law by (auto simp: full_identity_def GetPublicKey_def curves_law_def)
  have sp: "sigPub demo_identity = Some (pad32 (replicate 32 2))"
    by (simp add: demo_identity_def LoadPrivateKey_ok demo_curves_def)
  have "\<not> identity_Verify demo_curves demo_identity (replicate 64 0) m" for m
    by (simp add: identity_Verify_def sp demo_curves_def pad32_id list_eq_iff_nth_eq) (intro exI [of _ 0], simp add: nth_append)
  then show ?thesis
    using forged_proof_captures_link [of demo_session_env demo_pending demo_destination demo_identity key
        "empty_packet\<lparr>Context := ContextLrproof, Hops := 1, Data := replicate 64 0 @ pad32 [8]\<rparr>" "replicate 64 0" "[8]" t
        "empty_packet\<lparr>Context := ContextNone, Data := ct\<rparr>" "[1, 2]" 0 None True 0 None True empty_packet 1 None] cs t dec key demo_curves_law
    by (auto simp: demo_pending_def demo_curves_def)
qed

theorem cancel_packet_is_data_witness:
  "\<exists>ct s' ev. receive demo_session_env 0 None (empty_packet\<lparr>Context := ContextResourceRcl, Data := ct\<rparr>)
        (demo_session\<lparr>io_resources := [\<lparr>s_resource = (initial_resource demo_link)\<lparr>r_hash := replicate 32 1\<rparr>, s_concluded = NoCallback, s_progress = None\<rparr>],
           io_outgoing := [0]\<rparr>) = (s', ev)
     \<and> PacketDelivered (empty_packet\<lparr>Context := ContextResourceRcl, Data := replicate 32 1\<rparr>) \<in> set ev \<and> io_outgoing s' = [0]"
proof -
  obtain ct where ct: "TokenEncrypt (lv_random demo_link_env) demo_token (replicate 32 1) = Inr ct"
    using TokenEncrypt_form [OF demo_token_wf, of "lv_random demo_link_env" "replicate 16 9" "replicate 32 1"] by (auto simp: demo_link_env_def)
  have dec: "TokenDecryptData demo_token ct = Inr (replicate 32 1)" by (rule token_open [OF demo_token_wf ct]) (simp add: demo_link_env_def)
  let ?s = "demo_session\<lparr>io_resources := [\<lparr>s_resource = (initial_resource demo_link)\<lparr>r_hash := replicate 32 1\<rparr>, s_concluded = NoCallback, s_progress = None\<rparr>],
     io_outgoing := [0]\<rparr>"
  have h: "r_hash (resource_at ?s 0) = replicate 32 1" by (simp add: resource_at_def)
  have "up demo_token ?s" by (simp add: up_def)
  from cancel_packet_is_data [OF this, of ContextResourceRcl "empty_packet\<lparr>Context := ContextResourceRcl, Data := ct\<rparr>" 0 demo_session_env 0 None] dec h
  show ?thesis by (intro exI [of _ ct]) auto
qed

end
