(* ===== verification/Spec2Isabelle.thy ===== *)
theory Spec2Isabelle
  imports Ax25 Buffer Ifac Discovery AnnounceCap Guard
begin

text \<open>skeleton\<close>

end
